theory Spec2Isabelle
  imports Main "HOL-Library.Word"
begin

unbundle bit_operations_syntax

section \<open>The X11 backend of the shared clipboard (x11-clipboard.cpp)\<close>

text \<open>
  A shallow embedding of \<^verbatim>\<open>src/VBox/GuestHost/SharedClipboard/x11-clipboard.cpp\<close>.
  Conventions of the embedding:
  \<^item> pointers that the code only compares with NULL are natural numbers, 0 being NULL;
  \<^item> buffers are lists, a (pointer, length) pair of the source is one list;
  \<^item> an X11 atom is the value the X server interns for a name, so two names give the
    same atom exactly when they are the same string;
  \<^item> a call that leaves the module (Xt, Xlib, the frontend) is recorded in a list of
    \<open>call\<close> values returned next to the new state, and what such a call returns is an
    argument of the function that makes it;
  \<^item> the allocators (RTMemAlloc, RTMemAllocZ, RTMemDup, XtMalloc) are taken to succeed.
\<close>

subsection \<open>Status codes, atoms and the format table\<close>

text \<open>The IPRT status codes the file names. \<open>RT_SUCCESS\<close> holds of \<open>VINF_SUCCESS\<close> only,
  the other codes are all errors (negative in iprt/err.h).\<close>

datatype vbox_status =
    VINF_SUCCESS
  | VERR_INVALID_PARAMETER
  | VERR_INVALID_POINTER
  | VERR_NO_MEMORY
  | VERR_NOT_IMPLEMENTED
  | VERR_NOT_SUPPORTED
  | VERR_NO_DATA
  | VERR_TIMEOUT
  | VERR_TRY_AGAIN
  | VERR_WRONG_ORDER
  | VERR_INTERNAL_ERROR
  | VERR_OUT_OF_RESOURCES
  | VERR_BUFFER_OVERFLOW
  | VERR_UNRESOLVED_ERROR
  | VERR_NO_TRANSLATION
  | VERR_INVALID_UTF8_ENCODING
  | VERR_INVALID_UTF16_ENCODING

definition RT_SUCCESS :: "vbox_status \<Rightarrow> bool" where
  "RT_SUCCESS rc = (rc = VINF_SUCCESS)"

definition RT_FAILURE :: "vbox_status \<Rightarrow> bool" where
  "RT_FAILURE rc = (rc \<noteq> VINF_SUCCESS)"

text \<open>\<open>Interned name\<close> is the atom of \<open>name\<close>; \<open>XT_CONVERT_FAIL\<close> is the value Xt passes
  as the type of a reply when a conversion timed out, and is no interned name.\<close>

datatype Atom = None_Atom | XT_CONVERT_FAIL | Interned string

definition XA_ATOM :: Atom where
  "XA_ATOM = Interned ''ATOM''"

definition XA_STRING :: Atom where
  "XA_STRING = Interned ''STRING''"

type_synonym Widget = nat

text \<open>The different clipboard formats which we support; the enumeration values are
  those of the C enum and give the order used by \<open><\<close>.\<close>

datatype CLIPFORMAT = INVALID | TARGETS | TEXT | CTEXT | UTF8

fun CLIPFORMAT_val :: "CLIPFORMAT \<Rightarrow> nat" where
  "CLIPFORMAT_val INVALID = 0"
| "CLIPFORMAT_val TARGETS = 1"
| "CLIPFORMAT_val TEXT = 2"
| "CLIPFORMAT_val CTEXT = 3"
| "CLIPFORMAT_val UTF8 = 4"

text \<open>Modelled from the spec: the constant \<^verbatim>\<open>VBOX_SHARED_CLIPBOARD_FMT_UNICODETEXT\<close> of
  VBoxClipboardSvc.h, which is not among the sources; the spec calls it "the
  Unicode-text bit" of the host format mask, here bit 0.\<close>

definition VBOX_SHARED_CLIPBOARD_FMT_UNICODETEXT :: "32 word" where
  "VBOX_SHARED_CLIPBOARD_FMT_UNICODETEXT = 1"

record CLIPFORMATTABLE =
  pcszAtom :: string
  enmFormat :: CLIPFORMAT
  u32VBoxFormat :: "32 word"

definition g_aFormats :: "CLIPFORMATTABLE list" where
  "g_aFormats =
    [ \<lparr>pcszAtom = ''INVALID'', enmFormat = INVALID, u32VBoxFormat = 0\<rparr>,
      \<lparr>pcszAtom = ''UTF8_STRING'', enmFormat = UTF8,
       u32VBoxFormat = VBOX_SHARED_CLIPBOARD_FMT_UNICODETEXT\<rparr>,
      \<lparr>pcszAtom = ''text/plain;charset=UTF-8'', enmFormat = UTF8,
       u32VBoxFormat = VBOX_SHARED_CLIPBOARD_FMT_UNICODETEXT\<rparr>,
      \<lparr>pcszAtom = ''text/plain;charset=utf-8'', enmFormat = UTF8,
       u32VBoxFormat = VBOX_SHARED_CLIPBOARD_FMT_UNICODETEXT\<rparr>,
      \<lparr>pcszAtom = ''STRING'', enmFormat = TEXT,
       u32VBoxFormat = VBOX_SHARED_CLIPBOARD_FMT_UNICODETEXT\<rparr>,
      \<lparr>pcszAtom = ''TEXT'', enmFormat = TEXT,
       u32VBoxFormat = VBOX_SHARED_CLIPBOARD_FMT_UNICODETEXT\<rparr>,
      \<lparr>pcszAtom = ''text/plain'', enmFormat = TEXT,
       u32VBoxFormat = VBOX_SHARED_CLIPBOARD_FMT_UNICODETEXT\<rparr>,
      \<lparr>pcszAtom = ''COMPOUND_TEXT'', enmFormat = CTEXT,
       u32VBoxFormat = VBOX_SHARED_CLIPBOARD_FMT_UNICODETEXT\<rparr> ]"

type_synonym CLIPX11FORMAT = nat

definition NIL_CLIPX11FORMAT :: CLIPX11FORMAT where
  "NIL_CLIPX11FORMAT = 0"

definition MAX_CLIP_X11_FORMATS :: nat where
  "MAX_CLIP_X11_FORMATS = length g_aFormats"

text \<open>Convert an atom name string to an X11 atom (XtConvertAndStore interns the name).\<close>

definition clipGetAtom :: "Widget \<Rightarrow> string \<Rightarrow> Atom" where
  "clipGetAtom widget pszName = Interned pszName"

definition clipAtomForX11Format :: "Widget \<Rightarrow> CLIPX11FORMAT \<Rightarrow> Atom" where
  "clipAtomForX11Format widget format = clipGetAtom widget (pcszAtom (g_aFormats ! format))"

definition clipRealFormatForX11Format :: "CLIPX11FORMAT \<Rightarrow> CLIPFORMAT" where
  "clipRealFormatForX11Format format = enmFormat (g_aFormats ! format)"

definition clipVBoxFormatForX11Format :: "CLIPX11FORMAT \<Rightarrow> 32 word" where
  "clipVBoxFormatForX11Format format = u32VBoxFormat (g_aFormats ! format)"

text \<open>The \<open>for\<close> loop of clipFindX11FormatByAtom, from index \<open>i\<close> on.\<close>

function clipFindX11FormatByAtom_from :: "Widget \<Rightarrow> Atom \<Rightarrow> nat \<Rightarrow> CLIPX11FORMAT" where
  "clipFindX11FormatByAtom_from widget atomFormat i =
     (if i < MAX_CLIP_X11_FORMATS
      then (if clipAtomForX11Format widget i = atomFormat then i
            else clipFindX11FormatByAtom_from widget atomFormat (i + 1))
      else NIL_CLIPX11FORMAT)"
  by pat_completeness auto
termination
  by (relation "measure (\<lambda>(w, a, i). MAX_CLIP_X11_FORMATS - i)") auto

declare clipFindX11FormatByAtom_from.simps [simp del]

definition clipFindX11FormatByAtom :: "Widget \<Rightarrow> Atom \<Rightarrow> CLIPX11FORMAT" where
  "clipFindX11FormatByAtom widget atomFormat = clipFindX11FormatByAtom_from widget atomFormat 0"

text \<open>The \<open>for\<close> loop of clipEnumX11Formats, from index \<open>i\<close> on.\<close>

function clipEnumX11Formats_from :: "32 word \<Rightarrow> nat \<Rightarrow> CLIPX11FORMAT" where
  "clipEnumX11Formats_from u32VBoxFormats i =
     (if i < MAX_CLIP_X11_FORMATS
      then (if u32VBoxFormats AND clipVBoxFormatForX11Format i \<noteq> 0 then i
            else clipEnumX11Formats_from u32VBoxFormats (i + 1))
      else NIL_CLIPX11FORMAT)"
  by pat_completeness auto
termination
  by (relation "measure (\<lambda>(m, i). MAX_CLIP_X11_FORMATS - i)") auto

declare clipEnumX11Formats_from.simps [simp del]

text \<open>CLIPX11FORMAT is \<open>unsigned\<close>, 32 bits wide: \<open>lastFormat + 1\<close> wraps to 0 after
  0xffffffff.\<close>

definition clipEnumX11Formats :: "32 word \<Rightarrow> CLIPX11FORMAT \<Rightarrow> CLIPX11FORMAT" where
  "clipEnumX11Formats u32VBoxFormats lastFormat =
     clipEnumX11Formats_from u32VBoxFormats ((lastFormat + 1) mod 2 ^ 32)"

text \<open>The loop of clipGetTextFormatFromTargets over the targets that are left, carrying
  \<open>bestTextFormat\<close> and \<open>enmBestTextTarget\<close>.\<close>

fun clipGetTextFormatFromTargets_loop ::
  "Widget \<Rightarrow> Atom list \<Rightarrow> CLIPX11FORMAT \<Rightarrow> CLIPFORMAT \<Rightarrow> CLIPX11FORMAT" where
  "clipGetTextFormatFromTargets_loop widget [] bestTextFormat enmBestTextTarget = bestTextFormat"
| "clipGetTextFormatFromTargets_loop widget (t # pTargets) bestTextFormat enmBestTextTarget =
     (let format = clipFindX11FormatByAtom widget t in
      if format \<noteq> NIL_CLIPX11FORMAT
         \<and> clipVBoxFormatForX11Format format = VBOX_SHARED_CLIPBOARD_FMT_UNICODETEXT
         \<and> CLIPFORMAT_val enmBestTextTarget < CLIPFORMAT_val (clipRealFormatForX11Format format)
      then clipGetTextFormatFromTargets_loop widget pTargets format
             (clipRealFormatForX11Format format)
      else clipGetTextFormatFromTargets_loop widget pTargets bestTextFormat enmBestTextTarget)"

definition clipGetTextFormatFromTargets :: "Widget \<Rightarrow> Atom list \<Rightarrow> CLIPX11FORMAT" where
  "clipGetTextFormatFromTargets widget pTargets =
     clipGetTextFormatFromTargets_loop widget pTargets NIL_CLIPX11FORMAT INVALID"



subsection \<open>The backend context\<close>

text \<open>Global context information used by the X11 clipboard backend (struct _CLIPBACKEND).
  \<open>pvUnicodeCache\<close> holds the cached bytes, \<open>cbUnicodeCache\<close> being their number.\<close>

record CLIPBACKEND =
  pFrontend :: nat
  fHaveX11 :: bool
  appContext :: nat
  thread :: nat
  widget :: Widget
  fGrabClipboardOnStart :: bool
  X11TextFormat :: CLIPX11FORMAT
  X11BitmapFormat :: CLIPX11FORMAT
  vboxFormats :: "32 word"
  pvUnicodeCache :: "8 word list option"
  wakeupPipeWrite :: int
  wakeupPipeRead :: int
  fixesSelectInput :: nat
  fixesEventBase :: int
  fBusy :: bool
  fUpdateNeeded :: bool

subsection \<open>Answering a TARGETS request\<close>

text \<open>What a selection conversion hands back to Xt: the four return parameters of an
  XtConvertSelectionProc. The value is an array of atoms or of bytes.\<close>

datatype XtValue = AtomArray "Atom list" | ByteArray "8 word list"

record XtReply =
  atomTypeReturn :: Atom
  pValReturn :: XtValue
  pcLenReturn :: nat
  piFormatReturn :: int

text \<open>The \<open>do ... while\<close> loop of clipCreateX11Targets: \<open>format\<close> is the last format
  returned by the enumeration, \<open>atomTargets\<close> the part of the array filled so far.\<close>

function clipCreateX11Targets_loop ::
  "Widget \<Rightarrow> 32 word \<Rightarrow> CLIPX11FORMAT \<Rightarrow> Atom list \<Rightarrow> Atom list" where
  "clipCreateX11Targets_loop wdg formats format atomTargets =
     (let format' = clipEnumX11Formats formats format in
      if format' \<noteq> NIL_CLIPX11FORMAT
      then clipCreateX11Targets_loop wdg formats format'
             (atomTargets @ [clipAtomForX11Format wdg format'])
      else atomTargets)"
  by pat_completeness auto
termination
proof (relation "measure (\<lambda>(w, m, f, acc). if f < MAX_CLIP_X11_FORMATS
                                            then MAX_CLIP_X11_FORMATS - f
                                            else MAX_CLIP_X11_FORMATS + 1)")
  show "wf (measure (\<lambda>(w, m, f, acc). if f < MAX_CLIP_X11_FORMATS
                                       then MAX_CLIP_X11_FORMATS - f
                                       else MAX_CLIP_X11_FORMATS + 1))"
    by simp
next
  fix wdg :: Widget and formats :: "32 word" and format :: CLIPX11FORMAT
    and atomTargets :: "Atom list" and x :: CLIPX11FORMAT
  assume x: "x = clipEnumX11Formats formats format" and nz: "x \<noteq> NIL_CLIPX11FORMAT"
  have range: "clipEnumX11Formats_from m i = NIL_CLIPX11FORMAT
      \<or> (i \<le> clipEnumX11Formats_from m i \<and> clipEnumX11Formats_from m i < MAX_CLIP_X11_FORMATS)"
    for m i
  proof (induction m i rule: clipEnumX11Formats_from.induct)
    case (1 m i)
    show ?case
    proof (cases "i < MAX_CLIP_X11_FORMATS")
      case False
      then have "clipEnumX11Formats_from m i = NIL_CLIPX11FORMAT"
        by (subst clipEnumX11Formats_from.simps) simp
      then show ?thesis by simp
    next
      case True
      show ?thesis
      proof (cases "m AND clipVBoxFormatForX11Format i \<noteq> 0")
        case hit: True
        with True have "clipEnumX11Formats_from m i = i"
          by (subst clipEnumX11Formats_from.simps) simp
        with True show ?thesis by simp
      next
        case miss: False
        with True have "clipEnumX11Formats_from m i = clipEnumX11Formats_from m (i + 1)"
          by (subst clipEnumX11Formats_from.simps) simp
        with 1 [OF True miss] show ?thesis by auto
      qed
    qed
  qed
  have small: "(format + 1) mod 2 ^ 32 = format + 1" if "format < MAX_CLIP_X11_FORMATS"
    using that by (simp add: MAX_CLIP_X11_FORMATS_def g_aFormats_def)
  from range [of formats "(format + 1) mod 2 ^ 32"] x nz
  have lt: "x < MAX_CLIP_X11_FORMATS"
    and above: "format < MAX_CLIP_X11_FORMATS \<Longrightarrow> format < x"
    using small by (auto simp: clipEnumX11Formats_def)
  show "((wdg, formats, x, atomTargets @ [clipAtomForX11Format wdg x]),
         (wdg, formats, format, atomTargets))
        \<in> measure (\<lambda>(w, m, f, acc). if f < MAX_CLIP_X11_FORMATS
                                     then MAX_CLIP_X11_FORMATS - f
                                     else MAX_CLIP_X11_FORMATS + 1)"
  proof (cases "format < MAX_CLIP_X11_FORMATS")
    case True
    with lt above [OF True] show ?thesis
      by (simp add: diff_less_mono2)
  next
    case False
    with lt show ?thesis by simp
  qed
qed

declare clipCreateX11Targets_loop.simps [simp del]

definition clipCreateX11Targets :: "CLIPBACKEND \<Rightarrow> vbox_status \<times> XtReply" where
  "clipCreateX11Targets pCtx =
     (let atomTargets =
            clipCreateX11Targets_loop (widget pCtx) (vboxFormats pCtx) NIL_CLIPX11FORMAT [];
          cTargets = length atomTargets;
          atomTargets = atomTargets @ [clipGetAtom (widget pCtx) ''TARGETS''];
          atomTargets = atomTargets @ [clipGetAtom (widget pCtx) ''MULTIPLE''];
          atomTargets = atomTargets @ [clipGetAtom (widget pCtx) ''TIMESTAMP'']
      in (VINF_SUCCESS,
          \<lparr>atomTypeReturn = XA_ATOM, pValReturn = AtomArray atomTargets,
           pcLenReturn = cTargets + 3, piFormatReturn = 32\<rparr>))"

subsection \<open>What the module takes from outside\<close>

text \<open>
  The text conversions call into IPRT (RTStr..., RTUtf16...), the clipboard helper
  (vboxClipboardUtf16...) and Xlib (Xmb...). None of these is among the sources, so the
  embedding takes them as the fields of one record \<open>h\<close>, an argument of every function
  that reaches them. A buffer argument is the list of the elements at the pointer, a
  count argument the count the source passes; a result is the status, what was written,
  and the out-parameters.
  \<^item> \<open>RTUtf16CalcUtf8LenEx pwsz cwc\<close> gives the status and \<open>*pcch\<close>;
  \<^item> \<open>vboxClipboardUtf16GetLinSize pwszSrc cwSrc\<close> gives the status and \<open>*pcwDest\<close>;
  \<^item> \<open>vboxClipboardUtf16WinToLin pwszSrc cwSrc cwDest\<close> gives the status and the
    contents of \<open>pu16Dest\<close>;
  \<^item> \<open>RTUtf16ToUtf8Ex pwsz cwc cch\<close> gives the status, the contents of the buffer and
    \<open>*pcch\<close>;
  \<^item> \<open>RTStrUtf8ToCurrentCP psz\<close> and \<open>RTStrCurrentCPToUtf8 psz\<close> give the status and
    the C string allocated (without its terminator);
  \<^item> \<open>XmbTextListToTextProperty psz\<close> (one string, compound text style) gives the Xlib
    result and the property's encoding, value, nitems and format;
  \<^item> \<open>XmbTextPropertyToTextList value\<close> (encoding COMPOUND_TEXT, format 8) gives the
    Xlib result and the first string of the list, \<open>None\<close> if the list is NULL;
  \<^item> \<open>RTStrValidateEncodingEx psz cch\<close> gives the status;
  \<^item> \<open>RTStrToUtf16Ex psz cch\<close> gives the status, the buffer allocated and \<open>*pcwc\<close>;
  \<^item> \<open>vboxClipboardUtf16GetWinSize\<close> and \<open>vboxClipboardUtf16LinToWin\<close> are as their
    WinToLin counterparts.
\<close>

record XTextProperty =
  xtp_value :: "8 word list"
  xtp_encoding :: Atom
  xtp_format :: int
  xtp_nitems :: nat

record HELPERS =
  RTUtf16CalcUtf8LenEx :: "16 word list \<Rightarrow> nat \<Rightarrow> vbox_status \<times> nat"
  vboxClipboardUtf16GetLinSize :: "16 word list \<Rightarrow> nat \<Rightarrow> vbox_status \<times> nat"
  vboxClipboardUtf16WinToLin :: "16 word list \<Rightarrow> nat \<Rightarrow> nat \<Rightarrow> vbox_status \<times> 16 word list"
  RTUtf16ToUtf8Ex :: "16 word list \<Rightarrow> nat \<Rightarrow> nat \<Rightarrow> vbox_status \<times> 8 word list \<times> nat"
  RTStrUtf8ToCurrentCP :: "8 word list \<Rightarrow> vbox_status \<times> 8 word list"
  XmbTextListToTextProperty :: "8 word list \<Rightarrow> int \<times> XTextProperty"
  XmbTextPropertyToTextList :: "8 word list \<Rightarrow> int \<times> 8 word list option"
  RTStrCurrentCPToUtf8 :: "8 word list \<Rightarrow> vbox_status \<times> 8 word list"
  RTStrValidateEncodingEx :: "8 word list \<Rightarrow> nat \<Rightarrow> vbox_status"
  RTStrToUtf16Ex :: "8 word list \<Rightarrow> nat \<Rightarrow> vbox_status \<times> 16 word list \<times> nat"
  vboxClipboardUtf16GetWinSize :: "16 word list \<Rightarrow> nat \<Rightarrow> vbox_status \<times> nat"
  vboxClipboardUtf16LinToWin :: "16 word list \<Rightarrow> nat \<Rightarrow> nat \<Rightarrow> vbox_status \<times> 16 word list"

text \<open>The negative results of Xlib's text conversions (X11/Xutil.h).\<close>

definition XNoMemory :: int where
  "XNoMemory = - 1"

definition XLocaleNotSupported :: int where
  "XLocaleNotSupported = - 2"

definition XConverterNotFound :: int where
  "XConverterNotFound = - 3"

text \<open>The nested conditional both compound text conversions apply to a negative \<open>xrc\<close>.\<close>

definition xrc_to_status :: "int \<Rightarrow> vbox_status" where
  "xrc_to_status xrc =
     (if xrc = XNoMemory then VERR_NO_MEMORY
      else if xrc = XLocaleNotSupported then VERR_NOT_SUPPORTED
      else if xrc = XConverterNotFound then VERR_NOT_SUPPORTED
      else VERR_UNRESOLVED_ERROR)"

text \<open>Modelled from the spec: the macros \<^verbatim>\<open>LINEFEED\<close> and \<^verbatim>\<open>CARRIAGERETURN\<close> of
  clipboard-helper.h, which is not among the sources; the spec's LF and CR.\<close>

definition LINEFEED :: nat where
  "LINEFEED = 0xa"

definition CARRIAGERETURN :: nat where
  "CARRIAGERETURN = 0xd"

subsection \<open>Host text to X11 text\<close>

text \<open>The host's text arrives as bytes and is read as UCS-2 code units through a cast
  of the pointer; the machine is little-endian. An odd last byte is not read
  (\<open>cbSrc / 2\<close>).\<close>

fun RTUTF16_of_bytes :: "8 word list \<Rightarrow> 16 word list" where
  "RTUTF16_of_bytes (lo # hi # bs) = (ucast lo OR push_bit 8 (ucast hi)) # RTUTF16_of_bytes bs"
| "RTUTF16_of_bytes bs = []"

definition clipWinTxtBufSizeForUtf8 ::
  "HELPERS \<Rightarrow> 16 word list \<Rightarrow> nat \<Rightarrow> nat \<Rightarrow> vbox_status \<times> nat" where
  "clipWinTxtBufSizeForUtf8 h pwsz cwc cbActual0 =
     (let (rc, cbRet) = RTUtf16CalcUtf8LenEx h pwsz cwc in
      if RT_SUCCESS rc then (rc, cbRet + 1) else (rc, cbActual0))"

text \<open>clipWinTxtToUtf8 gives the status, the contents of \<open>pszBuf\<close> and \<open>*pcbActual\<close>.
  When the first helper fails or reports no code units, no buffer is allocated and the
  test of \<open>pwszTmp\<close> turns the status into VERR_NO_MEMORY.\<close>

definition clipWinTxtToUtf8 ::
  "HELPERS \<Rightarrow> 16 word list \<Rightarrow> nat \<Rightarrow> nat \<Rightarrow> vbox_status \<times> 8 word list \<times> nat" where
  "clipWinTxtToUtf8 h pwszSrc cbSrc cbBuf =
     (let cwSrc = cbSrc div 2;
          (rc, cwTmp) = vboxClipboardUtf16GetLinSize h pwszSrc cwSrc;
          rc = (if RT_SUCCESS rc \<and> cwTmp = 0 then VERR_NO_DATA else rc);
          allocated = RT_SUCCESS rc;
          rc = (if \<not> allocated then VERR_NO_MEMORY else rc);
          (rc, pwszTmp) = (if RT_SUCCESS rc
                           then vboxClipboardUtf16WinToLin h pwszSrc cwSrc cwTmp
                           else (rc, []));
          (rc, pszBuf, cbDest) = (if RT_SUCCESS rc
                                  then RTUtf16ToUtf8Ex h (drop 1 pwszTmp) (cwTmp - 1) cbBuf
                                  else (rc, [], 0))
      in (rc, pszBuf, cbDest + 1))"

text \<open>The conversions for an X11 requestor give the status and, on success, the reply.\<close>

definition clipWinTxtToUtf8ForX11CB ::
  "HELPERS \<Rightarrow> 16 word list \<Rightarrow> nat \<Rightarrow> Atom \<Rightarrow> vbox_status \<times> XtReply option" where
  "clipWinTxtToUtf8ForX11CB h pwszSrc cbSrc atomTarget =
     (let (rc, cbDest) = clipWinTxtBufSizeForUtf8 h pwszSrc (cbSrc div 2) 0 in
      if RT_SUCCESS rc
      then (let (rc, pszDest, cbActual) = clipWinTxtToUtf8 h pwszSrc cbSrc cbDest in
            if RT_SUCCESS rc
            then (rc, Some \<lparr>atomTypeReturn = atomTarget, pValReturn = ByteArray pszDest,
                            pcLenReturn = cbActual, piFormatReturn = 8\<rparr>)
            else (rc, None))
      else (rc, None))"

definition clipWinTxtToCTextForX11CB ::
  "HELPERS \<Rightarrow> 16 word list \<Rightarrow> nat \<Rightarrow> vbox_status \<times> XtReply option" where
  "clipWinTxtToCTextForX11CB h pwszSrc cbSrc =
     (let (rc, cbTmp) = clipWinTxtBufSizeForUtf8 h pwszSrc (cbSrc div 2) 0;
          (rc, pszTmp, cbActual) = (if RT_SUCCESS rc
                                    then clipWinTxtToUtf8 h pwszSrc cbSrc (cbTmp + 1)
                                    else (rc, [], 0));
          (rc, pszTmp2) = (if RT_SUCCESS rc
                           then RTStrUtf8ToCurrentCP h (takeWhile (\<lambda>c. c \<noteq> 0) pszTmp)
                           else (rc, []));
          (xrc, property) = (if RT_SUCCESS rc
                             then (case XmbTextListToTextProperty h pszTmp2 of
                                     (xrc, p) \<Rightarrow> (xrc, Some p))
                             else (0, None));
          rc = (if RT_SUCCESS rc \<and> xrc < 0 then xrc_to_status xrc else rc)
      in case property of
           Some p \<Rightarrow>
             (if RT_SUCCESS rc
              then (rc, Some \<lparr>atomTypeReturn = xtp_encoding p,
                              pValReturn = ByteArray (xtp_value p @ [0]),
                              pcLenReturn = xtp_nitems p + 1,
                              piFormatReturn = xtp_format p\<rparr>)
              else (rc, None))
         | None \<Rightarrow> (rc, None))"

definition clipIsSupportedSelectionType :: "Widget \<Rightarrow> Atom \<Rightarrow> bool" where
  "clipIsSupportedSelectionType wdg selType \<longleftrightarrow>
     selType = clipGetAtom wdg ''CLIPBOARD'' \<or> selType = clipGetAtom wdg ''PRIMARY''"

text \<open>clipTrimTrailingNul reads the element before the end of the text; a text of
  length 0, or one shorter than its length says, has no such element (\<open>None\<close>).\<close>

definition clipTrimTrailingNul :: "XtReply \<Rightarrow> XtReply option" where
  "clipTrimTrailingNul r =
     (case pValReturn r of
        ByteArray pText \<Rightarrow>
          (if 0 < pcLenReturn r \<and> pcLenReturn r \<le> length pText
           then (if pText ! (pcLenReturn r - 1) = 0
                 then Some (r\<lparr>pcLenReturn := pcLenReturn r - 1\<rparr>)
                 else Some r)
           else None)
      | AtomArray a \<Rightarrow> None)"

subsection \<open>X11 text to host text\<close>

text \<open>clipUtf16ToWinTxt gives the status, the buffer and \<open>*pcbDest\<close>. Its \<open>cwcDest\<close> is a
  \<open>size_t\<close>, taken to be 64 bits wide, so that the \<open>cwcDest * 2\<close> bytes allocated hold the
  \<open>cwcDest\<close> code units the helper may write; the size stored in the 32-bit \<open>*pcbDest\<close> is
  truncated.\<close>

definition clipUtf16ToWinTxt ::
  "HELPERS \<Rightarrow> 16 word list \<Rightarrow> nat \<Rightarrow> vbox_status \<times> 16 word list option \<times> nat" where
  "clipUtf16ToWinTxt h pwcSrc cwcSrc =
     (let (rc, cwcDest) = vboxClipboardUtf16GetWinSize h pwcSrc (cwcSrc + 1);
          (rc, pwszDest) = (if RT_SUCCESS rc
                            then vboxClipboardUtf16LinToWin h pwcSrc (cwcSrc + 1) cwcDest
                            else (rc, []))
      in if RT_SUCCESS rc then (rc, Some pwszDest, (cwcDest * 2) mod 2 ^ 32)
         else (rc, None, 0))"

definition clipUtf8ToWinTxt ::
  "HELPERS \<Rightarrow> 8 word list \<Rightarrow> nat \<Rightarrow> vbox_status \<times> 16 word list option \<times> nat" where
  "clipUtf8ToWinTxt h pcSrc cbSrc =
     (let (rc, pwcTmp, cwcTmp) = RTStrToUtf16Ex h pcSrc cbSrc in
      if RT_SUCCESS rc then clipUtf16ToWinTxt h pwcTmp cwcTmp else (rc, None, 0))"

text \<open>clipCTextToWinTxt dereferences the list Xlib returns; \<open>None\<close> is the result when
  that list is NULL although Xlib reported no error.\<close>

definition clipCTextToWinTxt ::
  "HELPERS \<Rightarrow> Widget \<Rightarrow> 8 word list \<Rightarrow> nat
     \<Rightarrow> (vbox_status \<times> 16 word list option \<times> nat) option" where
  "clipCTextToWinTxt h wdg pcSrc cbSrc =
     (if wdg = 0 then Some (VERR_INVALID_PARAMETER, None, 0)
      else if cbSrc = 0 then Some (VINF_SUCCESS, Some [0], 2)
      else
        (let (xrc, ppcTmp) = XmbTextPropertyToTextList h (take cbSrc pcSrc);
             rc = (if xrc < 0 then xrc_to_status xrc else VINF_SUCCESS)
         in if RT_SUCCESS rc
            then (case ppcTmp of
                    None \<Rightarrow> None
                  | Some s \<Rightarrow>
                      (let (rc, pszTmp) = RTStrCurrentCPToUtf8 h s in
                       if RT_SUCCESS rc
                       then Some (clipUtf8ToWinTxt h pszTmp (length pszTmp))
                       else Some (rc, None, 0)))
            else Some (rc, None, 0)))"

text \<open>Plain \<open>char\<close> is signed or unsigned as the platform has it (signed on x86), and
  \<open>pwszDest[j] = pcSrc[i]\<close> extends the sign when it is signed.\<close>

definition RTUTF16_of_char :: "bool \<Rightarrow> 8 word \<Rightarrow> 16 word" where
  "RTUTF16_of_char fCharSigned c = (if fCharSigned then scast c else ucast c)"

text \<open>The first loop of clipLatin1ToWinTxt, which calculates the space needed: it stops
  at the end of the source or at a zero byte. \<open>cwcDest\<close> is \<open>unsigned\<close>, 32 bits wide, and
  wraps.\<close>

fun clipLatin1ToWinTxt_count :: "8 word list \<Rightarrow> 32 word \<Rightarrow> 32 word" where
  "clipLatin1ToWinTxt_count [] cwcDest = cwcDest"
| "clipLatin1ToWinTxt_count (c # pcSrc) cwcDest =
     (if c = 0 then cwcDest
      else if unat c = LINEFEED then clipLatin1ToWinTxt_count pcSrc (cwcDest + 2)
      else clipLatin1ToWinTxt_count pcSrc (cwcDest + 1))"

text \<open>The second loop, which does the conversion: it runs over all of the source, also
  past a zero byte, and writes at \<open>j\<close>, for a line feed at \<open>j\<close> and \<open>j + 1\<close>; \<open>j\<close> is
  \<open>unsigned\<close> as well. A write past the end of the buffer is \<open>None\<close>.\<close>

fun clipLatin1ToWinTxt_copy ::
  "bool \<Rightarrow> 8 word list \<Rightarrow> 32 word \<Rightarrow> 16 word list \<Rightarrow> 16 word list option" where
  "clipLatin1ToWinTxt_copy fCharSigned [] j pwszDest = Some pwszDest"
| "clipLatin1ToWinTxt_copy fCharSigned (c # pcSrc) j pwszDest =
     (if unat c \<noteq> LINEFEED
      then (if unat j < length pwszDest
            then clipLatin1ToWinTxt_copy fCharSigned pcSrc (j + 1)
                   (pwszDest[unat j := RTUTF16_of_char fCharSigned c])
            else None)
      else (if unat j < length pwszDest \<and> unat (j + 1) < length pwszDest
            then clipLatin1ToWinTxt_copy fCharSigned pcSrc (j + 2)
                   (pwszDest[unat j := of_nat CARRIAGERETURN, unat (j + 1) := of_nat LINEFEED])
            else None))"

text \<open>clipLatin1ToWinTxt; the source is the \<open>cbSrc\<close> bytes at \<open>pcSrc\<close>. \<open>*pcbDest\<close> is
  \<open>cwcDest * 2\<close>, and the buffer is allocated with \<open>cwcDest * 2\<close> bytes, a product of
  \<open>unsigned\<close> values that wraps at \<open>2 ^ 32\<close>: the buffer has half as many elements (here
  zeros). The terminator is written at \<open>cwcDest - 1\<close>.\<close>

definition clipLatin1ToWinTxt ::
  "bool \<Rightarrow> 8 word list \<Rightarrow> (vbox_status \<times> 16 word list option \<times> nat) option" where
  "clipLatin1ToWinTxt fCharSigned pcSrc =
     (let cwcDest = clipLatin1ToWinTxt_count pcSrc 0;
          cwcDest = cwcDest + 1;
          cbDest = unat (cwcDest * 2);
          pwszDest = replicate (unat (cwcDest * 2) div 2) 0
      in case clipLatin1ToWinTxt_copy fCharSigned pcSrc 0 pwszDest of
           None \<Rightarrow> None
         | Some pwszDest \<Rightarrow>
             if unat (cwcDest - 1) < length pwszDest
             then Some (VINF_SUCCESS, Some (pwszDest[unat (cwcDest - 1) := 0]), cbDest)
             else None)"

text \<open>For the statement of what clipLatin1ToWinTxt produces: every byte as its code
  unit, a line feed as carriage return and line feed.\<close>

definition lf_to_crlf :: "bool \<Rightarrow> 8 word list \<Rightarrow> 16 word list" where
  "lf_to_crlf fCharSigned cs =
     concat (map (\<lambda>c. if unat c = LINEFEED then [of_nat CARRIAGERETURN, of_nat LINEFEED]
                      else [RTUTF16_of_char fCharSigned c]) cs)"

text \<open>The source without the terminator, when its last byte is one.\<close>

definition without_terminator :: "8 word list \<Rightarrow> 8 word list" where
  "without_terminator cs = (if cs \<noteq> [] \<and> last cs = 0 then butlast cs else cs)"

subsection \<open>Calls that leave the module\<close>

text \<open>A structure containing information about where to store a request for the X11
  clipboard contents (struct _CLIPREADX11CBREQ; \<open>mCtx\<close> is the one context).\<close>

record CLIPREADX11CBREQ =
  mFormat :: "32 word"
  mTextFormat :: CLIPX11FORMAT
  mReq :: nat

text \<open>The callback and closure given to XtGetSelectionValue.\<close>

datatype XtSelectionCallback =
    CB_clipConvertX11Targets
  | CB_clipConvertX11CB CLIPREADX11CBREQ

text \<open>The procedure and data given to clipQueueToEventThread.\<close>

datatype work =
    W_clipNewVBoxFormatsWorker "32 word"
  | W_vboxClipboardReadX11Worker CLIPREADX11CBREQ
  | W_clipStopEventThreadWorker

text \<open>The calls the embedding records, with their arguments. \<open>XtOwnSelection\<close> carries
  what Xt answered; the frontend's ClipCompleteDataRequestFromX11 gets the status, the
  request, the data and its size in bytes.\<close>

datatype call =
    XtGetSelectionValue Widget Atom Atom XtSelectionCallback
  | XtOwnSelection Widget Atom bool
  | XSetSelectionOwner Atom
  | XtAppAddTimeOut nat work
  | write_wakeup int
  | XtAppSetExitFlag nat
  | XtDestroyWidget Widget
  | XtDestroyApplicationContext nat
  | close_fd int
  | clipUnregisterContext Widget
  | RTThreadCreate_clipEventThread
  | ClipReportX11Formats nat "32 word"
  | ClipCompleteDataRequestFromX11 nat vbox_status nat "16 word list option" nat
  | ClipRequestDataForX11 nat "32 word"

text \<open>Schedule a function call to run on the Xt event thread (the build without
  TESTCASE).\<close>

definition clipQueueToEventThread :: "CLIPBACKEND \<Rightarrow> work \<Rightarrow> call list" where
  "clipQueueToEventThread pCtx proc =
     [XtAppAddTimeOut (appContext pCtx) proc, write_wakeup (wakeupPipeWrite pCtx)]"

subsection \<open>Reading the X11 clipboard: the targets\<close>

definition clipReportFormatsToVBox :: "CLIPBACKEND \<Rightarrow> call list" where
  "clipReportFormatsToVBox pCtx =
     (let u32VBoxFormats = clipVBoxFormatForX11Format (X11TextFormat pCtx) in
      [ClipReportX11Formats (pFrontend pCtx) u32VBoxFormats])"

definition clipResetX11Formats :: "CLIPBACKEND \<Rightarrow> CLIPBACKEND" where
  "clipResetX11Formats pCtx =
     pCtx\<lparr>X11TextFormat := CLIPFORMAT_val INVALID, X11BitmapFormat := CLIPFORMAT_val INVALID\<rparr>"

definition clipReportEmptyX11CB :: "CLIPBACKEND \<Rightarrow> CLIPBACKEND \<times> call list" where
  "clipReportEmptyX11CB pCtx =
     (let pCtx = clipResetX11Formats pCtx in (pCtx, clipReportFormatsToVBox pCtx))"

definition clipGetFormatsFromTargets :: "CLIPBACKEND \<Rightarrow> Atom list \<Rightarrow> CLIPBACKEND" where
  "clipGetFormatsFromTargets pCtx pTargets =
     (let bestTextFormat = clipGetTextFormatFromTargets (widget pCtx) pTargets;
          pCtx = (if X11TextFormat pCtx \<noteq> bestTextFormat
                  then pCtx\<lparr>X11TextFormat := bestTextFormat\<rparr> else pCtx)
      in pCtx\<lparr>X11BitmapFormat := CLIPFORMAT_val INVALID\<rparr>)"

definition clipUpdateX11Targets :: "CLIPBACKEND \<Rightarrow> Atom list \<Rightarrow> CLIPBACKEND \<times> call list" where
  "clipUpdateX11Targets pCtx pTargets =
     (let pCtx = clipGetFormatsFromTargets pCtx pTargets in
      (pCtx, clipReportFormatsToVBox pCtx))"

text \<open>Callback to notify us when the contents of the X11 clipboard change.\<close>

definition clipQueryX11CBFormats :: "CLIPBACKEND \<Rightarrow> CLIPBACKEND \<times> call list" where
  "clipQueryX11CBFormats pCtx =
     (if fBusy pCtx then (pCtx\<lparr>fUpdateNeeded := True\<rparr>, [])
      else (pCtx\<lparr>fBusy := True\<rparr>,
            [XtGetSelectionValue (widget pCtx) (clipGetAtom (widget pCtx) ''CLIPBOARD'')
               (clipGetAtom (widget pCtx) ''TARGETS'') CB_clipConvertX11Targets]))"

text \<open>The callback for the TARGETS request; \<open>pValue\<close> is \<open>None\<close> for NULL and else the
  \<open>*pcLen\<close> atoms at it.\<close>

definition clipConvertX11Targets ::
  "CLIPBACKEND \<Rightarrow> Atom \<Rightarrow> Atom list option \<Rightarrow> CLIPBACKEND \<times> call list" where
  "clipConvertX11Targets pCtx atomType pValue =
     (let pCtx = pCtx\<lparr>fBusy := False\<rparr> in
      if fUpdateNeeded pCtx
      then clipQueryX11CBFormats (pCtx\<lparr>fUpdateNeeded := False\<rparr>)
      else if atomType = XT_CONVERT_FAIL then clipReportEmptyX11CB pCtx
      else (case pValue of
              None \<Rightarrow> clipReportEmptyX11CB pCtx
            | Some pTargets \<Rightarrow> clipUpdateX11Targets pCtx pTargets))"

text \<open>The event XtAppPeekEvent shows, read as an XFixesSelectionNotifyEvent.\<close>

record XFixesSelectionNotifyEvent =
  ev_type :: int
  ev_subtype :: int
  ev_owner :: nat

text \<open>clipPeekEventAndDoXFixesHandling; \<open>peeked\<close> is \<open>None\<close> when XtAppPeekEvent returns
  false, \<open>window\<close> is XtWindow of the widget.\<close>

definition clipPeekEventAndDoXFixesHandling ::
  "CLIPBACKEND \<Rightarrow> XFixesSelectionNotifyEvent option \<Rightarrow> nat \<Rightarrow> CLIPBACKEND \<times> call list" where
  "clipPeekEventAndDoXFixesHandling pCtx peeked window =
     (case peeked of
        None \<Rightarrow> (pCtx, [])
      | Some event \<Rightarrow>
          if ev_type event = fixesEventBase pCtx \<and> ev_owner event \<noteq> window
          then (if ev_subtype event = 0 \<and> ev_owner event \<noteq> 0
                then clipQueryX11CBFormats pCtx
                else clipReportEmptyX11CB pCtx)
          else (pCtx, []))"

subsection \<open>Offering the host clipboard to X11\<close>

text \<open>clipReadVBoxClipboard; \<open>frontend\<close> is what ClipRequestDataForX11 returns if it is
  called: the status and the data (\<open>None\<close> for NULL, the size being that of the data).
  The result is the status, the context, \<open>*ppv\<close> and the calls.\<close>

definition clipReadVBoxClipboard ::
  "CLIPBACKEND \<Rightarrow> 32 word \<Rightarrow> vbox_status \<times> 8 word list option
     \<Rightarrow> vbox_status \<times> CLIPBACKEND \<times> 8 word list option \<times> call list" where
  "clipReadVBoxClipboard pCtx u32Format frontend =
     (if u32Format = VBOX_SHARED_CLIPBOARD_FMT_UNICODETEXT
      then (let (rc, pCtx, calls) =
                  (if pvUnicodeCache pCtx = None
                   then (fst frontend, pCtx\<lparr>pvUnicodeCache := snd frontend\<rparr>,
                         [ClipRequestDataForX11 (pFrontend pCtx) u32Format])
                   else (VINF_SUCCESS, pCtx, []))
            in if RT_SUCCESS rc
               then (rc, pCtx, Some (case pvUnicodeCache pCtx of None \<Rightarrow> [] | Some pv \<Rightarrow> pv),
                     calls)
               else (rc, pCtx, None, calls))
      else (fst frontend, pCtx, snd frontend,
            [ClipRequestDataForX11 (pFrontend pCtx) u32Format]))"

definition clipConvertVBoxCBForX11 ::
  "HELPERS \<Rightarrow> CLIPBACKEND \<Rightarrow> Atom \<Rightarrow> vbox_status \<times> 8 word list option
     \<Rightarrow> (vbox_status \<times> CLIPBACKEND \<times> XtReply option \<times> call list) option" where
  "clipConvertVBoxCBForX11 h pCtx atomTarget frontend =
     (let x11Format = clipFindX11FormatByAtom (widget pCtx) atomTarget;
          format = clipRealFormatForX11Format x11Format
      in if (format = UTF8 \<or> format = CTEXT \<or> format = TEXT)
            \<and> vboxFormats pCtx AND VBOX_SHARED_CLIPBOARD_FMT_UNICODETEXT \<noteq> 0
         then (let (rc, pCtx, pv, calls) =
                     clipReadVBoxClipboard pCtx VBOX_SHARED_CLIPBOARD_FMT_UNICODETEXT frontend;
                   cb = (case pv of None \<Rightarrow> 0 | Some bs \<Rightarrow> length bs);
                   pwsz = (case pv of None \<Rightarrow> [] | Some bs \<Rightarrow> RTUTF16_of_bytes bs);
                   rc = (if RT_SUCCESS rc \<and> cb = 0 then VERR_NO_DATA else rc);
                   (rc, reply) =
                     (if RT_SUCCESS rc \<and> (format = UTF8 \<or> format = TEXT)
                      then clipWinTxtToUtf8ForX11CB h pwsz cb atomTarget
                      else if RT_SUCCESS rc \<and> format = CTEXT
                      then clipWinTxtToCTextForX11CB h pwsz cb
                      else (rc, None))
               in if RT_SUCCESS rc
                  then (case reply of
                          None \<Rightarrow> None
                        | Some r \<Rightarrow>
                            (case clipTrimTrailingNul r of
                               None \<Rightarrow> None
                             | Some r \<Rightarrow> Some (rc, pCtx, Some r, calls)))
                  else Some (rc, pCtx, None, calls))
         else Some (VERR_NOT_SUPPORTED, pCtx, None, []))"

text \<open>Return VBox's clipboard data for an X11 client (the XtConvertSelectionProc).
  \<open>found\<close> says whether clipLookupContext finds the context under the widget; the
  table of contexts itself belongs to the process and is not embedded.\<close>

definition clipXtConvertSelectionProc ::
  "HELPERS \<Rightarrow> bool \<Rightarrow> CLIPBACKEND \<Rightarrow> Atom \<Rightarrow> Atom \<Rightarrow> vbox_status \<times> 8 word list option
     \<Rightarrow> (bool \<times> CLIPBACKEND \<times> XtReply option \<times> call list) option" where
  "clipXtConvertSelectionProc h found pCtx atomSelection atomTarget frontend =
     (if \<not> found then Some (False, pCtx, None, [])
      else if \<not> clipIsSupportedSelectionType (widget pCtx) atomSelection
      then Some (False, pCtx, None, [])
      else if atomTarget = clipGetAtom (widget pCtx) ''TARGETS''
      then (case clipCreateX11Targets pCtx of
              (rc, r) \<Rightarrow> Some (RT_SUCCESS rc, pCtx, Some r, []))
      else (case clipConvertVBoxCBForX11 h pCtx atomTarget frontend of
              None \<Rightarrow> None
            | Some (rc, pCtx, reply, calls) \<Rightarrow> Some (RT_SUCCESS rc, pCtx, reply, calls)))"

text \<open>Invalidates the local cache of the data in the VBox clipboard.\<close>

definition clipInvalidateVBoxCBCache :: "CLIPBACKEND \<Rightarrow> CLIPBACKEND" where
  "clipInvalidateVBoxCBCache pCtx =
     (if pvUnicodeCache pCtx \<noteq> None then pCtx\<lparr>pvUnicodeCache := None\<rparr> else pCtx)"

text \<open>Take possession of the X11 clipboard (and middle-button selection). \<open>own\<close> and
  \<open>own'\<close> are what XtOwnSelection answers for CLIPBOARD and for PRIMARY.\<close>

definition clipGrabX11CB ::
  "CLIPBACKEND \<Rightarrow> 32 word \<Rightarrow> bool \<Rightarrow> bool \<Rightarrow> CLIPBACKEND \<times> call list" where
  "clipGrabX11CB pCtx u32Formats own own' =
     (if own
      then (pCtx\<lparr>vboxFormats := u32Formats\<rparr>,
            [XtOwnSelection (widget pCtx) (clipGetAtom (widget pCtx) ''CLIPBOARD'') own,
             XtOwnSelection (widget pCtx) (clipGetAtom (widget pCtx) ''PRIMARY'') own',
             XSetSelectionOwner (clipGetAtom (widget pCtx) ''CLIPBOARD''),
             XSetSelectionOwner (clipGetAtom (widget pCtx) ''PRIMARY'')])
      else (pCtx, [XtOwnSelection (widget pCtx) (clipGetAtom (widget pCtx) ''CLIPBOARD'') own]))"

text \<open>Worker function for ClipAnnounceFormatToX11 which runs on the event thread.\<close>

definition clipNewVBoxFormatsWorker ::
  "CLIPBACKEND \<Rightarrow> 32 word \<Rightarrow> bool \<Rightarrow> bool \<Rightarrow> CLIPBACKEND \<times> call list" where
  "clipNewVBoxFormatsWorker pCtx u32Formats own own' =
     (let pCtx = clipInvalidateVBoxCBCache pCtx;
          (pCtx, calls) = clipGrabX11CB pCtx u32Formats own own';
          pCtx = clipResetX11Formats pCtx
      in (pCtx, calls))"

subsection \<open>Reading the X11 clipboard: the data\<close>

text \<open>The callback for a data request. \<open>pvSrc\<close> is \<open>None\<close> for NULL; \<open>cbSrc\<close> is computed
  in \<open>unsigned long\<close> (64 bits) and stored in an \<open>unsigned\<close> (32 bits), and the
  conversions read the first \<open>cbSrc\<close> bytes of the value. The result is \<open>None\<close> when a
  conversion has none.\<close>

definition clipConvertX11CB ::
  "HELPERS \<Rightarrow> bool \<Rightarrow> CLIPBACKEND \<Rightarrow> CLIPREADX11CBREQ \<Rightarrow> Atom \<Rightarrow> 8 word list option
     \<Rightarrow> nat \<Rightarrow> int \<Rightarrow> (CLIPBACKEND \<times> call list) option" where
  "clipConvertX11CB h fCharSigned pCtx pReq atomType pvSrc pcLen piFormat =
     (let cbSrc = ((pcLen * nat (piFormat mod 2 ^ 64)) mod 2 ^ 64 div 8) mod 2 ^ 32;
          pCtx = pCtx\<lparr>fBusy := False\<rparr>;
          (pCtx, calls) = (if fUpdateNeeded pCtx then clipQueryX11CBFormats pCtx
                           else (pCtx, []));
          conv =
            (case pvSrc of
               None \<Rightarrow> Some (VERR_NO_DATA, None, 0)
             | Some src \<Rightarrow>
                 if atomType = XT_CONVERT_FAIL then Some (VERR_TIMEOUT, None, 0)
                 else if mFormat pReq = VBOX_SHARED_CLIPBOARD_FMT_UNICODETEXT
                 then (case clipRealFormatForX11Format (mTextFormat pReq) of
                         CTEXT \<Rightarrow> clipCTextToWinTxt h (widget pCtx) src cbSrc
                       | UTF8 \<Rightarrow>
                           if RT_SUCCESS (RTStrValidateEncodingEx h src cbSrc)
                           then Some (clipUtf8ToWinTxt h src cbSrc)
                           else clipLatin1ToWinTxt fCharSigned (take cbSrc src)
                       | TEXT \<Rightarrow>
                           if RT_SUCCESS (RTStrValidateEncodingEx h src cbSrc)
                           then Some (clipUtf8ToWinTxt h src cbSrc)
                           else clipLatin1ToWinTxt fCharSigned (take cbSrc src)
                       | _ \<Rightarrow> Some (VERR_INVALID_PARAMETER, None, 0))
                 else Some (VERR_NOT_IMPLEMENTED, None, 0))
      in case conv of
           None \<Rightarrow> None
         | Some (rc, pvDest, cbDest) \<Rightarrow>
             Some (pCtx, calls @ [ClipCompleteDataRequestFromX11 (pFrontend pCtx) rc (mReq pReq)
                                    pvDest cbDest]))"

text \<open>Worker function for ClipRequestDataFromX11 which runs on the event thread.\<close>

definition vboxClipboardReadX11Worker ::
  "CLIPBACKEND \<Rightarrow> CLIPREADX11CBREQ \<Rightarrow> CLIPBACKEND \<times> call list" where
  "vboxClipboardReadX11Worker pCtx pReq =
     (let fBusy' = fBusy pCtx;
          pCtx = pCtx\<lparr>fBusy := True\<rparr>;
          (rc, calls) =
            (if fBusy' then (VERR_TRY_AGAIN, [])
             else if mFormat pReq = VBOX_SHARED_CLIPBOARD_FMT_UNICODETEXT
             then (let pReq = pReq\<lparr>mTextFormat := X11TextFormat pCtx\<rparr> in
                   if mTextFormat pReq = CLIPFORMAT_val INVALID then (VERR_NO_DATA, [])
                   else (VINF_SUCCESS,
                         [XtGetSelectionValue (widget pCtx)
                            (clipGetAtom (widget pCtx) ''CLIPBOARD'')
                            (clipAtomForX11Format (widget pCtx) (X11TextFormat pCtx))
                            (CB_clipConvertX11CB pReq)]))
             else (VERR_NOT_IMPLEMENTED, []))
      in if RT_FAILURE rc
         then (pCtx, calls @ [ClipCompleteDataRequestFromX11 (pFrontend pCtx) rc (mReq pReq)
                                None 0])
         else (pCtx, calls))"

text \<open>Worker function for stopping the clipboard which runs on the event thread.\<close>

definition clipStopEventThreadWorker :: "CLIPBACKEND \<Rightarrow> CLIPBACKEND \<times> call list" where
  "clipStopEventThreadWorker pCtx = (pCtx, [XtAppSetExitFlag (appContext pCtx)])"

subsection \<open>The public functions\<close>

text \<open>What the operating system, the X server and Xt answer during start and stop:
  each field is the result of the call it is named after (\<open>env_errno\<close> is
  RTErrConvertFromErrno of errno, \<open>env_RTThreadWait n\<close> the result of the wait number
  \<open>n\<close>, \<open>env_clipRegisterContext\<close> that of entering the context in the table of
  contexts, which belongs to the process).\<close>

record X11ENV =
  env_XtCreateApplicationContext :: nat
  env_XtOpenDisplay :: nat
  env_dlopen :: "string \<Rightarrow> nat"
  env_dlsym :: "nat \<Rightarrow> nat"
  env_XQueryExtension :: "bool \<times> int"
  env_XtVaAppCreateShell :: Widget
  env_clipRegisterContext :: vbox_status
  env_pipe :: "(int \<times> int) option"
  env_errno :: vbox_status
  env_XtAppAddInput :: nat
  env_fcntl :: int
  env_RTThreadCreate :: vbox_status
  env_RTThreadWait :: "nat \<Rightarrow> vbox_status"

text \<open>X11 specific uninitialisation for the shared clipboard.\<close>

definition clipUninit :: "CLIPBACKEND \<Rightarrow> CLIPBACKEND \<times> call list" where
  "clipUninit pCtx =
     (let calls = (if widget pCtx \<noteq> 0
                   then [clipUnregisterContext (widget pCtx), XtDestroyWidget (widget pCtx)]
                   else []);
          pCtx = pCtx\<lparr>widget := 0\<rparr>;
          calls = calls @ (if appContext pCtx \<noteq> 0
                           then [XtDestroyApplicationContext (appContext pCtx)] else []);
          pCtx = pCtx\<lparr>appContext := 0\<rparr>;
          calls = calls @ (if wakeupPipeRead pCtx \<noteq> 0
                           then [close_fd (wakeupPipeRead pCtx)] else []);
          calls = calls @ (if wakeupPipeWrite pCtx \<noteq> 0
                           then [close_fd (wakeupPipeWrite pCtx)] else []);
          pCtx = pCtx\<lparr>wakeupPipeRead := 0, wakeupPipeWrite := 0\<rparr>
      in (pCtx, calls))"

text \<open>Setup the XFixes library and load the XFixesSelectSelectionInput symbol.\<close>

definition clipLoadXFixes :: "X11ENV \<Rightarrow> CLIPBACKEND \<Rightarrow> vbox_status \<times> CLIPBACKEND" where
  "clipLoadXFixes env pCtx =
     (let hFixesLib = env_dlopen env ''libXfixes.so.1'';
          hFixesLib = (if hFixesLib = 0 then env_dlopen env ''libXfixes.so.2'' else hFixesLib);
          hFixesLib = (if hFixesLib = 0 then env_dlopen env ''libXfixes.so.3'' else hFixesLib);
          pCtx = (if hFixesLib \<noteq> 0 then pCtx\<lparr>fixesSelectInput := env_dlsym env hFixesLib\<rparr>
                  else pCtx);
          rc = (if hFixesLib = 0 \<or> fixesSelectInput pCtx = 0 then VERR_NOT_SUPPORTED
                else VINF_SUCCESS);
          (rc, pCtx) = (if RT_SUCCESS rc
                        then (let pCtx = pCtx\<lparr>fixesEventBase := snd (env_XQueryExtension env)\<rparr>
                              in if \<not> fst (env_XQueryExtension env)
                                 then (VERR_NOT_SUPPORTED, pCtx) else (rc, pCtx))
                        else (rc, pCtx));
          rc = (if RT_SUCCESS rc \<and> fixesEventBase pCtx < 0 then VERR_NOT_SUPPORTED else rc)
      in (rc, pCtx))"

text \<open>X11 specific initialisation for the shared clipboard (the build without
  TESTCASE).\<close>

definition clipInit :: "X11ENV \<Rightarrow> CLIPBACKEND \<Rightarrow> vbox_status \<times> CLIPBACKEND \<times> call list" where
  "clipInit env pCtx =
     (let pCtx = pCtx\<lparr>appContext := env_XtCreateApplicationContext env\<rparr>;
          pDisplay = env_XtOpenDisplay env;
          rc = (if pDisplay = 0 then VERR_NOT_SUPPORTED else VINF_SUCCESS);
          (rc, pCtx) = (if RT_SUCCESS rc then clipLoadXFixes env pCtx else (rc, pCtx));
          (rc, pCtx) = (if RT_SUCCESS rc
                        then (let pCtx = pCtx\<lparr>widget := env_XtVaAppCreateShell env\<rparr> in
                              if widget pCtx = 0 then (VERR_NO_MEMORY, pCtx)
                              else (env_clipRegisterContext env, pCtx))
                        else (rc, pCtx));
          (rc, pCtx) =
            (case env_pipe env of
               Some (rd, wr) \<Rightarrow>
                 (let pCtx = pCtx\<lparr>wakeupPipeRead := rd, wakeupPipeWrite := wr\<rparr>;
                      rc = (if env_XtAppAddInput env = 0 then VERR_NO_MEMORY else rc);
                      rc = (if RT_SUCCESS rc \<and> env_fcntl env \<noteq> 0 then env_errno env else rc)
                  in (rc, pCtx))
             | None \<Rightarrow> (env_errno env, pCtx))
      in if RT_FAILURE rc
         then (case clipUninit pCtx of (pCtx, calls) \<Rightarrow> (rc, pCtx, calls))
         else (rc, pCtx, []))"

text \<open>Construct the X11 backend of the shared clipboard; RTMemAllocZ gives a context of
  zeros.\<close>

definition ClipConstructX11 :: "nat \<Rightarrow> bool \<Rightarrow> CLIPBACKEND" where
  "ClipConstructX11 pFrontend' fHeadless =
     (let pCtx = \<lparr>pFrontend = 0, fHaveX11 = False, appContext = 0, thread = 0, widget = 0,
                  fGrabClipboardOnStart = False, X11TextFormat = 0, X11BitmapFormat = 0,
                  vboxFormats = 0, pvUnicodeCache = None, wakeupPipeWrite = 0,
                  wakeupPipeRead = 0, fixesSelectInput = 0, fixesEventBase = 0,
                  fBusy = False, fUpdateNeeded = False\<rparr>
      in if fHeadless then pCtx\<lparr>fHaveX11 := False\<rparr>
         else pCtx\<lparr>fHaveX11 := True, pFrontend := pFrontend'\<rparr>)"

text \<open>Announce to the X11 backend that we are ready to start.\<close>

definition ClipStartX11 ::
  "X11ENV \<Rightarrow> CLIPBACKEND \<Rightarrow> bool \<Rightarrow> vbox_status \<times> CLIPBACKEND \<times> call list" where
  "ClipStartX11 env pCtx grab =
     (if \<not> fHaveX11 pCtx then (VINF_SUCCESS, pCtx, [])
      else
        (let (rc, pCtx, calls) = clipInit env pCtx;
             pCtx = (if RT_SUCCESS rc
                     then (clipResetX11Formats pCtx)\<lparr>fGrabClipboardOnStart := grab\<rparr>
                     else pCtx)
         in if RT_SUCCESS rc
            then (let rc = env_RTThreadCreate env in
                  if RT_FAILURE rc
                  then (case clipUninit pCtx of (pCtx, calls') \<Rightarrow> (rc, pCtx, calls @ calls'))
                  else (rc, pCtx, calls @ [RTThreadCreate_clipEventThread]))
            else (rc, pCtx, calls)))"

text \<open>The \<open>do ... while\<close> loop of ClipStopX11 that waits for the thread.\<close>

function ClipStopX11_wait :: "X11ENV \<Rightarrow> nat \<Rightarrow> vbox_status" where
  "ClipStopX11_wait env count' =
     (let rc = env_RTThreadWait env count';
          count' = count' + 1
      in if rc = VERR_TIMEOUT \<and> count' < 300 then ClipStopX11_wait env count' else rc)"
  by pat_completeness auto
termination
  by (relation "measure (\<lambda>(env, n). 300 - n)") auto

declare ClipStopX11_wait.simps [simp del]

text \<open>Shut down the shared clipboard X11 backend.\<close>

definition ClipStopX11 :: "X11ENV \<Rightarrow> CLIPBACKEND \<Rightarrow> vbox_status \<times> CLIPBACKEND \<times> call list" where
  "ClipStopX11 env pCtx =
     (if \<not> fHaveX11 pCtx then (VINF_SUCCESS, pCtx, [])
      else
        (let calls = clipQueueToEventThread pCtx W_clipStopEventThreadWorker;
             rc = ClipStopX11_wait env 0
         in case clipUninit pCtx of (pCtx, calls') \<Rightarrow> (rc, pCtx, calls @ calls')))"

text \<open>VBox is taking possession of the shared clipboard.\<close>

definition ClipAnnounceFormatToX11 :: "CLIPBACKEND \<Rightarrow> 32 word \<Rightarrow> call list" where
  "ClipAnnounceFormatToX11 pCtx u32Formats =
     (if \<not> fHaveX11 pCtx then []
      else clipQueueToEventThread pCtx (W_clipNewVBoxFormatsWorker u32Formats))"

text \<open>Called when VBox wants to read the X11 clipboard.\<close>

definition ClipRequestDataFromX11 ::
  "CLIPBACKEND \<Rightarrow> 32 word \<Rightarrow> nat \<Rightarrow> vbox_status \<times> call list" where
  "ClipRequestDataFromX11 pCtx u32Format pReq =
     (if \<not> fHaveX11 pCtx then (VERR_NO_DATA, [])
      else (VINF_SUCCESS,
            clipQueueToEventThread pCtx
              (W_vboxClipboardReadX11Worker
                 \<lparr>mFormat = u32Format, mTextFormat = 0, mReq = pReq\<rparr>)))"

text \<open>A call of one of the public functions on a context, and a sequence of such
  calls: the status each returns (\<open>None\<close> for the function that returns nothing), the
  context at the end and all the calls made.\<close>

datatype bridge_op =
    Op_ClipStartX11 bool
  | Op_ClipStopX11
  | Op_ClipAnnounceFormatToX11 "32 word"
  | Op_ClipRequestDataFromX11 "32 word" nat

fun bridge_call ::
  "X11ENV \<Rightarrow> CLIPBACKEND \<Rightarrow> bridge_op \<Rightarrow> vbox_status option \<times> CLIPBACKEND \<times> call list" where
  "bridge_call env pCtx (Op_ClipStartX11 grab) =
     (case ClipStartX11 env pCtx grab of (rc, pCtx, calls) \<Rightarrow> (Some rc, pCtx, calls))"
| "bridge_call env pCtx Op_ClipStopX11 =
     (case ClipStopX11 env pCtx of (rc, pCtx, calls) \<Rightarrow> (Some rc, pCtx, calls))"
| "bridge_call env pCtx (Op_ClipAnnounceFormatToX11 u32Formats) =
     (None, pCtx, ClipAnnounceFormatToX11 pCtx u32Formats)"
| "bridge_call env pCtx (Op_ClipRequestDataFromX11 u32Format pReq) =
     (case ClipRequestDataFromX11 pCtx u32Format pReq of (rc, calls) \<Rightarrow> (Some rc, pCtx, calls))"

fun bridge_calls ::
  "X11ENV \<Rightarrow> CLIPBACKEND \<Rightarrow> bridge_op list
     \<Rightarrow> vbox_status option list \<times> CLIPBACKEND \<times> call list" where
  "bridge_calls env pCtx [] = ([], pCtx, [])"
| "bridge_calls env pCtx (op # ops) =
     (case bridge_call env pCtx op of
        (rc, pCtx, calls) \<Rightarrow>
          (case bridge_calls env pCtx ops of
             (rcs, pCtx, calls') \<Rightarrow> (rc # rcs, pCtx, calls @ calls')))"

text \<open>What the headless shim answers to a call.\<close>

fun headless_status :: "bridge_op \<Rightarrow> vbox_status option" where
  "headless_status (Op_ClipStartX11 grab) = Some VINF_SUCCESS"
| "headless_status Op_ClipStopX11 = Some VINF_SUCCESS"
| "headless_status (Op_ClipAnnounceFormatToX11 u32Formats) = None"
| "headless_status (Op_ClipRequestDataFromX11 u32Format pReq) = Some VERR_NO_DATA"

subsection \<open>The context on its event thread\<close>

text \<open>
  The context together with the part of Xt it talks to: the queue of zero-delay timers
  (which Xt runs in the order they were added), the selection requests made with
  XtGetSelectionValue whose callback Xt has not called yet, the selections Xt holds for
  the widget, and the calls made so far.
\<close>

record X11SYS =
  ctx :: CLIPBACKEND
  xt_timers :: "work list"
  xt_requests :: "XtSelectionCallback list"
  xt_owned :: "Atom set"
  calls :: "call list"

text \<open>What a call does to Xt.\<close>

fun xt_effect :: "call \<Rightarrow> X11SYS \<Rightarrow> X11SYS" where
  "xt_effect (XtGetSelectionValue w sel target cb) s = s\<lparr>xt_requests := xt_requests s @ [cb]\<rparr>"
| "xt_effect (XtAppAddTimeOut app proc) s = s\<lparr>xt_timers := xt_timers s @ [proc]\<rparr>"
| "xt_effect (XtOwnSelection w sel own) s =
     (if own then s\<lparr>xt_owned := insert sel (xt_owned s)\<rparr> else s)"
| "xt_effect (XSetSelectionOwner sel) s = s\<lparr>xt_owned := insert sel (xt_owned s)\<rparr>"
| "xt_effect c s = s"

definition deliver :: "X11SYS \<Rightarrow> CLIPBACKEND \<times> call list \<Rightarrow> X11SYS" where
  "deliver s r =
     (fold xt_effect (snd r) (s\<lparr>ctx := fst r\<rparr>))\<lparr>calls := calls s @ snd r\<rparr>"

text \<open>
  What can happen to a started context:
  \<^item> another thread calls ClipAnnounceFormatToX11 or ClipRequestDataFromX11;
  \<^item> Xt runs the oldest timer (the two flags are what XtOwnSelection answers for
    CLIPBOARD and PRIMARY, should the work item ask);
  \<^item> the event loop peeks at the next event, our window being \<open>window\<close>; a selection
    notification with another owner means that the widget has lost CLIPBOARD;
  \<^item> Xt calls the callback of the oldest outstanding selection request, with the type
    and the value of the reply (and for data its length and format);
  \<^item> Xt asks for the conversion of a selection for another client (\<open>found\<close> and
    \<open>frontend\<close> as in clipXtConvertSelectionProc).
  An event that cannot happen in the state (no timer, no outstanding request of the
  kind) leaves it as it is. The result is \<open>None\<close> when a conversion has no result.
\<close>

datatype event =
    Ev_ClipAnnounceFormatToX11 "32 word"
  | Ev_ClipRequestDataFromX11 "32 word" nat
  | Ev_timer bool bool
  | Ev_peek "XFixesSelectionNotifyEvent option" nat
  | Ev_targets_reply Atom "Atom list option"
  | Ev_data_reply Atom "8 word list option" nat int
  | Ev_convert_selection bool Atom Atom "vbox_status \<times> 8 word list option"

fun run_work :: "CLIPBACKEND \<Rightarrow> work \<Rightarrow> bool \<Rightarrow> bool \<Rightarrow> CLIPBACKEND \<times> call list" where
  "run_work pCtx (W_clipNewVBoxFormatsWorker u32Formats) own own' =
     clipNewVBoxFormatsWorker pCtx u32Formats own own'"
| "run_work pCtx (W_vboxClipboardReadX11Worker pReq) own own' =
     vboxClipboardReadX11Worker pCtx pReq"
| "run_work pCtx W_clipStopEventThreadWorker own own' = clipStopEventThreadWorker pCtx"

fun step :: "HELPERS \<Rightarrow> bool \<Rightarrow> X11SYS \<Rightarrow> event \<Rightarrow> X11SYS option" where
  "step h fCharSigned s (Ev_ClipAnnounceFormatToX11 u32Formats) =
     Some (deliver s (ctx s, ClipAnnounceFormatToX11 (ctx s) u32Formats))"
| "step h fCharSigned s (Ev_ClipRequestDataFromX11 u32Format pReq) =
     Some (deliver s (ctx s, snd (ClipRequestDataFromX11 (ctx s) u32Format pReq)))"
| "step h fCharSigned s (Ev_timer own own') =
     (case xt_timers s of
        [] \<Rightarrow> Some s
      | proc # rest \<Rightarrow> Some (deliver (s\<lparr>xt_timers := rest\<rparr>) (run_work (ctx s) proc own own')))"
| "step h fCharSigned s (Ev_peek peeked window) =
     (let lost = (case peeked of
                    None \<Rightarrow> False
                  | Some e \<Rightarrow> ev_type e = fixesEventBase (ctx s) \<and> ev_owner e \<noteq> window);
          s = (if lost
               then s\<lparr>xt_owned := xt_owned s - {clipGetAtom (widget (ctx s)) ''CLIPBOARD''}\<rparr>
               else s)
      in Some (deliver s (clipPeekEventAndDoXFixesHandling (ctx s) peeked window)))"
| "step h fCharSigned s (Ev_targets_reply atomType pValue) =
     (case xt_requests s of
        CB_clipConvertX11Targets # rest \<Rightarrow>
          Some (deliver (s\<lparr>xt_requests := rest\<rparr>) (clipConvertX11Targets (ctx s) atomType pValue))
      | _ \<Rightarrow> Some s)"
| "step h fCharSigned s (Ev_data_reply atomType pvSrc pcLen piFormat) =
     (case xt_requests s of
        CB_clipConvertX11CB pReq # rest \<Rightarrow>
          (case clipConvertX11CB h fCharSigned (ctx s) pReq atomType pvSrc pcLen piFormat of
             None \<Rightarrow> None
           | Some r \<Rightarrow> Some (deliver (s\<lparr>xt_requests := rest\<rparr>) r))
      | _ \<Rightarrow> Some s)"
| "step h fCharSigned s (Ev_convert_selection found atomSelection atomTarget frontend) =
     (case clipXtConvertSelectionProc h found (ctx s) atomSelection atomTarget frontend of
        None \<Rightarrow> None
      | Some (ok, pCtx, reply, cs) \<Rightarrow> Some (deliver s (pCtx, cs)))"

fun run :: "HELPERS \<Rightarrow> bool \<Rightarrow> X11SYS \<Rightarrow> event list \<Rightarrow> X11SYS option" where
  "run h fCharSigned s [] = Some s"
| "run h fCharSigned s (e # es) =
     (case step h fCharSigned s e of
        None \<Rightarrow> None
      | Some s' \<Rightarrow> run h fCharSigned s' es)"

text \<open>The system when the event thread of a context that ClipStartX11 has started
  begins to run (clipEventThread before its loop).\<close>

definition clipEventThread_begin :: "CLIPBACKEND \<Rightarrow> X11SYS" where
  "clipEventThread_begin pCtx =
     deliver \<lparr>ctx = pCtx, xt_timers = [], xt_requests = [], xt_owned = {}, calls = []\<rparr>
       (if fGrabClipboardOnStart pCtx then clipQueryX11CBFormats pCtx else (pCtx, []))"

subsection \<open>Concrete surroundings for examples\<close>

text \<open>An environment in which every call made during start and stop succeeds, helpers
  that all report failure, and the context that ClipStartX11 then produces for the
  frontend 7 without grabbing.\<close>

definition env_ok :: X11ENV where
  "env_ok =
     \<lparr>env_XtCreateApplicationContext = 100, env_XtOpenDisplay = 101,
      env_dlopen = (\<lambda>name. if name = ''libXfixes.so.3'' then 102 else 0),
      env_dlsym = (\<lambda>lib. if lib = 102 then 103 else 0),
      env_XQueryExtension = (True, 87), env_XtVaAppCreateShell = 104,
      env_clipRegisterContext = VINF_SUCCESS, env_pipe = Some (5, 6),
      env_errno = VERR_INVALID_PARAMETER, env_XtAppAddInput = 105, env_fcntl = 0,
      env_RTThreadCreate = VINF_SUCCESS, env_RTThreadWait = (\<lambda>n. VINF_SUCCESS)\<rparr>"

definition no_helpers :: HELPERS where
  "no_helpers =
     \<lparr>RTUtf16CalcUtf8LenEx = (\<lambda>pwsz cwc. (VERR_NOT_SUPPORTED, 0)),
      vboxClipboardUtf16GetLinSize = (\<lambda>pwsz cw. (VERR_NOT_SUPPORTED, 0)),
      vboxClipboardUtf16WinToLin = (\<lambda>pwsz cw cwDest. (VERR_NOT_SUPPORTED, [])),
      RTUtf16ToUtf8Ex = (\<lambda>pwsz cwc cch. (VERR_NOT_SUPPORTED, [], 0)),
      RTStrUtf8ToCurrentCP = (\<lambda>psz. (VERR_NOT_SUPPORTED, [])),
      XmbTextListToTextProperty =
        (\<lambda>psz. (XLocaleNotSupported,
                \<lparr>xtp_value = [], xtp_encoding = None_Atom, xtp_format = 0, xtp_nitems = 0\<rparr>)),
      XmbTextPropertyToTextList = (\<lambda>v. (XLocaleNotSupported, None)),
      RTStrCurrentCPToUtf8 = (\<lambda>psz. (VERR_NOT_SUPPORTED, [])),
      RTStrValidateEncodingEx = (\<lambda>psz cch. VERR_NOT_SUPPORTED),
      RTStrToUtf16Ex = (\<lambda>psz cch. (VERR_NOT_SUPPORTED, [], 0)),
      vboxClipboardUtf16GetWinSize = (\<lambda>pwsz cw. (VERR_NOT_SUPPORTED, 0)),
      vboxClipboardUtf16LinToWin = (\<lambda>pwsz cw cwDest. (VERR_NOT_SUPPORTED, []))\<rparr>"

definition started_ctx :: CLIPBACKEND where
  "started_ctx = fst (snd (ClipStartX11 env_ok (ClipConstructX11 7 False) False))"

text \<open>For the statements about the frontend: the calls of ClipRequestDataForX11 among a
  list of calls, and the work items and events that announce a non-empty format mask.\<close>

fun is_host_read :: "call \<Rightarrow> bool" where
  "is_host_read (ClipRequestDataForX11 f u32Format) = True"
| "is_host_read c = False"

fun announces_nothing :: "work \<Rightarrow> bool" where
  "announces_nothing (W_clipNewVBoxFormatsWorker u32Formats) = (u32Formats = 0)"
| "announces_nothing w = True"

fun announces_nothing_ev :: "event \<Rightarrow> bool" where
  "announces_nothing_ev (Ev_ClipAnnounceFormatToX11 u32Formats) = (u32Formats = 0)"
| "announces_nothing_ev e = True"

text \<open>A state in which the host offers no Unicode text and no announcement of a non-empty
  mask waits among the timers; and a result (context and calls) that leaves the host
  format mask alone, asks the frontend for no data and queues nothing.\<close>

definition quiet :: "X11SYS \<Rightarrow> bool" where
  "quiet s \<longleftrightarrow> vboxFormats (ctx s) AND VBOX_SHARED_CLIPBOARD_FMT_UNICODETEXT = 0
               \<and> (\<forall>w\<in>set (xt_timers s). announces_nothing w)"

definition harmless :: "CLIPBACKEND \<Rightarrow> CLIPBACKEND \<times> call list \<Rightarrow> bool" where
  "harmless pCtx r \<longleftrightarrow>
     vboxFormats (fst r) = vboxFormats pCtx \<and> filter is_host_read (snd r) = []
     \<and> (\<forall>c\<in>set (snd r). \<forall>app w. c \<noteq> XtAppAddTimeOut app w)"

subsection \<open>The text helpers, from the specification\<close>

text \<open>
  The helpers that clipWinTxtToUtf8 and clipUtf8ToWinTxt call are not among the sources.
  For the round trip of host text they are modelled here from the specification
  (section 4.2); the fields of \<open>h\<close> not reached by the round trip stay as in
  \<open>no_helpers\<close>.
\<close>

text \<open>Modelled from the spec: "16-bit code units", well-formed UTF-16. The code points
  of a sequence of code units, \<open>None\<close> when a surrogate is not paired.\<close>

fun utf16_decode :: "nat list \<Rightarrow> nat list option" where
  "utf16_decode [] = Some []"
| "utf16_decode (u # us) =
     (if u < 0xD800 \<or> 0xDFFF < u then map_option ((#) u) (utf16_decode us)
      else if u < 0xDC00
      then (case us of
              [] \<Rightarrow> None
            | l # us' \<Rightarrow>
                if 0xDC00 \<le> l \<and> l \<le> 0xDFFF
                then map_option ((#) (0x10000 + (u - 0xD800) * 0x400 + (l - 0xDC00)))
                       (utf16_decode us')
                else None)
      else None)"

definition utf16_encode :: "nat \<Rightarrow> nat list" where
  "utf16_encode cp =
     (if cp < 0x10000 then [cp]
      else [0xD800 + (cp - 0x10000) div 0x400, 0xDC00 + (cp - 0x10000) mod 0x400])"

text \<open>Modelled from the spec: "convert 16-bit \<rightarrow> UTF-8" and "validate input as UTF-8".
  The UTF-8 bytes of a code point, and the code points of a sequence of bytes, \<open>None\<close>
  when it is not valid UTF-8 (a stray or missing continuation byte, an overlong form, a
  surrogate, a value above 0x10FFFF).\<close>

definition utf8_encode :: "nat \<Rightarrow> nat list" where
  "utf8_encode cp =
     (if cp < 0x80 then [cp]
      else if cp < 0x800 then [0xC0 + cp div 0x40, 0x80 + cp mod 0x40]
      else if cp < 0x10000
      then [0xE0 + cp div 0x1000, 0x80 + cp div 0x40 mod 0x40, 0x80 + cp mod 0x40]
      else [0xF0 + cp div 0x40000, 0x80 + cp div 0x1000 mod 0x40,
            0x80 + cp div 0x40 mod 0x40, 0x80 + cp mod 0x40])"

definition utf8_cont :: "nat \<Rightarrow> bool" where
  "utf8_cont b \<longleftrightarrow> 0x80 \<le> b \<and> b < 0xC0"

fun utf8_decode :: "nat list \<Rightarrow> nat list option" where
  "utf8_decode [] = Some []"
| "utf8_decode (b # bs) =
     (if b < 0x80 then map_option ((#) b) (utf8_decode bs)
      else if 0xC0 \<le> b \<and> b < 0xE0
      then (case bs of
              b1 # r \<Rightarrow>
                (let cp = (b - 0xC0) * 0x40 + (b1 - 0x80) in
                 if utf8_cont b1 \<and> 0x80 \<le> cp
                 then map_option ((#) cp) (utf8_decode r) else None)
            | _ \<Rightarrow> None)
      else if 0xE0 \<le> b \<and> b < 0xF0
      then (case bs of
              b1 # b2 # r \<Rightarrow>
                (let cp = (b - 0xE0) * 0x1000 + (b1 - 0x80) * 0x40 + (b2 - 0x80) in
                 if utf8_cont b1 \<and> utf8_cont b2 \<and> 0x800 \<le> cp
                    \<and> (cp < 0xD800 \<or> 0xDFFF < cp)
                 then map_option ((#) cp) (utf8_decode r) else None)
            | _ \<Rightarrow> None)
      else if 0xF0 \<le> b \<and> b < 0xF8
      then (case bs of
              b1 # b2 # b3 # r \<Rightarrow>
                (let cp = (b - 0xF0) * 0x40000 + (b1 - 0x80) * 0x1000 + (b2 - 0x80) * 0x40
                          + (b3 - 0x80) in
                 if utf8_cont b1 \<and> utf8_cont b2 \<and> utf8_cont b3 \<and> 0x10000 \<le> cp
                    \<and> cp < 0x110000
                 then map_option ((#) cp) (utf8_decode r) else None)
            | _ \<Rightarrow> None)
      else None)"

text \<open>The text at a pointer with a count: the elements up to the count or up to the
  first zero, whichever comes first ("the input length in code units may include or
  exclude the terminator; transcoding must behave identically").\<close>

definition text_at :: "'a::zero list \<Rightarrow> nat \<Rightarrow> 'a list" where
  "text_at p n = takeWhile (\<lambda>c. c \<noteq> 0) (take n p)"

text \<open>Modelled from the spec: RTUtf16ToUtf8Ex and RTStrToUtf16Ex of IPRT; "convert
  16-bit \<rightarrow> UTF-8. Output is NUL-terminated" and its inverse. The buffer holds the text
  and its terminator, the count returned is that of the text.\<close>

definition spec_RTUtf16ToUtf8Ex ::
  "16 word list \<Rightarrow> nat \<Rightarrow> nat \<Rightarrow> vbox_status \<times> 8 word list \<times> nat" where
  "spec_RTUtf16ToUtf8Ex pwsz cwc cch =
     (case utf16_decode (map unat (text_at pwsz cwc)) of
        None \<Rightarrow> (VERR_INVALID_UTF16_ENCODING, [], 0)
      | Some cps \<Rightarrow>
          (let bs = concat (map utf8_encode cps) in
           if length bs < cch then (VINF_SUCCESS, map of_nat bs @ [0], length bs)
           else (VERR_BUFFER_OVERFLOW, [], 0)))"

definition spec_RTUtf16CalcUtf8LenEx :: "16 word list \<Rightarrow> nat \<Rightarrow> vbox_status \<times> nat" where
  "spec_RTUtf16CalcUtf8LenEx pwsz cwc =
     (case utf16_decode (map unat (text_at pwsz cwc)) of
        None \<Rightarrow> (VERR_INVALID_UTF16_ENCODING, 0)
      | Some cps \<Rightarrow> (VINF_SUCCESS, length (concat (map utf8_encode cps))))"

definition spec_RTStrValidateEncodingEx :: "8 word list \<Rightarrow> nat \<Rightarrow> vbox_status" where
  "spec_RTStrValidateEncodingEx psz cch =
     (case utf8_decode (map unat (text_at psz cch)) of
        None \<Rightarrow> VERR_INVALID_UTF8_ENCODING
      | Some cps \<Rightarrow> VINF_SUCCESS)"

definition spec_RTStrToUtf16Ex ::
  "8 word list \<Rightarrow> nat \<Rightarrow> vbox_status \<times> 16 word list \<times> nat" where
  "spec_RTStrToUtf16Ex psz cch =
     (case utf8_decode (map unat (text_at psz cch)) of
        None \<Rightarrow> (VERR_INVALID_UTF8_ENCODING, [], 0)
      | Some cps \<Rightarrow>
          (let ws = concat (map utf16_encode cps) in
           (VINF_SUCCESS, map of_nat ws @ [0], length ws)))"

text \<open>Modelled from the spec: vboxClipboardUtf16GetLinSize and
  vboxClipboardUtf16WinToLin of the clipboard helper; "compute Unix line length (CRLF
  \<rightarrow> LF, CRCRLF \<rightarrow> CRLF, CRLFCR \<rightarrow> LFCR, preserving non-paired CR), allocate, copy with
  transformation". A carriage return directly before a line feed is dropped, every
  other code unit is copied. clipWinTxtToUtf8 hands the result on without its first
  code unit (\<open>pwszTmp + 1\<close>, \<open>cwTmp - 1\<close>) and the tests expect the whole text, so the
  result starts with one code unit that is not text: the byte order mark. It ends with
  the terminator.\<close>

fun win_to_lin :: "16 word list \<Rightarrow> 16 word list" where
  "win_to_lin (c # d # ws) =
     (if c = of_nat CARRIAGERETURN \<and> d = of_nat LINEFEED then d # win_to_lin ws
      else c # win_to_lin (d # ws))"
| "win_to_lin ws = ws"

definition UTF16LEMARKER :: "16 word" where
  "UTF16LEMARKER = 0xfeff"

definition spec_vboxClipboardUtf16GetLinSize ::
  "16 word list \<Rightarrow> nat \<Rightarrow> vbox_status \<times> nat" where
  "spec_vboxClipboardUtf16GetLinSize pwszSrc cwSrc =
     (VINF_SUCCESS, length (win_to_lin (text_at pwszSrc cwSrc)) + 2)"

definition spec_vboxClipboardUtf16WinToLin ::
  "16 word list \<Rightarrow> nat \<Rightarrow> nat \<Rightarrow> vbox_status \<times> 16 word list" where
  "spec_vboxClipboardUtf16WinToLin pwszSrc cwSrc cwDest =
     (let dest = UTF16LEMARKER # win_to_lin (text_at pwszSrc cwSrc) @ [0] in
      if length dest \<le> cwDest
      then (VINF_SUCCESS, dest @ replicate (cwDest - length dest) 0)
      else (VERR_BUFFER_OVERFLOW, []))"

text \<open>Modelled from the spec: vboxClipboardUtf16GetWinSize and
  vboxClipboardUtf16LinToWin of the clipboard helper; "expand LF \<rightarrow> CRLF ..., then
  terminate with a trailing NUL code unit". Every line feed is expanded, as
  clipLatin1ToWinTxt does and as the tests expect of the UTF-8 and compound text paths
  (CR LF from X11 arrives as CR CR LF); the specification's "leaving existing CRLF
  intact" is not followed.\<close>

definition lin_to_win :: "16 word list \<Rightarrow> 16 word list" where
  "lin_to_win ws =
     concat (map (\<lambda>c. if c = of_nat LINEFEED then [of_nat CARRIAGERETURN, of_nat LINEFEED]
                      else [c]) ws)"

definition spec_vboxClipboardUtf16GetWinSize ::
  "16 word list \<Rightarrow> nat \<Rightarrow> vbox_status \<times> nat" where
  "spec_vboxClipboardUtf16GetWinSize pwszSrc cwSrc =
     (VINF_SUCCESS, length (lin_to_win (text_at pwszSrc cwSrc)) + 1)"

definition spec_vboxClipboardUtf16LinToWin ::
  "16 word list \<Rightarrow> nat \<Rightarrow> nat \<Rightarrow> vbox_status \<times> 16 word list" where
  "spec_vboxClipboardUtf16LinToWin pwszSrc cwSrc cwDest =
     (let dest = lin_to_win (text_at pwszSrc cwSrc) @ [0] in
      if length dest \<le> cwDest
      then (VINF_SUCCESS, dest @ replicate (cwDest - length dest) 0)
      else (VERR_BUFFER_OVERFLOW, []))"

definition spec_helpers :: HELPERS where
  "spec_helpers =
     no_helpers
       \<lparr>RTUtf16CalcUtf8LenEx := spec_RTUtf16CalcUtf8LenEx,
        vboxClipboardUtf16GetLinSize := spec_vboxClipboardUtf16GetLinSize,
        vboxClipboardUtf16WinToLin := spec_vboxClipboardUtf16WinToLin,
        RTUtf16ToUtf8Ex := spec_RTUtf16ToUtf8Ex,
        RTStrValidateEncodingEx := spec_RTStrValidateEncodingEx,
        RTStrToUtf16Ex := spec_RTStrToUtf16Ex,
        vboxClipboardUtf16GetWinSize := spec_vboxClipboardUtf16GetWinSize,
        vboxClipboardUtf16LinToWin := spec_vboxClipboardUtf16LinToWin\<rparr>"

text \<open>Host text as the round trip takes it: code units without a zero, surrogates
  paired, and every line feed directly after a carriage return.\<close>

definition utf16_well_formed :: "16 word list \<Rightarrow> bool" where
  "utf16_well_formed ws \<longleftrightarrow> utf16_decode (map unat ws) \<noteq> None"

definition crlf_convention :: "16 word list \<Rightarrow> bool" where
  "crlf_convention ws \<longleftrightarrow>
     (\<forall>i < length ws. ws ! i = of_nat LINEFEED \<longrightarrow>
        0 < i \<and> ws ! (i - 1) = of_nat CARRIAGERETURN)"

text \<open>A Unicode scalar value: a code point that is no surrogate.\<close>

definition scalar :: "nat \<Rightarrow> bool" where
  "scalar cp \<longleftrightarrow> cp < 0x110000 \<and> (cp < 0xD800 \<or> 0xDFFF < cp)"

text \<open>For the statement of what the conversions from UTF-8 and from compound text
  produce: the host text of a list of code points, a line feed as carriage return and
  line feed, every other code point as its UTF-16 code units.\<close>

definition host_text_of :: "nat list \<Rightarrow> 16 word list" where
  "host_text_of cps =
     concat (map (\<lambda>cp. if cp = LINEFEED then [of_nat CARRIAGERETURN, of_nat LINEFEED]
                       else map of_nat (utf16_encode cp)) cps)"

text \<open>Helpers whose conversions from X11 text are the ones modelled above; what Xlib and
  the current code page do (XmbTextPropertyToTextList, RTStrCurrentCPToUtf8) is left
  open.\<close>

definition converts_as_specified :: "HELPERS \<Rightarrow> bool" where
  "converts_as_specified h \<longleftrightarrow>
     RTStrToUtf16Ex h = spec_RTStrToUtf16Ex
     \<and> vboxClipboardUtf16GetWinSize h = spec_vboxClipboardUtf16GetWinSize
     \<and> vboxClipboardUtf16LinToWin h = spec_vboxClipboardUtf16LinToWin"

section \<open>Properties\<close>

subsection \<open>The format table\<close>

lemma MAX_CLIP_X11_FORMATS_eq: "MAX_CLIP_X11_FORMATS = 8"
  by (simp add: MAX_CLIP_X11_FORMATS_def g_aFormats_def)










lemma table_lookups:
  "clipFindX11FormatByAtom w (Interned ''COMPOUND_TEXT'') = 7"
  "clipFindX11FormatByAtom w (Interned ''text/plain'') = 6"
  "clipFindX11FormatByAtom w (Interned ''UTF8_STRING'') = 1"
  "clipFindX11FormatByAtom w (Interned ''TARGETS'') = 0"
  by (simp_all add: clipFindX11FormatByAtom_def clipFindX11FormatByAtom_from.simps
        MAX_CLIP_X11_FORMATS_eq clipAtomForX11Format_def clipGetAtom_def g_aFormats_def
        NIL_CLIPX11FORMAT_def)

lemma table_entries:
  "clipVBoxFormatForX11Format 7 = 1" "clipRealFormatForX11Format 7 = CTEXT"
  "clipVBoxFormatForX11Format 6 = 1" "clipRealFormatForX11Format 6 = TEXT"
  "clipVBoxFormatForX11Format 1 = 1" "clipRealFormatForX11Format 1 = UTF8"
  "clipVBoxFormatForX11Format (Suc 0) = 1" "clipRealFormatForX11Format (Suc 0) = UTF8"
  "clipVBoxFormatForX11Format 0 = 0" "clipRealFormatForX11Format 0 = INVALID"
  by (simp_all add: clipVBoxFormatForX11Format_def clipRealFormatForX11Format_def g_aFormats_def
        VBOX_SHARED_CLIPBOARD_FMT_UNICODETEXT_def)


subsection \<open>The TARGETS reply\<close>

lemma clipEnumX11Formats_from_filter:
  "clipEnumX11Formats_from m i =
     (case filter (\<lambda>k. m AND clipVBoxFormatForX11Format k \<noteq> 0) [i ..< MAX_CLIP_X11_FORMATS] of
        [] \<Rightarrow> NIL_CLIPX11FORMAT | k # _ \<Rightarrow> k)"
proof (induction m i rule: clipEnumX11Formats_from.induct)
  case (1 m i)
  show ?case
  proof (cases "i < MAX_CLIP_X11_FORMATS")
    case True
    then have up: "[i ..< MAX_CLIP_X11_FORMATS] = i # [i + 1 ..< MAX_CLIP_X11_FORMATS]"
      by (simp add: upt_conv_Cons)
    show ?thesis
    proof (cases "m AND clipVBoxFormatForX11Format i \<noteq> 0")
      case hit: True
      show ?thesis
        by (subst clipEnumX11Formats_from.simps, subst up) (simp add: True hit)
    next
      case miss: False
      have "clipEnumX11Formats_from m i = clipEnumX11Formats_from m (i + 1)"
        by (subst clipEnumX11Formats_from.simps) (simp add: True miss)
      also have "\<dots> = (case filter (\<lambda>k. m AND clipVBoxFormatForX11Format k \<noteq> 0) [i + 1 ..< MAX_CLIP_X11_FORMATS] of
        [] \<Rightarrow> NIL_CLIPX11FORMAT | k # _ \<Rightarrow> k)"
        using 1 True miss by simp
      finally show ?thesis
        by (subst up) (simp add: miss)
    qed
  next
    case False
    then show ?thesis
      by (subst clipEnumX11Formats_from.simps) simp
  qed
qed


lemma filter_upt_Cons:
  "filter P [i ..< n] = k # rest \<Longrightarrow> i \<le> k \<and> rest = filter P [Suc k ..< n]"
proof (induction "n - i" arbitrary: i)
  case 0
  then show ?case by simp
next
  case (Suc d)
  then have lt: "i < n" by simp
  then have up: "[i ..< n] = i # [Suc i ..< n]"
    by (simp add: upt_conv_Cons)
  show ?case
  proof (cases "P i")
    case True
    with Suc.prems up show ?thesis by auto
  next
    case False
    with Suc.prems up have "filter P [Suc i ..< n] = k # rest" by simp
    moreover from Suc.hyps(2) have "d = n - Suc i" by simp
    ultimately have "Suc i \<le> k \<and> rest = filter P [Suc k ..< n]"
      by (rule Suc.hyps(1) [rotated])
    then show ?thesis by simp
  qed
qed

lemma clipEnumX11Formats_next:
  "f < MAX_CLIP_X11_FORMATS \<Longrightarrow>
   clipEnumX11Formats m f = clipEnumX11Formats_from m (Suc f)"
  by (simp add: clipEnumX11Formats_def MAX_CLIP_X11_FORMATS_def g_aFormats_def)

lemma clipCreateX11Targets_loop_eq:
  "f < MAX_CLIP_X11_FORMATS \<Longrightarrow>
   clipCreateX11Targets_loop w m f acc =
     acc @ map (clipAtomForX11Format w)
             (filter (\<lambda>k. m AND clipVBoxFormatForX11Format k \<noteq> 0) [Suc f ..< MAX_CLIP_X11_FORMATS])"
proof (induction w m f acc rule: clipCreateX11Targets_loop.induct)
  case (1 w m f acc)
  let ?P = "\<lambda>k. m AND clipVBoxFormatForX11Format k \<noteq> 0"
  note nxt = clipEnumX11Formats_next [OF "1.prems"]
  show ?case
  proof (cases "filter ?P [Suc f ..< MAX_CLIP_X11_FORMATS]")
    case Nil
    then have "clipEnumX11Formats m f = NIL_CLIPX11FORMAT"
      by (simp add: nxt clipEnumX11Formats_from_filter)
    with Nil show ?thesis
      by (subst clipCreateX11Targets_loop.simps) simp
  next
    case (Cons k rest)
    then have x: "clipEnumX11Formats m f = k"
      by (simp add: nxt clipEnumX11Formats_from_filter)
    from filter_upt_Cons [OF Cons] have k: "Suc f \<le> k" and rest: "rest = filter ?P [Suc k ..< MAX_CLIP_X11_FORMATS]"
      by simp_all
    from k have nz: "k \<noteq> NIL_CLIPX11FORMAT"
      by (simp add: NIL_CLIPX11FORMAT_def)
    have "k \<in> set (filter ?P [Suc f ..< MAX_CLIP_X11_FORMATS])"
      by (simp add: Cons)
    then have lt: "k < MAX_CLIP_X11_FORMATS"
      by simp
    have "clipCreateX11Targets_loop w m f acc
            = clipCreateX11Targets_loop w m k (acc @ [clipAtomForX11Format w k])"
      by (subst clipCreateX11Targets_loop.simps) (simp add: x nz)
    also have "\<dots> = (acc @ [clipAtomForX11Format w k]) @ map (clipAtomForX11Format w) (filter ?P [Suc k ..< MAX_CLIP_X11_FORMATS])"
      using "1.IH" [of k] x nz lt by simp
    finally show ?thesis
      by (simp add: Cons rest)
  qed
qed

lemma entry0_never_matches:
  "filter (\<lambda>k. m AND clipVBoxFormatForX11Format k \<noteq> 0) [0 ..< MAX_CLIP_X11_FORMATS]
   = filter (\<lambda>k. m AND clipVBoxFormatForX11Format k \<noteq> 0) [Suc NIL_CLIPX11FORMAT ..< MAX_CLIP_X11_FORMATS]"
proof -
  have "[0 ..< MAX_CLIP_X11_FORMATS] = 0 # [Suc NIL_CLIPX11FORMAT ..< MAX_CLIP_X11_FORMATS]"
    by (simp add: MAX_CLIP_X11_FORMATS_def g_aFormats_def NIL_CLIPX11FORMAT_def upt_conv_Cons)
  moreover have "clipVBoxFormatForX11Format 0 = 0"
    by (simp add: clipVBoxFormatForX11Format_def g_aFormats_def)
  ultimately show ?thesis by simp
qed

text \<open>
  Claim C8. For every host format mask in the context, the reply to a TARGETS request
  holds the atoms of exactly the table entries whose host format mask intersects that
  mask, in table order, followed by TARGETS, MULTIPLE and TIMESTAMP; its type is ATOM,
  its format 32 and its length the number of these atoms.
\<close>

theorem clipCreateX11Targets_reply:
  "clipCreateX11Targets pCtx =
     (VINF_SUCCESS,
      \<lparr>atomTypeReturn = XA_ATOM,
       pValReturn = AtomArray
         (map (\<lambda>k. Interned (pcszAtom (g_aFormats ! k)))
              (filter (\<lambda>k. vboxFormats pCtx AND u32VBoxFormat (g_aFormats ! k) \<noteq> 0)
                      [0 ..< length g_aFormats])
          @ [Interned ''TARGETS'', Interned ''MULTIPLE'', Interned ''TIMESTAMP'']),
       pcLenReturn =
         length (filter (\<lambda>k. vboxFormats pCtx AND u32VBoxFormat (g_aFormats ! k) \<noteq> 0)
                        [0 ..< length g_aFormats]) + 3,
       piFormatReturn = 32\<rparr>)"
proof -
  have first: "NIL_CLIPX11FORMAT < MAX_CLIP_X11_FORMATS"
    by (simp add: NIL_CLIPX11FORMAT_def MAX_CLIP_X11_FORMATS_def g_aFormats_def)
  have atoms: "clipAtomForX11Format (widget pCtx) = (\<lambda>k. Interned (pcszAtom (g_aFormats ! k)))"
    by (simp add: clipAtomForX11Format_def clipGetAtom_def fun_eq_iff)
  show ?thesis
    using entry0_never_matches [of "vboxFormats pCtx"]
    by (simp add: clipCreateX11Targets_def clipCreateX11Targets_loop_eq [OF first] atoms
          clipGetAtom_def Let_def clipVBoxFormatForX11Format_def MAX_CLIP_X11_FORMATS_def)
qed

lemma table_indices: "[0 ..< length g_aFormats] = [0, 1, 2, 3, 4, 5, 6, 7]"
  by (simp add: g_aFormats_def upt_conv_Cons)

theorem clipCreateX11Targets_reply_witness:
  "clipCreateX11Targets
     \<lparr>pFrontend = 7, fHaveX11 = True, appContext = 100, thread = 0, widget = 104,
      fGrabClipboardOnStart = False, X11TextFormat = 0, X11BitmapFormat = 0,
      vboxFormats = VBOX_SHARED_CLIPBOARD_FMT_UNICODETEXT, pvUnicodeCache = None,
      wakeupPipeWrite = 6, wakeupPipeRead = 5, fixesSelectInput = 103, fixesEventBase = 87,
      fBusy = False, fUpdateNeeded = False\<rparr>
   = (VINF_SUCCESS,
      \<lparr>atomTypeReturn = Interned ''ATOM'',
       pValReturn = AtomArray
         [Interned ''UTF8_STRING'', Interned ''text/plain;charset=UTF-8'',
          Interned ''text/plain;charset=utf-8'', Interned ''STRING'', Interned ''TEXT'',
          Interned ''text/plain'', Interned ''COMPOUND_TEXT'', Interned ''TARGETS'',
          Interned ''MULTIPLE'', Interned ''TIMESTAMP''],
       pcLenReturn = 10, piFormatReturn = 32\<rparr>)
   \<and> clipCreateX11Targets
     \<lparr>pFrontend = 7, fHaveX11 = True, appContext = 100, thread = 0, widget = 104,
      fGrabClipboardOnStart = False, X11TextFormat = 0, X11BitmapFormat = 0,
      vboxFormats = 0, pvUnicodeCache = None,
      wakeupPipeWrite = 6, wakeupPipeRead = 5, fixesSelectInput = 103, fixesEventBase = 87,
      fBusy = False, fUpdateNeeded = False\<rparr>
   = (VINF_SUCCESS,
      \<lparr>atomTypeReturn = Interned ''ATOM'',
       pValReturn = AtomArray
         [Interned ''TARGETS'', Interned ''MULTIPLE'', Interned ''TIMESTAMP''],
       pcLenReturn = 3, piFormatReturn = 32\<rparr>)"
  using clipCreateX11Targets_reply
          [of "\<lparr>pFrontend = 7, fHaveX11 = True, appContext = 100, thread = 0, widget = 104,
      fGrabClipboardOnStart = False, X11TextFormat = 0, X11BitmapFormat = 0,
      vboxFormats = VBOX_SHARED_CLIPBOARD_FMT_UNICODETEXT, pvUnicodeCache = None,
      wakeupPipeWrite = 6, wakeupPipeRead = 5, fixesSelectInput = 103, fixesEventBase = 87,
      fBusy = False, fUpdateNeeded = False\<rparr>"]
        clipCreateX11Targets_reply
          [of "\<lparr>pFrontend = 7, fHaveX11 = True, appContext = 100, thread = 0, widget = 104,
      fGrabClipboardOnStart = False, X11TextFormat = 0, X11BitmapFormat = 0,
      vboxFormats = 0, pvUnicodeCache = None,
      wakeupPipeWrite = 6, wakeupPipeRead = 5, fixesSelectInput = 103, fixesEventBase = 87,
      fBusy = False, fUpdateNeeded = False\<rparr>"]
  unfolding table_indices
  by (simp add: g_aFormats_def XA_ATOM_def VBOX_SHARED_CLIPBOARD_FMT_UNICODETEXT_def)


subsection \<open>The requester: busy flag, replies and completions\<close>

lemma started_ctx_eq:
  "started_ctx = \<lparr>pFrontend = 7, fHaveX11 = True, appContext = 100, thread = 0, widget = 104,
                  fGrabClipboardOnStart = False, X11TextFormat = 0, X11BitmapFormat = 0,
                  vboxFormats = 0, pvUnicodeCache = None, wakeupPipeWrite = 6,
                  wakeupPipeRead = 5, fixesSelectInput = 103, fixesEventBase = 87,
                  fBusy = False, fUpdateNeeded = False\<rparr>"
  by (simp add: started_ctx_def ClipStartX11_def ClipConstructX11_def clipInit_def
        clipLoadXFixes_def env_ok_def RT_SUCCESS_def RT_FAILURE_def clipResetX11Formats_def Let_def)

text \<open>
  Claim C5. When the work item of a host data request runs while the busy flag is set,
  the request is completed through ClipCompleteDataRequestFromX11 with VERR_TRY_AGAIN and
  without data, nothing is queued (the work item leaves the timers and no other enters),
  and the context, the outstanding selection request and the selections owned are as
  before.
\<close>

theorem vboxClipboardReadX11Worker_try_again:
  assumes "fBusy (ctx s)" and "xt_timers s = W_vboxClipboardReadX11Worker pReq # rest"
  shows "vboxClipboardReadX11Worker (ctx s) pReq =
           (ctx s, [ClipCompleteDataRequestFromX11 (pFrontend (ctx s)) VERR_TRY_AGAIN (mReq pReq) None 0])
         \<and> step h fCharSigned s (Ev_timer own own') =
           Some (s\<lparr>xt_timers := rest,
                   calls := calls s @ [ClipCompleteDataRequestFromX11 (pFrontend (ctx s))
                                         VERR_TRY_AGAIN (mReq pReq) None 0]\<rparr>)"
proof -
  have w: "vboxClipboardReadX11Worker (ctx s) pReq =
           (ctx s, [ClipCompleteDataRequestFromX11 (pFrontend (ctx s)) VERR_TRY_AGAIN (mReq pReq) None 0])"
    using assms(1) by (simp add: vboxClipboardReadX11Worker_def RT_FAILURE_def)
  show ?thesis
    using assms(2) by (simp add: w deliver_def)
qed


theorem vboxClipboardReadX11Worker_try_again_witness:
  "fBusy (ctx \<lparr>ctx = started_ctx\<lparr>fBusy := True\<rparr>,
               xt_timers = [W_vboxClipboardReadX11Worker \<lparr>mFormat = 1, mTextFormat = 0, mReq = 42\<rparr>],
               xt_requests = [CB_clipConvertX11Targets], xt_owned = {}, calls = []\<rparr>)
   \<and> step no_helpers True
         \<lparr>ctx = started_ctx\<lparr>fBusy := True\<rparr>,
          xt_timers = [W_vboxClipboardReadX11Worker \<lparr>mFormat = 1, mTextFormat = 0, mReq = 42\<rparr>],
          xt_requests = [CB_clipConvertX11Targets], xt_owned = {}, calls = []\<rparr>
         (Ev_timer True True)
       = Some \<lparr>ctx = started_ctx\<lparr>fBusy := True\<rparr>, xt_timers = [],
                xt_requests = [CB_clipConvertX11Targets], xt_owned = {},
                calls = [ClipCompleteDataRequestFromX11 7 VERR_TRY_AGAIN 42 None 0]\<rparr>"
  using vboxClipboardReadX11Worker_try_again
    [of "\<lparr>ctx = started_ctx\<lparr>fBusy := True\<rparr>,
          xt_timers = [W_vboxClipboardReadX11Worker \<lparr>mFormat = 1, mTextFormat = 0, mReq = 42\<rparr>],
          xt_requests = [CB_clipConvertX11Targets], xt_owned = {}, calls = []\<rparr>"
        "\<lparr>mFormat = 1, mTextFormat = 0, mReq = 42\<rparr>" "[]" no_helpers True True True]
  by (simp add: started_ctx_eq deliver_def)

text \<open>
  Claim C4 fails on the code. On a started context that is not busy, a host data
  request for Unicode text with no text target stored, or for a format other than
  Unicode text, is completed at once (VERR_NO_DATA, VERR_NOT_IMPLEMENTED) without a
  selection request to Xt, and the busy flag stays set although no transfer is
  outstanding; the next request is then fended off with VERR_TRY_AGAIN.
\<close>

theorem busy_stays_set_after_immediate_completion:
  "run h fCharSigned (clipEventThread_begin started_ctx)
       [Ev_ClipRequestDataFromX11 VBOX_SHARED_CLIPBOARD_FMT_UNICODETEXT 42, Ev_timer own own']
     = Some \<lparr>ctx = started_ctx\<lparr>fBusy := True\<rparr>, xt_timers = [], xt_requests = [],
              xt_owned = {},
              calls = [XtAppAddTimeOut 100
                         (W_vboxClipboardReadX11Worker
                            \<lparr>mFormat = VBOX_SHARED_CLIPBOARD_FMT_UNICODETEXT, mTextFormat = 0,
                             mReq = 42\<rparr>),
                       write_wakeup 6,
                       ClipCompleteDataRequestFromX11 7 VERR_NO_DATA 42 None 0]\<rparr>
   \<and> run h fCharSigned (clipEventThread_begin started_ctx)
       [Ev_ClipRequestDataFromX11 0xffff 42, Ev_timer own own']
     = Some \<lparr>ctx = started_ctx\<lparr>fBusy := True\<rparr>, xt_timers = [], xt_requests = [],
              xt_owned = {},
              calls = [XtAppAddTimeOut 100
                         (W_vboxClipboardReadX11Worker
                            \<lparr>mFormat = 0xffff, mTextFormat = 0, mReq = 42\<rparr>),
                       write_wakeup 6,
                       ClipCompleteDataRequestFromX11 7 VERR_NOT_IMPLEMENTED 42 None 0]\<rparr>"
  by (simp add: clipEventThread_begin_def started_ctx_eq deliver_def ClipRequestDataFromX11_def
        clipQueueToEventThread_def vboxClipboardReadX11Worker_def RT_FAILURE_def
        VBOX_SHARED_CLIPBOARD_FMT_UNICODETEXT_def)

text \<open>
  Claim C10, as amended. On a TARGETS reply with the update flag clear the busy flag is
  cleared, the text format becomes the best text target of the reply's atoms (none when
  the reply is a timeout or has no value) and its host format mask is reported to the
  frontend. With the update flag set the reply is dropped: the flag is cleared, the text
  format is left as it is, nothing is reported, and the TARGETS request is made again
  with the busy flag set.
\<close>

theorem clipConvertX11Targets_reply:
  "clipConvertX11Targets pCtx atomType pValue =
     (if fUpdateNeeded pCtx
      then (pCtx\<lparr>fBusy := True, fUpdateNeeded := False\<rparr>,
            [XtGetSelectionValue (widget pCtx) (Interned ''CLIPBOARD'') (Interned ''TARGETS'')
               CB_clipConvertX11Targets])
      else (case (if atomType = XT_CONVERT_FAIL then None else pValue) of
              None \<Rightarrow>
                (pCtx\<lparr>fBusy := False, X11TextFormat := 0, X11BitmapFormat := 0\<rparr>,
                 [ClipReportX11Formats (pFrontend pCtx) 0])
            | Some pTargets \<Rightarrow>
                (pCtx\<lparr>fBusy := False,
                       X11TextFormat := clipGetTextFormatFromTargets (widget pCtx) pTargets,
                       X11BitmapFormat := 0\<rparr>,
                 [ClipReportX11Formats (pFrontend pCtx)
                    (clipVBoxFormatForX11Format
                       (clipGetTextFormatFromTargets (widget pCtx) pTargets))])))"
  by (auto simp: clipConvertX11Targets_def clipQueryX11CBFormats_def clipReportEmptyX11CB_def
        clipUpdateX11Targets_def clipGetFormatsFromTargets_def clipResetX11Formats_def
        clipReportFormatsToVBox_def clipGetAtom_def clipVBoxFormatForX11Format_def g_aFormats_def
        Let_def split: option.splits)

lemma atom_of_entry1: "pcszAtom (g_aFormats ! Suc 0) = ''UTF8_STRING''"
  by (simp add: g_aFormats_def)

lemma best_of_utf8_string:
  "clipGetTextFormatFromTargets w [Interned ''UTF8_STRING''] = 1"
  by (simp add: clipGetTextFormatFromTargets_def table_lookups table_entries
        NIL_CLIPX11FORMAT_def VBOX_SHARED_CLIPBOARD_FMT_UNICODETEXT_def)

theorem clipConvertX11Targets_reply_witness:
  "clipConvertX11Targets (started_ctx\<lparr>fBusy := True\<rparr>) XA_ATOM (Some [Interned ''UTF8_STRING''])
     = (started_ctx\<lparr>X11TextFormat := 1\<rparr>, [ClipReportX11Formats 7 1])
   \<and> clipConvertX11Targets (started_ctx\<lparr>fBusy := True, X11TextFormat := 1\<rparr>) XT_CONVERT_FAIL
         (Some [Interned ''UTF8_STRING''])
     = (started_ctx, [ClipReportX11Formats 7 0])
   \<and> clipConvertX11Targets (started_ctx\<lparr>fBusy := True, fUpdateNeeded := True\<rparr>) XA_ATOM
         (Some [Interned ''UTF8_STRING''])
     = (started_ctx\<lparr>fBusy := True\<rparr>,
        [XtGetSelectionValue 104 (Interned ''CLIPBOARD'') (Interned ''TARGETS'')
           CB_clipConvertX11Targets])"
  using clipConvertX11Targets_reply
          [of "started_ctx\<lparr>fBusy := True\<rparr>" XA_ATOM "Some [Interned ''UTF8_STRING'']"]
        clipConvertX11Targets_reply
          [of "started_ctx\<lparr>fBusy := True, X11TextFormat := 1\<rparr>" XT_CONVERT_FAIL
              "Some [Interned ''UTF8_STRING'']"]
        clipConvertX11Targets_reply
          [of "started_ctx\<lparr>fBusy := True, fUpdateNeeded := True\<rparr>" XA_ATOM
              "Some [Interned ''UTF8_STRING'']"]
  by (simp add: started_ctx_eq XA_ATOM_def best_of_utf8_string table_entries)

text \<open>
  Claim C10 as the specification states it fails: a TARGETS reply that arrives while the
  update flag is set neither updates the text format nor notifies the frontend, and the
  context is busy again afterwards.
\<close>

theorem clipConvertX11Targets_reply_counterexample:
  "run no_helpers True (clipEventThread_begin started_ctx)
     [Ev_peek (Some \<lparr>ev_type = 87, ev_subtype = 0, ev_owner = 9\<rparr>) 55,
      Ev_peek (Some \<lparr>ev_type = 87, ev_subtype = 0, ev_owner = 9\<rparr>) 55,
      Ev_targets_reply XA_ATOM (Some [Interned ''UTF8_STRING''])]
   = Some \<lparr>ctx = started_ctx\<lparr>fBusy := True\<rparr>, xt_timers = [],
            xt_requests = [CB_clipConvertX11Targets], xt_owned = {},
            calls = [XtGetSelectionValue 104 (Interned ''CLIPBOARD'') (Interned ''TARGETS'')
                       CB_clipConvertX11Targets,
                     XtGetSelectionValue 104 (Interned ''CLIPBOARD'') (Interned ''TARGETS'')
                       CB_clipConvertX11Targets]\<rparr>"
  by (simp add: clipEventThread_begin_def started_ctx_eq deliver_def
        clipPeekEventAndDoXFixesHandling_def clipQueryX11CBFormats_def clipConvertX11Targets_def
        clipGetAtom_def)

text \<open>
  What clipConvertX11CB completes a request with, by the reply: the test for a NULL value
  comes before the test for XT_CONVERT_FAIL, so that the type of the reply is looked at
  only when the value is not NULL.
\<close>

lemma clipConvertX11CB_reply_status:
  "clipConvertX11CB h fCharSigned pCtx pReq XT_CONVERT_FAIL (Some src) pcLen piFormat =
     Some (pCtx\<lparr>fBusy := fUpdateNeeded pCtx\<rparr>,
           (if fUpdateNeeded pCtx
            then [XtGetSelectionValue (widget pCtx) (Interned ''CLIPBOARD'')
                    (Interned ''TARGETS'') CB_clipConvertX11Targets]
            else [])
           @ [ClipCompleteDataRequestFromX11 (pFrontend pCtx) VERR_TIMEOUT (mReq pReq) None 0])
   \<and> clipConvertX11CB h fCharSigned pCtx pReq atomType None pcLen piFormat =
     Some (pCtx\<lparr>fBusy := fUpdateNeeded pCtx\<rparr>,
           (if fUpdateNeeded pCtx
            then [XtGetSelectionValue (widget pCtx) (Interned ''CLIPBOARD'')
                    (Interned ''TARGETS'') CB_clipConvertX11Targets]
            else [])
           @ [ClipCompleteDataRequestFromX11 (pFrontend pCtx) VERR_NO_DATA (mReq pReq) None 0])"
  by (simp add: clipConvertX11CB_def clipQueryX11CBFormats_def clipGetAtom_def Let_def)

text \<open>
  Claim C2 fails on the code. A started context learns that X11 offers UTF8_STRING, the
  host requests Unicode text, and the selection request made to Xt is answered with the
  type XT_CONVERT_FAIL. When the reply carries no value (NULL, length 0, format 0), the
  request is completed with VERR_NO_DATA and not with VERR_TIMEOUT; only when the reply
  carries a value, as the one of the test "X11 timeout" does, is it completed with
  VERR_TIMEOUT.
\<close>

theorem clipConvertX11CB_timeout_lost:
  "run h fCharSigned (clipEventThread_begin started_ctx)
     [Ev_peek (Some \<lparr>ev_type = 87, ev_subtype = 0, ev_owner = 9\<rparr>) 55,
      Ev_targets_reply XA_ATOM (Some [Interned ''UTF8_STRING'']),
      Ev_ClipRequestDataFromX11 VBOX_SHARED_CLIPBOARD_FMT_UNICODETEXT 42,
      Ev_timer own own',
      Ev_data_reply XT_CONVERT_FAIL None 0 0]
   = Some \<lparr>ctx = started_ctx\<lparr>X11TextFormat := 1\<rparr>, xt_timers = [], xt_requests = [],
            xt_owned = {},
            calls = [XtGetSelectionValue 104 (Interned ''CLIPBOARD'') (Interned ''TARGETS'')
                       CB_clipConvertX11Targets,
                     ClipReportX11Formats 7 1,
                     XtAppAddTimeOut 100
                       (W_vboxClipboardReadX11Worker
                          \<lparr>mFormat = VBOX_SHARED_CLIPBOARD_FMT_UNICODETEXT, mTextFormat = 0,
                           mReq = 42\<rparr>),
                     write_wakeup 6,
                     XtGetSelectionValue 104 (Interned ''CLIPBOARD'') (Interned ''UTF8_STRING'')
                       (CB_clipConvertX11CB
                          \<lparr>mFormat = VBOX_SHARED_CLIPBOARD_FMT_UNICODETEXT, mTextFormat = 1,
                           mReq = 42\<rparr>),
                     ClipCompleteDataRequestFromX11 7 VERR_NO_DATA 42 None 0]\<rparr>
   \<and> run h fCharSigned (clipEventThread_begin started_ctx)
     [Ev_peek (Some \<lparr>ev_type = 87, ev_subtype = 0, ev_owner = 9\<rparr>) 55,
      Ev_targets_reply XA_ATOM (Some [Interned ''UTF8_STRING'']),
      Ev_ClipRequestDataFromX11 VBOX_SHARED_CLIPBOARD_FMT_UNICODETEXT 42,
      Ev_timer own own',
      Ev_data_reply XT_CONVERT_FAIL
        (Some [0x68, 0x65, 0x6C, 0x6C, 0x6F, 0x20, 0x77, 0x6F, 0x72, 0x6C, 0x64, 0]) 12 8]
   = Some \<lparr>ctx = started_ctx\<lparr>X11TextFormat := 1\<rparr>, xt_timers = [], xt_requests = [],
            xt_owned = {},
            calls = [XtGetSelectionValue 104 (Interned ''CLIPBOARD'') (Interned ''TARGETS'')
                       CB_clipConvertX11Targets,
                     ClipReportX11Formats 7 1,
                     XtAppAddTimeOut 100
                       (W_vboxClipboardReadX11Worker
                          \<lparr>mFormat = VBOX_SHARED_CLIPBOARD_FMT_UNICODETEXT, mTextFormat = 0,
                           mReq = 42\<rparr>),
                     write_wakeup 6,
                     XtGetSelectionValue 104 (Interned ''CLIPBOARD'') (Interned ''UTF8_STRING'')
                       (CB_clipConvertX11CB
                          \<lparr>mFormat = VBOX_SHARED_CLIPBOARD_FMT_UNICODETEXT, mTextFormat = 1,
                           mReq = 42\<rparr>),
                     ClipCompleteDataRequestFromX11 7 VERR_TIMEOUT 42 None 0]\<rparr>"
  by (simp add: clipEventThread_begin_def started_ctx_eq deliver_def
        clipPeekEventAndDoXFixesHandling_def clipQueryX11CBFormats_def clipConvertX11Targets_def
        clipGetAtom_def ClipRequestDataFromX11_def clipQueueToEventThread_def
        vboxClipboardReadX11Worker_def RT_FAILURE_def clipConvertX11CB_def
        clipUpdateX11Targets_def clipGetFormatsFromTargets_def clipReportFormatsToVBox_def
        best_of_utf8_string table_entries clipAtomForX11Format_def atom_of_entry1 XA_ATOM_def
        Let_def VBOX_SHARED_CLIPBOARD_FMT_UNICODETEXT_def)

lemma headless_call:
  "\<not> fHaveX11 pCtx \<Longrightarrow> bridge_call env pCtx op = (headless_status op, pCtx, [])"
  by (cases op)
     (simp_all add: ClipStartX11_def ClipStopX11_def ClipAnnounceFormatToX11_def
        ClipRequestDataFromX11_def)

lemma headless_calls:
  "\<not> fHaveX11 pCtx \<Longrightarrow> bridge_calls env pCtx ops = (map headless_status ops, pCtx, [])"
  by (induction ops) (simp_all add: headless_call)

text \<open>
  Claim C9. A context constructed headless has no X11, and whatever sequence of public
  functions is called on it, start and stop return VINF_SUCCESS, the announcement
  returns, a data request returns VERR_NO_DATA at once, the context does not change and
  no call leaves the module: no selection is grabbed and nothing is queued.
\<close>

theorem headless_bridge_is_inert:
  "\<not> fHaveX11 (ClipConstructX11 pFrontend' True)
   \<and> bridge_calls env (ClipConstructX11 pFrontend' True) ops
       = (map headless_status ops, ClipConstructX11 pFrontend' True, [])"
  using headless_calls [of "ClipConstructX11 pFrontend' True" env ops]
  by (simp add: ClipConstructX11_def)

subsection \<open>The empty announcement\<close>

lemma clipConvertX11CB_shape:
  assumes "clipConvertX11CB h sg pCtx pReq ty v n f = Some (pCtx', cs)"
  shows "vboxFormats pCtx' = vboxFormats pCtx \<and> filter is_host_read cs = []
         \<and> (\<forall>c\<in>set cs. \<forall>app w. c \<noteq> XtAppAddTimeOut app w)"
  using assms
  by (auto simp: clipConvertX11CB_def clipQueryX11CBFormats_def Let_def
           split: option.splits prod.splits if_splits)

lemma clipXtConvertSelectionProc_quiet:
  assumes "vboxFormats pCtx AND VBOX_SHARED_CLIPBOARD_FMT_UNICODETEXT = 0"
    and "clipXtConvertSelectionProc h found pCtx sel tgt fe = Some (ok, pCtx', reply, cs)"
  shows "pCtx' = pCtx \<and> cs = []"
  using assms
  by (auto simp: clipXtConvertSelectionProc_def clipConvertVBoxCBForX11_def Let_def
           split: if_splits prod.splits)

lemma fold_xt_effect_timers:
  "\<forall>c\<in>set cs. \<forall>app w. c \<noteq> XtAppAddTimeOut app w \<Longrightarrow>
     xt_timers (fold xt_effect cs s) = xt_timers s"
proof (induction cs arbitrary: s)
  case Nil
  show ?case by simp
next
  case (Cons c cs)
  then have "xt_timers (xt_effect c s) = xt_timers s"
    by (cases c) auto
  with Cons show ?case by simp
qed

lemma fold_xt_effect_ctx: "ctx (fold xt_effect cs s) = ctx s"
proof (induction cs arbitrary: s)
  case Nil
  show ?case by simp
next
  case (Cons c cs)
  have "ctx (xt_effect c s) = ctx s"
    by (cases c) auto
  with Cons show ?case by simp
qed

lemma deliver_simps:
  "ctx (deliver s r) = fst r"
  "calls (deliver s r) = calls s @ snd r"
  "\<forall>c\<in>set (snd r). \<forall>app w. c \<noteq> XtAppAddTimeOut app w \<Longrightarrow>
     xt_timers (deliver s r) = xt_timers s"
  by (simp_all add: deliver_def fold_xt_effect_ctx fold_xt_effect_timers)

lemma deliver_harmless:
  assumes "harmless (ctx s) r" and "quiet s"
  shows "quiet (deliver s r) \<and> filter is_host_read (calls (deliver s r)) = filter is_host_read (calls s)"
  using assms by (simp add: harmless_def quiet_def deliver_simps)

lemma deliver_harmless_popped:
  assumes "harmless (ctx s) r" and "quiet s"
  shows "quiet (deliver (s\<lparr>xt_requests := rest\<rparr>) r)
         \<and> filter is_host_read (calls (deliver (s\<lparr>xt_requests := rest\<rparr>) r))
             = filter is_host_read (calls s)"
  using assms by (simp add: harmless_def quiet_def deliver_simps)

lemma deliver_harmless_timer:
  assumes "harmless (ctx s) r" and "quiet s" and "xt_timers s = w # rest"
  shows "quiet (deliver (s\<lparr>xt_timers := rest\<rparr>) r)
         \<and> filter is_host_read (calls (deliver (s\<lparr>xt_timers := rest\<rparr>) r))
             = filter is_host_read (calls s)"
  using assms by (simp add: harmless_def quiet_def deliver_simps)

lemma clipQueryX11CBFormats_harmless: "harmless pCtx (clipQueryX11CBFormats pCtx)"
  by (simp add: harmless_def clipQueryX11CBFormats_def)

lemma clipReportEmptyX11CB_harmless: "harmless pCtx (clipReportEmptyX11CB pCtx)"
  by (simp add: harmless_def clipReportEmptyX11CB_def clipResetX11Formats_def
        clipReportFormatsToVBox_def Let_def)

lemma clipUpdateX11Targets_harmless: "harmless pCtx (clipUpdateX11Targets pCtx ts)"
  by (simp add: harmless_def clipUpdateX11Targets_def clipGetFormatsFromTargets_def
        clipReportFormatsToVBox_def Let_def)

lemma harmless_after_flags:
  "harmless (pCtx\<lparr>fBusy := b\<rparr>) r \<Longrightarrow> harmless pCtx r"
  "harmless (pCtx\<lparr>fBusy := b, fUpdateNeeded := u\<rparr>) r \<Longrightarrow> harmless pCtx r"
  by (simp_all add: harmless_def)

lemma clipConvertX11Targets_harmless: "harmless pCtx (clipConvertX11Targets pCtx ty v)"
  unfolding clipConvertX11Targets_def Let_def
  by (auto intro: harmless_after_flags clipQueryX11CBFormats_harmless
        clipReportEmptyX11CB_harmless clipUpdateX11Targets_harmless split: option.splits)

lemma harmless_nothing: "harmless pCtx (pCtx, [])"
  by (simp add: harmless_def)

lemma clipPeek_harmless: "harmless pCtx (clipPeekEventAndDoXFixesHandling pCtx peeked window)"
  unfolding clipPeekEventAndDoXFixesHandling_def
  by (cases peeked)
     (simp_all add: harmless_nothing clipQueryX11CBFormats_harmless clipReportEmptyX11CB_harmless)

lemma vboxClipboardReadX11Worker_harmless: "harmless pCtx (vboxClipboardReadX11Worker pCtx pReq)"
  by (simp add: harmless_def vboxClipboardReadX11Worker_def RT_FAILURE_def Let_def)

lemma clipStopEventThreadWorker_harmless: "harmless pCtx (clipStopEventThreadWorker pCtx)"
  by (simp add: harmless_def clipStopEventThreadWorker_def)

lemma clipNewVBoxFormatsWorker_shape:
  "vboxFormats (fst (clipNewVBoxFormatsWorker pCtx m own own')) = (if own then m else vboxFormats pCtx)
   \<and> filter is_host_read (snd (clipNewVBoxFormatsWorker pCtx m own own')) = []
   \<and> (\<forall>c\<in>set (snd (clipNewVBoxFormatsWorker pCtx m own own')). \<forall>app w. c \<noteq> XtAppAddTimeOut app w)"
  by (simp add: clipNewVBoxFormatsWorker_def clipGrabX11CB_def clipInvalidateVBoxCBCache_def
        clipResetX11Formats_def Let_def)

lemma clipConvertX11CB_harmless:
  assumes "clipConvertX11CB h sg pCtx pReq ty v n f = Some r"
  shows "harmless pCtx r"
  using clipConvertX11CB_shape [of h sg pCtx pReq ty v n f "fst r" "snd r"] assms
  by (simp add: harmless_def)

lemma run_work_quiet:
  assumes "quiet s" and "xt_timers s = w # rest"
  shows "quiet (deliver (s\<lparr>xt_timers := rest\<rparr>) (run_work (ctx s) w own own'))
         \<and> filter is_host_read (calls (deliver (s\<lparr>xt_timers := rest\<rparr>) (run_work (ctx s) w own own')))
             = filter is_host_read (calls s)"
proof (cases w)
  case (W_clipNewVBoxFormatsWorker m)
  with assms have m: "m = 0" by (simp add: quiet_def)
  show ?thesis
    using assms clipNewVBoxFormatsWorker_shape [of "ctx s" 0 own own']
    by (simp add: W_clipNewVBoxFormatsWorker m quiet_def deliver_simps)
next
  case (W_vboxClipboardReadX11Worker pReq)
  then show ?thesis
    using deliver_harmless_timer [OF vboxClipboardReadX11Worker_harmless assms] by simp
next
  case W_clipStopEventThreadWorker
  then show ?thesis
    using deliver_harmless_timer [OF clipStopEventThreadWorker_harmless assms] by simp
qed

lemma queue_quiet:
  assumes "quiet s" and "announces_nothing w"
  shows "quiet (deliver s (ctx s, clipQueueToEventThread (ctx s) w))
         \<and> filter is_host_read (calls (deliver s (ctx s, clipQueueToEventThread (ctx s) w)))
             = filter is_host_read (calls s)"
  using assms by (simp add: quiet_def deliver_def clipQueueToEventThread_def)

lemma deliver_nothing: "deliver s (ctx s, []) = s"
  by (simp add: deliver_def)

lemma step_quiet:
  assumes "quiet s" and "announces_nothing_ev e" and "step h sg s e = Some s'"
  shows "quiet s' \<and> filter is_host_read (calls s') = filter is_host_read (calls s)"
proof (cases e)
  case (Ev_ClipAnnounceFormatToX11 m)
  with assms show ?thesis
    using queue_quiet [OF assms(1), of "W_clipNewVBoxFormatsWorker 0"]
    by (cases "fHaveX11 (ctx s)") (auto simp: ClipAnnounceFormatToX11_def deliver_nothing)
next
  case (Ev_ClipRequestDataFromX11 f r)
  with assms show ?thesis
    using queue_quiet [OF assms(1),
            of "W_vboxClipboardReadX11Worker \<lparr>mFormat = f, mTextFormat = 0, mReq = r\<rparr>"]
    by (cases "fHaveX11 (ctx s)") (auto simp: ClipRequestDataFromX11_def deliver_nothing)
next
  case (Ev_timer own own')
  show ?thesis
  proof (cases "xt_timers s")
    case Nil
    with assms Ev_timer show ?thesis by simp
  next
    case (Cons w rest)
    with assms Ev_timer run_work_quiet [OF assms(1) Cons, of own own'] show ?thesis
      by simp
  qed
next
  case (Ev_peek peeked window)
  define t where "t = (if (case peeked of None \<Rightarrow> False
                | Some e \<Rightarrow> ev_type e = fixesEventBase (ctx s) \<and> ev_owner e \<noteq> window)
            then s\<lparr>xt_owned := xt_owned s - {clipGetAtom (widget (ctx s)) ''CLIPBOARD''}\<rparr>
            else s)"
  have q: "quiet t" and c: "calls t = calls s"
    using assms(1) by (simp_all add: quiet_def t_def)
  from assms(3) [unfolded Ev_peek step.simps Let_def, folded t_def]
  have s': "s' = deliver t (clipPeekEventAndDoXFixesHandling (ctx t) peeked window)"
    by (simp only: option.inject)
  have "harmless (ctx t) (clipPeekEventAndDoXFixesHandling (ctx t) peeked window)"
    by (rule clipPeek_harmless)
  from deliver_harmless [OF this q] show ?thesis
    unfolding s' c by simp
next
  case (Ev_targets_reply ty v)
  show ?thesis
  proof (cases "xt_requests s")
    case Nil
    with assms Ev_targets_reply show ?thesis by simp
  next
    case (Cons cb rest)
    show ?thesis
    proof (cases cb)
      case CB_clipConvertX11Targets
      with assms Ev_targets_reply Cons
      have s': "s' = deliver (s\<lparr>xt_requests := rest\<rparr>) (clipConvertX11Targets (ctx s) ty v)"
        by simp
      from deliver_harmless_popped [OF clipConvertX11Targets_harmless assms(1)] show ?thesis
        unfolding s' by simp
    next
      case (CB_clipConvertX11CB pReq)
      with assms Ev_targets_reply Cons show ?thesis by simp
    qed
  qed
next
  case (Ev_data_reply ty v n f)
  show ?thesis
  proof (cases "xt_requests s")
    case Nil
    with assms Ev_data_reply show ?thesis by simp
  next
    case (Cons cb rest)
    show ?thesis
    proof (cases cb)
      case CB_clipConvertX11Targets
      with assms Ev_data_reply Cons show ?thesis by simp
    next
      case (CB_clipConvertX11CB pReq)
      with assms Ev_data_reply Cons obtain r
        where r: "clipConvertX11CB h sg (ctx s) pReq ty v n f = Some r"
          and s': "s' = deliver (s\<lparr>xt_requests := rest\<rparr>) r"
        by (auto split: option.splits)
      from deliver_harmless_popped [OF clipConvertX11CB_harmless [OF r] assms(1)] show ?thesis
        unfolding s' by simp
    qed
  qed
next
  case (Ev_convert_selection found sel tgt fe)
  with assms obtain ok pCtx' reply cs
    where r: "clipXtConvertSelectionProc h found (ctx s) sel tgt fe = Some (ok, pCtx', reply, cs)"
      and s': "s' = deliver s (pCtx', cs)"
    by (auto split: option.splits)
  from assms(1) have "vboxFormats (ctx s) AND VBOX_SHARED_CLIPBOARD_FMT_UNICODETEXT = 0"
    by (simp add: quiet_def)
  from clipXtConvertSelectionProc_quiet [OF this r] assms(1) show ?thesis
    by (simp add: s' deliver_nothing)
qed

lemma run_quiet:
  assumes "quiet s" and "\<forall>e\<in>set es. announces_nothing_ev e" and "run h sg s es = Some s'"
  shows "quiet s' \<and> filter is_host_read (calls s') = filter is_host_read (calls s)"
  using assms
proof (induction es arbitrary: s)
  case Nil
  then show ?case by simp
next
  case (Cons e es)
  from Cons.prems(3) obtain s1 where s1: "step h sg s e = Some s1" and r: "run h sg s1 es = Some s'"
    by (auto split: option.splits)
  from step_quiet [OF Cons.prems(1) _ s1] Cons.prems(2)
  have q1: "quiet s1" and c1: "filter is_host_read (calls s1) = filter is_host_read (calls s)"
    by simp_all
  from Cons.IH [OF q1 _ r] Cons.prems(2) c1 show ?case by simp
qed

text \<open>
  Claim C1, as amended. When the work item of an announcement with the empty mask runs
  and XtOwnSelection succeeds, the widget owns CLIPBOARD and PRIMARY (the empty mask is
  grabbed like any other) and the host format mask is 0; from then on, as long as no
  announcement of a non-empty mask is made, no event makes the context call
  ClipRequestDataForX11.
\<close>

theorem empty_announcement_grabs_and_reads_nothing:
  assumes "xt_timers s = W_clipNewVBoxFormatsWorker 0 # rest"
    and "\<forall>w\<in>set rest. announces_nothing w"
    and "\<forall>e\<in>set es. announces_nothing_ev e"
    and "run h fCharSigned s (Ev_timer True own' # es) = Some s'"
  shows "(\<exists>s1. step h fCharSigned s (Ev_timer True own') = Some s1
            \<and> Interned ''CLIPBOARD'' \<in> xt_owned s1 \<and> Interned ''PRIMARY'' \<in> xt_owned s1
            \<and> vboxFormats (ctx s1) = 0)
         \<and> vboxFormats (ctx s') AND VBOX_SHARED_CLIPBOARD_FMT_UNICODETEXT = 0
         \<and> filter is_host_read (calls s') = filter is_host_read (calls s)"
proof -
  let ?s1 = "deliver (s\<lparr>xt_timers := rest\<rparr>) (clipNewVBoxFormatsWorker (ctx s) 0 True own')"
  have st: "step h fCharSigned s (Ev_timer True own') = Some ?s1"
    using assms(1) by simp
  have own: "Interned ''CLIPBOARD'' \<in> xt_owned ?s1 \<and> Interned ''PRIMARY'' \<in> xt_owned ?s1
             \<and> vboxFormats (ctx ?s1) = 0"
    by (auto simp: deliver_def clipNewVBoxFormatsWorker_def clipGrabX11CB_def
          clipInvalidateVBoxCBCache_def clipResetX11Formats_def clipGetAtom_def Let_def)
  have q: "quiet ?s1" and c: "filter is_host_read (calls ?s1) = filter is_host_read (calls s)"
    using assms(2)
    by (auto simp: quiet_def deliver_def clipNewVBoxFormatsWorker_def clipGrabX11CB_def
          clipInvalidateVBoxCBCache_def clipResetX11Formats_def Let_def)
  from assms(4) st have r: "run h fCharSigned ?s1 es = Some s'"
    by simp
  from run_quiet [OF q assms(3) r] c st own show ?thesis
    by (simp add: quiet_def)
qed

theorem empty_announcement_grabs_and_reads_nothing_witness:
  "xt_timers \<lparr>ctx = started_ctx, xt_timers = [W_clipNewVBoxFormatsWorker 0], xt_requests = [],
               xt_owned = {}, calls = []\<rparr> = W_clipNewVBoxFormatsWorker 0 # []
   \<and> run no_helpers True
         \<lparr>ctx = started_ctx, xt_timers = [W_clipNewVBoxFormatsWorker 0], xt_requests = [],
          xt_owned = {}, calls = []\<rparr>
         [Ev_timer True True,
          Ev_convert_selection True (Interned ''CLIPBOARD'') (Interned ''UTF8_STRING'')
            (VINF_SUCCESS, Some [0x41, 0])]
       = Some \<lparr>ctx = started_ctx, xt_timers = [], xt_requests = [],
                xt_owned = {Interned ''CLIPBOARD'', Interned ''PRIMARY''},
                calls = [XtOwnSelection 104 (Interned ''CLIPBOARD'') True,
                         XtOwnSelection 104 (Interned ''PRIMARY'') True,
                         XSetSelectionOwner (Interned ''CLIPBOARD''),
                         XSetSelectionOwner (Interned ''PRIMARY'')]\<rparr>
   \<and> filter is_host_read
         [XtOwnSelection 104 (Interned ''CLIPBOARD'') True,
          XtOwnSelection 104 (Interned ''PRIMARY'') True,
          XSetSelectionOwner (Interned ''CLIPBOARD''),
          XSetSelectionOwner (Interned ''PRIMARY'')] = []"
proof -
  let ?s = "\<lparr>ctx = started_ctx, xt_timers = [W_clipNewVBoxFormatsWorker 0], xt_requests = [],
             xt_owned = {}, calls = []\<rparr>"
  let ?es = "[Ev_convert_selection True (Interned ''CLIPBOARD'') (Interned ''UTF8_STRING'')
                (VINF_SUCCESS, Some [0x41, 0])]"
  let ?s' = "\<lparr>ctx = started_ctx, xt_timers = [], xt_requests = [],
              xt_owned = {Interned ''CLIPBOARD'', Interned ''PRIMARY''},
              calls = [XtOwnSelection 104 (Interned ''CLIPBOARD'') True,
                       XtOwnSelection 104 (Interned ''PRIMARY'') True,
                       XSetSelectionOwner (Interned ''CLIPBOARD''),
                       XSetSelectionOwner (Interned ''PRIMARY'')]\<rparr>"
  have h1: "xt_timers ?s = W_clipNewVBoxFormatsWorker 0 # []" by simp
  have h2: "\<forall>w\<in>set []. announces_nothing w" by simp
  have h3: "\<forall>e\<in>set ?es. announces_nothing_ev e" by simp
  have h4: "run no_helpers True ?s (Ev_timer True True # ?es) = Some ?s'"
    by (simp add: started_ctx_eq deliver_def clipNewVBoxFormatsWorker_def clipGrabX11CB_def
          clipInvalidateVBoxCBCache_def clipResetX11Formats_def clipGetAtom_def
          clipXtConvertSelectionProc_def clipIsSupportedSelectionType_def
          clipConvertVBoxCBForX11_def table_lookups table_entries
          VBOX_SHARED_CLIPBOARD_FMT_UNICODETEXT_def insert_commute)
  from empty_announcement_grabs_and_reads_nothing [OF h1 h2 h3 h4] h1 h4
  show ?thesis by simp
qed

text \<open>
  Claim C1 as the specification states it fails: after the announcement of the empty mask
  on a started context the widget owns CLIPBOARD and PRIMARY.
\<close>

theorem empty_announcement_grabs_counterexample:
  "run no_helpers True (clipEventThread_begin started_ctx)
     [Ev_ClipAnnounceFormatToX11 0, Ev_timer True True]
   = Some \<lparr>ctx = started_ctx, xt_timers = [], xt_requests = [],
            xt_owned = {Interned ''CLIPBOARD'', Interned ''PRIMARY''},
            calls = [XtAppAddTimeOut 100 (W_clipNewVBoxFormatsWorker 0), write_wakeup 6,
                     XtOwnSelection 104 (Interned ''CLIPBOARD'') True,
                     XtOwnSelection 104 (Interned ''PRIMARY'') True,
                     XSetSelectionOwner (Interned ''CLIPBOARD''),
                     XSetSelectionOwner (Interned ''PRIMARY'')]\<rparr>"
  by (simp add: clipEventThread_begin_def started_ctx_eq deliver_def ClipAnnounceFormatToX11_def
        clipQueueToEventThread_def clipNewVBoxFormatsWorker_def clipGrabX11CB_def
        clipInvalidateVBoxCBCache_def clipResetX11Formats_def clipGetAtom_def insert_commute)

subsection \<open>The round trip of host text through UTF-8\<close>

lemma div_4096: "(cp::nat) div 4096 = cp div 64 div 64"
  using div_mult2_eq [of cp 64 64] by simp

lemma div_262144: "(cp::nat) div 262144 = cp div 4096 div 64"
  using div_mult2_eq [of cp 4096 64] by simp

lemma split_64: "(cp::nat) div 64 * 64 + cp mod 64 = cp"
  by simp

lemma split_4096: "(cp::nat) div 4096 * 4096 + cp div 64 mod 64 * 64 + cp mod 64 = cp"
proof -
  have "cp div 64 = cp div 4096 * 64 + cp div 64 mod 64"
    unfolding div_4096 by simp
  then have "cp div 64 * 64 = cp div 4096 * 4096 + cp div 64 mod 64 * 64"
    by simp
  with split_64 [of cp] show ?thesis by simp
qed

lemma split_262144:
  "(cp::nat) div 262144 * 262144 + cp div 4096 mod 64 * 4096 + cp div 64 mod 64 * 64 + cp mod 64 = cp"
proof -
  have "cp div 4096 = cp div 262144 * 64 + cp div 4096 mod 64"
    unfolding div_262144 by simp
  then have "cp div 4096 * 4096 = cp div 262144 * 262144 + cp div 4096 mod 64 * 4096"
    by simp
  with split_4096 [of cp] show ?thesis by simp
qed

lemma decode2: "128 \<le> cp \<Longrightarrow> cp < 2048 \<Longrightarrow>
  utf8_decode ((0xC0 + cp div 0x40) # (0x80 + cp mod 0x40) # rest) = map_option ((#) cp) (utf8_decode rest)"
proof -
  assume a: "128 \<le> cp" "cp < 2048"
  have dv: "cp div 64 < 32" using a by (intro less_mult_imp_div_less) simp
  show ?thesis using a dv
    by (simp add: utf8_cont_def)
qed

lemma decode3: "0x800 \<le> cp \<Longrightarrow> cp < 0x10000 \<Longrightarrow> cp < 0xD800 \<or> 0xDFFF < cp \<Longrightarrow>
  utf8_decode ((0xE0 + cp div 0x1000) # (0x80 + cp div 0x40 mod 0x40) # (0x80 + cp mod 0x40) # rest)
    = map_option ((#) cp) (utf8_decode rest)"
proof -
  assume a: "0x800 \<le> cp" "cp < 0x10000" "cp < 0xD800 \<or> 0xDFFF < cp"
  have dv: "cp div 0x1000 < 0x10" using a by (intro less_mult_imp_div_less) simp
  show ?thesis using a dv split_4096 [of cp]
    by (simp add: utf8_cont_def)
qed

lemma decode4: "0x10000 \<le> cp \<Longrightarrow> cp < 0x110000 \<Longrightarrow>
  utf8_decode ((0xF0 + cp div 0x40000) # (0x80 + cp div 0x1000 mod 0x40)
                # (0x80 + cp div 0x40 mod 0x40) # (0x80 + cp mod 0x40) # rest)
    = map_option ((#) cp) (utf8_decode rest)"
proof -
  assume a: "0x10000 \<le> cp" "cp < 0x110000"
  have dv: "cp div 0x40000 < 0x8" using a by (intro less_mult_imp_div_less) simp
  show ?thesis using a dv split_262144 [of cp]
    by (simp add: utf8_cont_def)
qed

lemma utf8_decode_encode1:
  assumes "scalar cp"
  shows "utf8_decode (utf8_encode cp @ rest) = map_option ((#) cp) (utf8_decode rest)"
proof -
  consider "cp < 0x80" | "0x80 \<le> cp" "cp < 0x800" | "0x800 \<le> cp" "cp < 0x10000"
    | "0x10000 \<le> cp" "cp < 0x110000"
    using assms unfolding scalar_def by (metis not_le_imp_less)
  then show ?thesis
  proof cases
    case 1
    then show ?thesis by (simp add: utf8_encode_def)
  next
    case 2
    then show ?thesis using decode2 [of cp rest] by (simp add: utf8_encode_def)
  next
    case 3
    moreover from 3 assms have "cp < 0xD800 \<or> 0xDFFF < cp" by (simp add: scalar_def)
    ultimately show ?thesis using decode3 [of cp rest] by (simp add: utf8_encode_def)
  next
    case 4
    then show ?thesis using decode4 [of cp rest] by (simp add: utf8_encode_def)
  qed
qed

lemma utf8_decode_encode:
  "\<forall>cp\<in>set cps. scalar cp \<Longrightarrow> utf8_decode (concat (map utf8_encode cps)) = Some cps"
  by (induction cps) (simp_all add: utf8_decode_encode1)

lemma utf8_encode_bytes:
  assumes "scalar cp"
  shows "\<forall>b\<in>set (utf8_encode cp). b < 256 \<and> (cp \<noteq> 0 \<longrightarrow> b \<noteq> 0)"
proof -
  have "cp div 0x40 < 0x20" if "cp < 0x800"
    using that by (intro less_mult_imp_div_less) simp
  moreover have "cp div 0x1000 < 0x10" if "cp < 0x10000"
    using that by (intro less_mult_imp_div_less) simp
  moreover have "cp div 0x40000 < 0x8"
    using assms unfolding scalar_def by (intro less_mult_imp_div_less) simp
  moreover have "cp mod 0x40 < 0x40" "cp div 0x40 mod 0x40 < 0x40" "cp div 0x1000 mod 0x40 < 0x40"
    by simp_all
  ultimately show ?thesis
    by (auto simp: utf8_encode_def)
qed

lemma utf8_encode_length: "length (utf8_encode cp) \<le> 4"
  "cp < 0x10000 \<Longrightarrow> length (utf8_encode cp) \<le> 3"
  by (simp_all add: utf8_encode_def)

lemma utf16_decode_props:
  assumes "utf16_decode us = Some cps" and "\<forall>u\<in>set us. u < 65536"
  shows "concat (map utf16_encode cps) = us \<and> (\<forall>cp\<in>set cps. scalar cp)
         \<and> (0 \<notin> set us \<longrightarrow> 0 \<notin> set cps)
         \<and> length (concat (map utf8_encode cps)) \<le> 3 * length us"
  using assms
proof (induction us arbitrary: cps rule: utf16_decode.induct)
  case 1
  then show ?case by simp
next
  case (2 u us)
  show ?case
  proof (cases "u < 0xD800 \<or> 0xDFFF < u")
    case True
    with "2.prems" obtain cps' where cps': "utf16_decode us = Some cps'" "cps = u # cps'"
      by auto
    from "2.prems"(2) have u: "u < 65536" and us: "\<forall>u\<in>set us. u < 65536" by simp_all
    from "2.IH"(1) [OF True cps'(1) us] True u utf8_encode_length(2) [of u]
    show ?thesis
      by (auto simp: cps'(2) utf16_encode_def scalar_def)
  next
    case False
    with "2.prems" obtain l us' cps' where
      us: "us = l # us'" and hi: "u < 0xDC00" and lo: "0xDC00 \<le> l" "l \<le> 0xDFFF"
      and cps': "utf16_decode us' = Some cps'"
      and cps: "cps = (0x10000 + (u - 0xD800) * 0x400 + (l - 0xDC00)) # cps'"
      by (auto split: if_splits list.splits)
    let ?cp = "0x10000 + (u - 0xD800) * 0x400 + (l - 0xDC00)"
    from False hi have u: "0xD800 \<le> u" by simp
    from "2.prems"(2) us have us': "\<forall>u\<in>set us'. u < 65536" by simp
    have sub: "?cp - 0x10000 = (u - 0xD800) * 0x400 + (l - 0xDC00)" by simp
    have l': "l - 0xDC00 < 0x400" using lo by simp
    have d: "(?cp - 0x10000) div 0x400 = u - 0xD800" and m: "(?cp - 0x10000) mod 0x400 = l - 0xDC00"
      unfolding sub using l' by simp_all
    have big: "0x10000 \<le> ?cp" by simp
    have small: "?cp < 0x110000" using hi u l' by simp
    have enc: "utf16_encode ?cp = [u, l]"
      using big u lo unfolding utf16_encode_def d m by simp
    have sc: "scalar ?cp" using big small by (simp add: scalar_def)
    have "False \<or> \<not> (u < 0xD800 \<or> 0xDFFF < u)" using False by simp
    from "2.IH"(2) [OF False hi us _ cps' us'] lo
    have IH: "concat (map utf16_encode cps') = us' \<and> (\<forall>cp\<in>set cps'. scalar cp)
         \<and> (0 \<notin> set us' \<longrightarrow> 0 \<notin> set cps')
         \<and> length (concat (map utf8_encode cps')) \<le> 3 * length us'"
      by simp
    from IH enc sc utf8_encode_length(1) [of ?cp] show ?thesis
      unfolding cps us by (auto simp del: One_nat_def)
  qed
qed


lemma unat_CR_LF [simp]:
  "unat (of_nat CARRIAGERETURN :: 16 word) = 13" "unat (of_nat LINEFEED :: 16 word) = 10"
  "(of_nat CARRIAGERETURN :: 16 word) \<noteq> 0" "(of_nat LINEFEED :: 16 word) \<noteq> 0"
  "(of_nat CARRIAGERETURN :: 16 word) \<noteq> of_nat LINEFEED"
  "(of_nat LINEFEED :: 16 word) \<noteq> of_nat CARRIAGERETURN"
  by (simp_all add: CARRIAGERETURN_def LINEFEED_def)

lemma win_to_lin_Cons:
  "c \<noteq> of_nat CARRIAGERETURN \<Longrightarrow> win_to_lin (c # ws) = c # win_to_lin ws"
  by (cases ws) simp_all

lemma win_to_lin_subset: "set (win_to_lin ws) \<subseteq> set ws"
  by (induction ws rule: win_to_lin.induct) auto

lemma win_to_lin_length: "length (win_to_lin ws) \<le> length ws"
  by (induction ws rule: win_to_lin.induct) auto

lemma crlf_first: "crlf_convention (c # ws) \<Longrightarrow> c \<noteq> of_nat LINEFEED"
  unfolding crlf_convention_def by (drule spec [of _ 0]) auto

lemma crlf_second:
  "crlf_convention (c # d # ws) \<Longrightarrow> d = of_nat LINEFEED \<Longrightarrow> c = of_nat CARRIAGERETURN"
  unfolding crlf_convention_def by (drule spec [of _ 1]) auto

lemma crlf_tail:
  assumes "crlf_convention (c # d # ws)" and "d \<noteq> of_nat LINEFEED"
  shows "crlf_convention (d # ws)"
  unfolding crlf_convention_def
proof (intro allI impI)
  fix i
  assume i: "i < length (d # ws)" and lf: "(d # ws) ! i = of_nat LINEFEED"
  from assms(2) lf have pos: "0 < i" by (cases i) auto
  from assms(1) [unfolded crlf_convention_def, rule_format, of "Suc i"] i lf
  have "(c # d # ws) ! (Suc i - 1) = of_nat CARRIAGERETURN" by simp
  with pos show "0 < i \<and> (d # ws) ! (i - 1) = of_nat CARRIAGERETURN"
    by (cases i) auto
qed

lemma crlf_after_pair:
  assumes "crlf_convention (c # d # ws)" and "d = of_nat LINEFEED"
  shows "crlf_convention ws"
  unfolding crlf_convention_def
proof (intro allI impI)
  fix i
  assume i: "i < length ws" and lf: "ws ! i = of_nat LINEFEED"
  from assms(1) [unfolded crlf_convention_def, rule_format, of "Suc (Suc i)"] i lf
  have prev: "(c # d # ws) ! (Suc (Suc i) - 1) = of_nat CARRIAGERETURN" by simp
  have pos: "0 < i"
  proof (cases i)
    case 0
    with prev assms(2) show ?thesis by simp
  qed simp
  with prev show "0 < i \<and> ws ! (i - 1) = of_nat CARRIAGERETURN"
    by (cases i) auto
qed

lemma lin_to_win_simps [simp]:
  "lin_to_win [] = []"
  "lin_to_win (c # ws) =
     (if c = of_nat LINEFEED then of_nat CARRIAGERETURN # of_nat LINEFEED # lin_to_win ws
      else c # lin_to_win ws)"
  by (simp_all add: lin_to_win_def)

lemma lin_to_win_win_to_lin:
  "crlf_convention ws \<Longrightarrow> lin_to_win (win_to_lin ws) = ws"
proof (induction ws rule: win_to_lin.induct)
  case (1 c d ws)
  show ?case
  proof (cases "d = of_nat LINEFEED")
    case True
    with crlf_second [OF "1.prems"] have c: "c = of_nat CARRIAGERETURN" by simp
    from "1.IH"(1) crlf_after_pair [OF "1.prems" True] c True show ?thesis by simp
  next
    case False
    from crlf_first [OF "1.prems"] have "c \<noteq> of_nat LINEFEED" .
    with "1.IH"(2) crlf_tail [OF "1.prems" False] False show ?thesis by simp
  qed
qed (auto dest: crlf_first)

lemma utf16_decode_plainD:
  "u < 0xD800 \<or> 0xDFFF < u \<Longrightarrow> utf16_decode (u # us) \<noteq> None \<Longrightarrow> utf16_decode us \<noteq> None"
  by auto

lemma utf16_decode_plainI:
  "u < 0xD800 \<or> 0xDFFF < u \<Longrightarrow> utf16_decode us \<noteq> None \<Longrightarrow> utf16_decode (u # us) \<noteq> None"
  by auto

lemma utf16_decode_pairD:
  "0xD800 \<le> u \<Longrightarrow> u < 0xDC00 \<Longrightarrow> 0xDC00 \<le> l \<Longrightarrow> l \<le> 0xDFFF \<Longrightarrow>
     utf16_decode (u # l # us) \<noteq> None \<Longrightarrow> utf16_decode us \<noteq> None"
  by auto

lemma utf16_decode_pairI:
  "0xD800 \<le> u \<Longrightarrow> u < 0xDC00 \<Longrightarrow> 0xDC00 \<le> l \<Longrightarrow> l \<le> 0xDFFF \<Longrightarrow>
     utf16_decode us \<noteq> None \<Longrightarrow> utf16_decode (u # l # us) \<noteq> None"
  by auto

lemma utf16_decode_surrogate:
  assumes "\<not> (u < 0xD800 \<or> 0xDFFF < u)" and "utf16_decode (u # us) \<noteq> None"
  shows "\<exists>l us'. us = l # us' \<and> 0xD800 \<le> u \<and> u < 0xDC00 \<and> 0xDC00 \<le> l \<and> l \<le> 0xDFFF"
  using assms by (auto split: if_splits list.splits)

lemma utf16_well_formed_Cons:
  "utf16_well_formed (c # ws) \<longleftrightarrow> utf16_decode (unat c # map unat ws) \<noteq> None"
  by (simp add: utf16_well_formed_def del: utf16_decode.simps not_None_eq)

lemma win_to_lin_well_formed:
  "utf16_well_formed ws \<Longrightarrow> utf16_well_formed (win_to_lin ws)"
proof (induction "length ws" arbitrary: ws rule: less_induct)
  case less
  show ?case
  proof (cases ws)
    case Nil
    with less.prems show ?thesis by simp
  next
    case (Cons c ws1)
    show ?thesis
    proof (cases ws1)
      case Nil
      with Cons less.prems show ?thesis by simp
    next
      case ws1: (Cons d rest)
      from less.prems have dec: "utf16_decode (unat c # unat d # map unat rest) \<noteq> None"
        by (simp add: utf16_well_formed_def Cons ws1 del: utf16_decode.simps not_None_eq)
      show ?thesis
      proof (cases "c = of_nat CARRIAGERETURN \<and> d = of_nat LINEFEED")
        case True
        then have plain: "unat c < 0xD800 \<or> 0xDFFF < unat c" "unat d < 0xD800 \<or> 0xDFFF < unat d"
          by simp_all
        from utf16_decode_plainD [OF plain(2) utf16_decode_plainD [OF plain(1) dec]]
        have "utf16_well_formed rest"
          by (simp add: utf16_well_formed_def del: not_None_eq)
        with less.hyps [of rest] have "utf16_decode (map unat (win_to_lin rest)) \<noteq> None"
          by (simp add: Cons ws1 utf16_well_formed_def del: not_None_eq)
        from utf16_decode_plainI [OF plain(2) this] True show ?thesis
          by (simp add: Cons ws1 utf16_well_formed_Cons del: utf16_decode.simps not_None_eq)
      next
        case False
        then have w: "win_to_lin ws = c # win_to_lin (d # rest)"
          by (auto simp: Cons ws1)
        show ?thesis
        proof (cases "unat c < 0xD800 \<or> 0xDFFF < unat c")
          case True
          from utf16_decode_plainD [OF True dec] have "utf16_well_formed (d # rest)"
            by (simp add: utf16_well_formed_Cons del: utf16_decode.simps not_None_eq)
          with less.hyps [of "d # rest"]
          have "utf16_decode (map unat (win_to_lin (d # rest))) \<noteq> None"
            by (simp add: Cons ws1 utf16_well_formed_def del: utf16_decode.simps not_None_eq)
          from utf16_decode_plainI [OF True this] show ?thesis
            by (simp add: w utf16_well_formed_Cons del: utf16_decode.simps not_None_eq)
        next
          case surr: False
          from utf16_decode_surrogate [OF surr dec]
          have r: "0xD800 \<le> unat c" "unat c < 0xDC00" "0xDC00 \<le> unat d" "unat d \<le> 0xDFFF"
            by simp_all
          from r have dn: "d \<noteq> of_nat CARRIAGERETURN" by auto
          from utf16_decode_pairD [OF r dec] have "utf16_well_formed rest"
            by (simp add: utf16_well_formed_def del: not_None_eq)
          with less.hyps [of rest] have "utf16_decode (map unat (win_to_lin rest)) \<noteq> None"
            by (simp add: Cons ws1 utf16_well_formed_def del: not_None_eq)
          from utf16_decode_pairI [OF r this] show ?thesis
            by (simp add: w win_to_lin_Cons [OF dn] utf16_well_formed_Cons
                  del: utf16_decode.simps not_None_eq)
        qed
      qed
    qed
  qed
qed


lemma spec_helpers_simps:
  "vboxClipboardUtf16GetLinSize spec_helpers = spec_vboxClipboardUtf16GetLinSize"
  "vboxClipboardUtf16WinToLin spec_helpers = spec_vboxClipboardUtf16WinToLin"
  "RTUtf16ToUtf8Ex spec_helpers = spec_RTUtf16ToUtf8Ex"
  "RTStrToUtf16Ex spec_helpers = spec_RTStrToUtf16Ex"
  "vboxClipboardUtf16GetWinSize spec_helpers = spec_vboxClipboardUtf16GetWinSize"
  "vboxClipboardUtf16LinToWin spec_helpers = spec_vboxClipboardUtf16LinToWin"
  by (simp_all add: spec_helpers_def)

lemma text_at_text:
  assumes "0 \<notin> set ws" and "t = [] \<or> t = [0]" and "length ws \<le> n"
  shows "text_at (ws @ t) n = ws"
proof -
  from assms(3) have "take n (ws @ t) = ws @ take (n - length ws) t" by simp
  moreover from assms(2) have "takeWhile (\<lambda>c. c \<noteq> 0) (take (n - length ws) t) = []"
    by (cases "n - length ws") auto
  moreover from assms(1) have "\<forall>x\<in>set ws. x \<noteq> 0" by auto
  ultimately show ?thesis
    by (simp add: text_at_def takeWhile_append)
qed

lemma host_to_utf8:
  assumes wf: "utf16_well_formed ws" and nz: "0 \<notin> set ws" and t: "t = [] \<or> t = [0]"
    and cb: "3 * length ws < cbBuf"
    and cps: "utf16_decode (map unat (win_to_lin ws)) = Some cps"
  shows "clipWinTxtToUtf8 spec_helpers (ws @ t) (2 * length (ws @ t)) cbBuf
           = (VINF_SUCCESS, map of_nat (concat (map utf8_encode cps)) @ [0],
              length (concat (map utf8_encode cps)) + 1)"
proof -
  let ?x = "win_to_lin ws"
  let ?bs = "concat (map utf8_encode cps)"
  have src: "text_at (ws @ t) (length ws + length t) = ws"
    using text_at_text [OF nz t, of "length ws + length t"] by simp
  have nzx: "0 \<notin> set ?x"
    using nz win_to_lin_subset [of ws] by auto
  have tmp: "text_at (?x @ [0]) (Suc (length ?x)) = ?x"
    using text_at_text [OF nzx, of "[0]" "Suc (length ?x)"] by simp
  have "unat w < 65536" for w :: "16 word"
    using unsigned_less [of w, where 'a = nat] by simp
  then have "\<forall>u\<in>set (map unat ?x). u < 65536"
    by auto
  from utf16_decode_props [OF cps this]
  have "length ?bs \<le> 3 * length ?x" by simp
  with win_to_lin_length [of ws] cb have fits: "length ?bs < cbBuf" by simp
  show ?thesis
    unfolding clipWinTxtToUtf8_def spec_helpers_simps
    by (simp add: spec_vboxClipboardUtf16GetLinSize_def spec_vboxClipboardUtf16WinToLin_def
          spec_RTUtf16ToUtf8Ex_def src RT_SUCCESS_def Let_def tmp cps fits)
qed


lemma byte_of_nat:
  assumes "b < 256"
  shows "unat (of_nat b :: 8 word) = b" and "b \<noteq> 0 \<Longrightarrow> (of_nat b :: 8 word) \<noteq> 0"
proof -
  show u: "unat (of_nat b :: 8 word) = b"
    using assms by (simp add: unat_of_nat)
  assume "b \<noteq> 0"
  with u show "(of_nat b :: 8 word) \<noteq> 0"
    by (metis unat_0)
qed

lemma utf8_to_host:
  assumes nz: "0 \<notin> set ws" and crlf: "crlf_convention ws"
    and cps: "utf16_decode (map unat (win_to_lin ws)) = Some cps"
    and cb: "cb = length (concat (map utf8_encode cps))
             \<or> cb = length (concat (map utf8_encode cps)) + 1"
  shows "clipUtf8ToWinTxt spec_helpers (map of_nat (concat (map utf8_encode cps)) @ [0]) cb
           = (VINF_SUCCESS, Some (ws @ [0]), (2 * (length ws + 1)) mod 2 ^ 32)"
proof -
  let ?x = "win_to_lin ws"
  let ?bs = "concat (map utf8_encode cps)"
  let ?B = "map of_nat ?bs :: 8 word list"
  have nzx: "0 \<notin> set ?x"
    using nz win_to_lin_subset [of ws] by auto
  have "unat w < 65536" for w :: "16 word"
    using unsigned_less [of w, where 'a = nat] by simp
  then have small: "\<forall>u\<in>set (map unat ?x). u < 65536"
    by auto
  have nzu: "0 \<notin> set (map unat ?x)"
    using nzx by (auto simp: unat_eq_0)
  from utf16_decode_props [OF cps small] nzu
  have enc: "concat (map utf16_encode cps) = map unat ?x"
    and sc: "\<forall>cp\<in>set cps. scalar cp" and nzc: "0 \<notin> set cps"
    by simp_all
  have bytes: "\<forall>b\<in>set ?bs. b < 256 \<and> b \<noteq> 0"
    using sc nzc utf8_encode_bytes by (fastforce simp: in_set_conv_nth)
  have "map (\<lambda>b. unat (of_nat b :: 8 word)) ?bs = ?bs"
    by (rule map_idI) (use bytes byte_of_nat(1) in blast)
  then have unB: "map unat ?B = ?bs"
    by (simp add: comp_def)
  have nzB: "0 \<notin> set ?B"
    using bytes byte_of_nat(2) by fastforce
  have src: "text_at (?B @ [0]) cb = ?B"
    using text_at_text [OF nzB, of "[0]" cb] cb by auto
  have dec: "utf8_decode ?bs = Some cps"
    using utf8_decode_encode [OF sc] .
  have "map (\<lambda>w. of_nat (unat w)) ?x = ?x"
    by (rule map_idI) simp
  then have again: "map of_nat (map unat ?x) = ?x"
    by (simp add: comp_def)
  have tmp: "text_at (?x @ [0]) (Suc (length ?x)) = ?x"
    using text_at_text [OF nzx, of "[0]" "Suc (length ?x)"] by simp
  have lw: "lin_to_win ?x = ws"
    using lin_to_win_win_to_lin [OF crlf] .
  have r1: "spec_RTStrToUtf16Ex (?B @ [0]) cb = (VINF_SUCCESS, ?x @ [0], length ?x)"
    unfolding spec_RTStrToUtf16Ex_def src unB dec option.case Let_def enc again
    by simp
  have r2: "spec_vboxClipboardUtf16GetWinSize (?x @ [0]) (length ?x + 1)
              = (VINF_SUCCESS, length ws + 1)"
    unfolding spec_vboxClipboardUtf16GetWinSize_def by (simp add: tmp lw)
  have r3: "spec_vboxClipboardUtf16LinToWin (?x @ [0]) (length ?x + 1) (length ws + 1)
              = (VINF_SUCCESS, ws @ [0])"
    unfolding spec_vboxClipboardUtf16LinToWin_def by (simp add: tmp lw)
  show ?thesis
    unfolding clipUtf8ToWinTxt_def clipUtf16ToWinTxt_def spec_helpers_simps r1 prod.case
      RT_SUCCESS_def if_True r2 r3 Let_def simp_thms
    by (simp add: mult.commute)
qed

text \<open>
  Claim C6, on the helpers as modelled from the specification. For every host text of
  well-formed UTF-16 without a zero code unit in which every line feed directly follows a
  carriage return, passed with or without its terminator, clipWinTxtToUtf8 (with a buffer
  of more than three bytes for each code unit) succeeds, and clipUtf8ToWinTxt applied to
  its output, with or without the terminator counted, succeeds and gives the text back,
  followed by one terminator.
\<close>

theorem host_utf8_host_round_trip:
  assumes "utf16_well_formed ws" and "0 \<notin> set ws" and "crlf_convention ws"
    and "t = [] \<or> t = [0]" and "3 * length ws < cbBuf"
  shows "\<exists>psz cb.
           clipWinTxtToUtf8 spec_helpers (ws @ t) (2 * length (ws @ t)) cbBuf
             = (VINF_SUCCESS, psz, cb)
           \<and> clipUtf8ToWinTxt spec_helpers psz cb
               = (VINF_SUCCESS, Some (ws @ [0]), (2 * (length ws + 1)) mod 2 ^ 32)
           \<and> clipUtf8ToWinTxt spec_helpers psz (cb - 1)
               = (VINF_SUCCESS, Some (ws @ [0]), (2 * (length ws + 1)) mod 2 ^ 32)"
proof -
  from win_to_lin_well_formed [OF assms(1)]
  obtain cps where cps: "utf16_decode (map unat (win_to_lin ws)) = Some cps"
    by (auto simp: utf16_well_formed_def)
  let ?bs = "concat (map utf8_encode cps)"
  have a: "clipWinTxtToUtf8 spec_helpers (ws @ t) (2 * length (ws @ t)) cbBuf
           = (VINF_SUCCESS, map of_nat ?bs @ [0], length ?bs + 1)"
    by (rule host_to_utf8 [OF assms(1,2,4,5) cps])
  have b: "clipUtf8ToWinTxt spec_helpers (map of_nat ?bs @ [0]) (length ?bs + 1)
           = (VINF_SUCCESS, Some (ws @ [0]), (2 * (length ws + 1)) mod 2 ^ 32)"
    by (rule utf8_to_host [OF assms(2,3) cps]) simp
  have c: "clipUtf8ToWinTxt spec_helpers (map of_nat ?bs @ [0]) (length ?bs + 1 - 1)
           = (VINF_SUCCESS, Some (ws @ [0]), (2 * (length ws + 1)) mod 2 ^ 32)"
    by (rule utf8_to_host [OF assms(2,3) cps]) simp
  from a b c show ?thesis by blast
qed


theorem host_utf8_host_round_trip_witness:
  "utf16_well_formed [0x68, 0x0D, 0x0A, 0x20AC]
   \<and> 0 \<notin> set [0x68, 0x0D, 0x0A, 0x20AC :: 16 word]
   \<and> crlf_convention [0x68, 0x0D, 0x0A, 0x20AC]
   \<and> clipWinTxtToUtf8 spec_helpers ([0x68, 0x0D, 0x0A, 0x20AC] @ [0]) 10 100
       = (VINF_SUCCESS, [0x68, 0x0A, 0xE2, 0x82, 0xAC, 0], 6)
   \<and> clipUtf8ToWinTxt spec_helpers [0x68, 0x0A, 0xE2, 0x82, 0xAC, 0] 6
       = (VINF_SUCCESS, Some [0x68, 0x0D, 0x0A, 0x20AC, 0], 10)
   \<and> clipUtf8ToWinTxt spec_helpers [0x68, 0x0A, 0xE2, 0x82, 0xAC, 0] 5
       = (VINF_SUCCESS, Some [0x68, 0x0D, 0x0A, 0x20AC, 0], 10)"
proof -
  let ?ws = "[0x68, 0x0D, 0x0A, 0x20AC] :: 16 word list"
  have h1: "utf16_well_formed ?ws"
    by (simp add: utf16_well_formed_def)
  have h2: "0 \<notin> set ?ws"
    by simp
  have h3: "crlf_convention ?ws"
    by (auto simp: crlf_convention_def nth_Cons' LINEFEED_def CARRIAGERETURN_def
          split: if_splits)
  have h4: "[0 :: 16 word] = [] \<or> [0 :: 16 word] = [0]"
    by simp
  have h5: "3 * length ?ws < 100"
    by simp
  have e: "clipWinTxtToUtf8 spec_helpers (?ws @ [0]) 10 100
             = (VINF_SUCCESS, [0x68, 0x0A, 0xE2, 0x82, 0xAC, 0], 6)"
    by (simp add: clipWinTxtToUtf8_def spec_helpers_simps spec_vboxClipboardUtf16GetLinSize_def
          spec_vboxClipboardUtf16WinToLin_def spec_RTUtf16ToUtf8Ex_def text_at_def
          LINEFEED_def CARRIAGERETURN_def UTF16LEMARKER_def utf8_encode_def RT_SUCCESS_def
          Let_def)
  from host_utf8_host_round_trip [OF h1 h2 h3 h4 h5] e h1 h2 h3 show ?thesis
    by auto
qed

text \<open>The helpers as modelled give what the tests of the source expect: CR LF from X11
  reaches the host as CR CR LF, CR CR LF from the host reaches X11 as CR LF, and the
  euro sign is three bytes.\<close>

lemma tests_from_X11:
  "clipUtf8ToWinTxt spec_helpers [0x68, 0x69, 0x0D, 0x0A, 0x79, 0x6F, 0] 7
     = (VINF_SUCCESS, Some [0x68, 0x69, 0x0D, 0x0D, 0x0A, 0x79, 0x6F, 0], 16)"
  "clipUtf8ToWinTxt spec_helpers [0x31, 0x30, 0x30, 0xE2, 0x82, 0xAC, 0] 7
     = (VINF_SUCCESS, Some [0x31, 0x30, 0x30, 0x20AC, 0], 10)"
  by (simp_all add: clipUtf8ToWinTxt_def clipUtf16ToWinTxt_def spec_helpers_simps
        spec_RTStrToUtf16Ex_def spec_vboxClipboardUtf16GetWinSize_def
        spec_vboxClipboardUtf16LinToWin_def text_at_def utf8_cont_def utf16_encode_def
        lin_to_win_def LINEFEED_def CARRIAGERETURN_def RT_SUCCESS_def Let_def)

lemma tests_from_VBox:
  "clipWinTxtToUtf8 spec_helpers [0x68, 0x69, 0x0D, 0x0D, 0x0A, 0x79, 0x6F, 0] 16 100
     = (VINF_SUCCESS, [0x68, 0x69, 0x0D, 0x0A, 0x79, 0x6F, 0], 7)"
  "clipWinTxtToUtf8 spec_helpers [0x68, 0x69, 0x0D, 0x0A, 0x0D, 0x79, 0x6F] 14 100
     = (VINF_SUCCESS, [0x68, 0x69, 0x0A, 0x0D, 0x79, 0x6F, 0], 7)"
  by (simp_all add: clipWinTxtToUtf8_def spec_helpers_simps spec_vboxClipboardUtf16GetLinSize_def
        spec_vboxClipboardUtf16WinToLin_def spec_RTUtf16ToUtf8Ex_def text_at_def
        LINEFEED_def CARRIAGERETURN_def UTF16LEMARKER_def utf8_encode_def RT_SUCCESS_def
        Let_def)

subsection \<open>Text from X11\<close>

lemma lf_to_crlf_simps [simp]:
  "lf_to_crlf sg [] = []"
  "lf_to_crlf sg (c # cs) =
     (if unat c = LINEFEED then of_nat CARRIAGERETURN # of_nat LINEFEED # lf_to_crlf sg cs
      else RTUTF16_of_char sg c # lf_to_crlf sg cs)"
  "lf_to_crlf sg (cs @ ds) = lf_to_crlf sg cs @ lf_to_crlf sg ds"
  by (simp_all add: lf_to_crlf_def)

lemma RTUTF16_of_char_0 [simp]: "RTUTF16_of_char sg 0 = 0"
  by (simp add: RTUTF16_of_char_def)

lemma zero_not_LINEFEED [simp]: "unat (0 :: 8 word) \<noteq> LINEFEED" "0 < LINEFEED"
  by (simp_all add: LINEFEED_def)

lemma clipLatin1ToWinTxt_count_eq:
  "clipLatin1ToWinTxt_count cs n = n + of_nat (length (lf_to_crlf sg (takeWhile (\<lambda>c. c \<noteq> 0) cs)))"
  by (induction cs arbitrary: n) auto

lemma lf_to_crlf_length: "length cs \<le> length (lf_to_crlf sg cs)"
  by (induction cs) auto

lemma unat_of_nat32: "n < 2 ^ 32 \<Longrightarrow> unat (of_nat n :: 32 word) = n"
  by (simp add: unat_of_nat)

lemma unat_of_nat_Suc32: "n + 1 < 2 ^ 32 \<Longrightarrow> unat (of_nat n + 1 :: 32 word) = n + 1"
proof -
  assume a: "n + 1 < 2 ^ 32"
  have "(of_nat n + 1 :: 32 word) = of_nat (n + 1)" by simp
  with unat_of_nat32 [OF a] show ?thesis by (simp only:)
qed

lemma clipLatin1ToWinTxt_copy_fits:
  "length (lf_to_crlf sg cs) \<le> length rest \<Longrightarrow> length pre + length rest < 2 ^ 32 \<Longrightarrow>
   clipLatin1ToWinTxt_copy sg cs (of_nat (length pre)) (pre @ rest)
     = Some (pre @ lf_to_crlf sg cs @ drop (length (lf_to_crlf sg cs)) rest)"
proof (induction cs arbitrary: pre rest)
  case Nil
  show ?case by simp
next
  case (Cons c cs)
  have j: "unat (of_nat (length pre) :: 32 word) = length pre"
    using Cons.prems by (simp add: unat_of_nat32)
  show ?case
  proof (cases "unat c = LINEFEED")
    case True
    with Cons.prems obtain a b rest' where rest: "rest = a # b # rest'"
      by (cases rest; cases "tl rest") auto
    let ?pre = "pre @ [of_nat CARRIAGERETURN, of_nat LINEFEED]"
    have j1: "unat (of_nat (length pre) + 1 :: 32 word) = length pre + 1"
      using Cons.prems by (intro unat_of_nat_Suc32) (simp add: rest)
    have upd: "(pre @ rest)[length pre := of_nat CARRIAGERETURN, length pre + 1 := of_nat LINEFEED]
                 = ?pre @ rest'"
      by (simp add: rest list_update_append)
    have nxt: "(of_nat (length pre) + 2 :: 32 word) = of_nat (length ?pre)"
      by simp
    have "clipLatin1ToWinTxt_copy sg (c # cs) (of_nat (length pre)) (pre @ rest)
            = clipLatin1ToWinTxt_copy sg cs (of_nat (length ?pre)) (?pre @ rest')"
      using True upd unfolding clipLatin1ToWinTxt_copy.simps j j1 nxt by (simp add: rest)
    also have "\<dots> = Some (?pre @ lf_to_crlf sg cs @ drop (length (lf_to_crlf sg cs)) rest')"
      using Cons.prems True by (intro Cons.IH) (simp_all add: rest)
    finally show ?thesis using True by (simp add: rest)
  next
    case False
    with Cons.prems obtain a rest' where rest: "rest = a # rest'"
      by (cases rest) auto
    let ?pre = "pre @ [RTUTF16_of_char sg c]"
    have upd: "(pre @ rest)[length pre := RTUTF16_of_char sg c] = ?pre @ rest'"
      by (simp add: rest list_update_append)
    have nxt: "(of_nat (length pre) + 1 :: 32 word) = of_nat (length ?pre)"
      by simp
    have "clipLatin1ToWinTxt_copy sg (c # cs) (of_nat (length pre)) (pre @ rest)
            = clipLatin1ToWinTxt_copy sg cs (of_nat (length ?pre)) (?pre @ rest')"
      using False upd unfolding clipLatin1ToWinTxt_copy.simps j nxt by (simp add: rest)
    also have "\<dots> = Some (?pre @ lf_to_crlf sg cs @ drop (length (lf_to_crlf sg cs)) rest')"
      using Cons.prems False by (intro Cons.IH) (simp_all add: rest)
    finally show ?thesis using False by (simp add: rest)
  qed
qed

lemma unat_plus1: "unat (j :: 32 word) < n \<Longrightarrow> n < 2 ^ 32 \<Longrightarrow> unat (j + 1) = unat j + 1"
  by (simp add: unat_word_ariths)

lemma clipLatin1ToWinTxt_copy_Some:
  "clipLatin1ToWinTxt_copy sg cs j dest = Some d \<Longrightarrow> length dest < 2 ^ 32 \<Longrightarrow> unat j \<le> length dest \<Longrightarrow>
   unat j + length (lf_to_crlf sg cs) \<le> length dest"
proof (induction cs arbitrary: j dest)
  case Nil
  then show ?case by simp
next
  case (Cons c cs)
  show ?case
  proof (cases "unat c = LINEFEED")
    case True
    with Cons.prems(1) have j: "unat j < length dest" and j1: "unat (j + 1) < length dest"
      and rec: "clipLatin1ToWinTxt_copy sg cs (j + 2)
                  (dest[unat j := of_nat CARRIAGERETURN, unat (j + 1) := of_nat LINEFEED]) = Some d"
      by (simp_all split: if_splits)
    from unat_plus1 [OF j Cons.prems(2)] have e1: "unat (j + 1) = unat j + 1" .
    have two: "j + 1 + 1 = j + 2" by simp
    from unat_plus1 [OF j1 Cons.prems(2)] have e2: "unat (j + 2) = unat j + 2"
      unfolding two e1 by simp
    from j1 e1 have "unat (j + 2) \<le> length dest"
      unfolding e2 by simp
    with Cons.IH [OF rec] Cons.prems(2) e2 True show ?thesis by simp
  next
    case False
    with Cons.prems(1) have j: "unat j < length dest"
      and rec: "clipLatin1ToWinTxt_copy sg cs (j + 1) (dest[unat j := RTUTF16_of_char sg c]) = Some d"
      by (simp_all split: if_splits)
    from unat_plus1 [OF j Cons.prems(2)] have e1: "unat (j + 1) = unat j + 1" .
    from j e1 have "unat (j + 1) \<le> length dest" by simp
    with Cons.IH [OF rec] Cons.prems(2) e1 False show ?thesis by simp
  qed
qed


lemma unterminated:
  assumes "0 \<notin> set (butlast cs)"
  shows "takeWhile (\<lambda>c. c \<noteq> 0) cs = without_terminator cs"
    and "cs = without_terminator cs \<or> cs = without_terminator cs @ [0]"
    and "0 \<notin> set (without_terminator cs)"
proof -
  show a: "cs = without_terminator cs \<or> cs = without_terminator cs @ [0]"
    by (cases cs rule: rev_cases) (auto simp: without_terminator_def)
  show b: "0 \<notin> set (without_terminator cs)"
    using assms by (cases cs rule: rev_cases) (auto simp: without_terminator_def)
  from b have "\<forall>x\<in>set (without_terminator cs). x \<noteq> 0" by auto
  then have "takeWhile (\<lambda>c. c \<noteq> 0) (without_terminator cs @ t) = without_terminator cs"
    if "t = [] \<or> t = [0]" for t
    using that by (auto simp: takeWhile_append)
  from this [of "[]"] this [of "[0]"] a
  show "takeWhile (\<lambda>c. c \<noteq> 0) cs = without_terminator cs"
    by (metis append_Nil2)
qed

lemma buffer_size:
  "unat ((of_nat n + 1) * 2 :: 32 word) = (2 * (n + 1)) mod 2 ^ 32"
proof -
  have "((of_nat n + 1) * 2 :: 32 word) = of_nat (2 * (n + 1))" by simp
  then show ?thesis by (simp only: unat_of_nat) simp
qed

lemma clipLatin1ToWinTxt_fits:
  assumes nz: "0 \<notin> set (butlast pcSrc)"
    and small: "length (lf_to_crlf sg (without_terminator pcSrc)) + 1 < 2 ^ 31"
  shows "clipLatin1ToWinTxt sg pcSrc =
           Some (VINF_SUCCESS, Some (lf_to_crlf sg (without_terminator pcSrc) @ [0]),
                 2 * (length (lf_to_crlf sg (without_terminator pcSrc)) + 1))"
proof -
  let ?w = "lf_to_crlf sg (without_terminator pcSrc)"
  let ?N = "length ?w"
  have cnt: "clipLatin1ToWinTxt_count pcSrc 0 = of_nat ?N"
    using clipLatin1ToWinTxt_count_eq [of pcSrc 0 sg] unterminated(1) [OF nz] by simp
  have cb: "unat ((of_nat ?N + 1) * 2 :: 32 word) = 2 * (?N + 1)"
    using small by (simp only: buffer_size) simp
  from unterminated(2) [OF nz] obtain t where t: "t = [] \<or> t = [0]"
    and src: "pcSrc = without_terminator pcSrc @ t"
    by (metis append_Nil2)
  have e: "lf_to_crlf sg pcSrc = ?w @ map (RTUTF16_of_char sg) t"
    using t by (subst src) auto
  have len: "length (lf_to_crlf sg pcSrc) \<le> ?N + 1"
    using t by (auto simp: e)
  have "clipLatin1ToWinTxt_copy sg pcSrc (of_nat (length ([] :: 16 word list))) ([] @ replicate (?N + 1) 0)
          = Some ([] @ lf_to_crlf sg pcSrc
                  @ drop (length (lf_to_crlf sg pcSrc)) (replicate (?N + 1) 0))"
    using len small by (intro clipLatin1ToWinTxt_copy_fits) simp_all
  moreover have "drop n (replicate (n + 1) x) = [x]" for n and x :: "16 word"
    by (induction n) auto
  ultimately have cp: "clipLatin1ToWinTxt_copy sg pcSrc 0 (replicate (?N + 1) 0) = Some (?w @ [0])"
    using t by (auto simp: e simp del: replicate_Suc)
  have last: "unat (of_nat ?N :: 32 word) = ?N"
    using small by (intro unat_of_nat32) simp
  have sub: "(of_nat ?N + 1 - 1 :: 32 word) = of_nat ?N" by simp
  have half: "2 * (?N + 1) div 2 = ?N + 1" by simp
  show ?thesis
    unfolding clipLatin1ToWinTxt_def Let_def cnt cb sub half cp option.case last
    by (simp add: list_update_append)
qed

lemma clipLatin1ToWinTxt_defined:
  assumes "clipLatin1ToWinTxt sg pcSrc = Some r"
  shows "0 \<notin> set (butlast pcSrc)
         \<and> length (lf_to_crlf sg (without_terminator pcSrc)) + 1 < 2 ^ 31"
proof -
  let ?pre = "takeWhile (\<lambda>c. c \<noteq> 0) pcSrc"
  let ?rest = "dropWhile (\<lambda>c. c \<noteq> 0) pcSrc"
  let ?N = "length (lf_to_crlf sg ?pre)"
  let ?B = "(2 * (?N + 1)) mod 2 ^ 32 div 2"
  have cnt: "clipLatin1ToWinTxt_count pcSrc 0 = of_nat ?N"
    using clipLatin1ToWinTxt_count_eq [of pcSrc 0 sg] by simp
  from assms obtain d where cp: "clipLatin1ToWinTxt_copy sg pcSrc 0 (replicate ?B 0) = Some d"
    unfolding clipLatin1ToWinTxt_def Let_def cnt buffer_size by (auto split: option.splits)
  have B: "?B < 2 ^ 31" by simp
  have "unat (0 :: 32 word) + length (lf_to_crlf sg pcSrc) \<le> length (replicate ?B (0 :: 16 word))"
    using B by (intro clipLatin1ToWinTxt_copy_Some [OF cp]) simp_all
  then have M: "length (lf_to_crlf sg pcSrc) \<le> ?B" by simp
  have split: "lf_to_crlf sg pcSrc = lf_to_crlf sg ?pre @ lf_to_crlf sg ?rest"
    by (metis lf_to_crlf_simps(3) takeWhile_dropWhile_id)
  with M have NB: "?N + length (lf_to_crlf sg ?rest) \<le> ?B" by simp
  with B have "?N < 2 ^ 31" by simp
  have small: "?N + 1 < 2 ^ 31"
  proof (rule ccontr)
    assume "\<not> ?N + 1 < 2 ^ 31"
    with \<open>?N < 2 ^ 31\<close> have "?N + 1 = 2 ^ 31" by simp
    then have "?B = 0" by simp
    with NB \<open>?N + 1 = 2 ^ 31\<close> show False by simp
  qed
  then have "?B = ?N + 1" by simp
  with NB have "length (lf_to_crlf sg ?rest) \<le> 1" by simp
  with lf_to_crlf_length [of ?rest sg] have "length ?rest \<le> 1" by simp
  moreover have "?rest \<noteq> [] \<Longrightarrow> hd ?rest = 0"
    using hd_dropWhile [of "\<lambda>c. c \<noteq> 0" pcSrc] by auto
  ultimately have rest: "?rest = [] \<or> ?rest = [0]"
    by (cases ?rest) auto
  have pre: "0 \<notin> set ?pre"
    using set_takeWhileD by fastforce
  define p where "p = ?pre"
  have src: "pcSrc = p @ ?rest" by (simp add: p_def)
  from rest have "butlast pcSrc = butlast p \<or> butlast pcSrc = p"
    by (subst (1 2) src) (auto simp: butlast_append)
  with pre have nz: "0 \<notin> set (butlast pcSrc)"
    unfolding p_def [symmetric] by (auto dest: in_set_butlastD)
  from unterminated(1) [OF nz] small nz show ?thesis by simp
qed

text \<open>clipLatin1ToWinTxt returns exactly when the source has no zero byte before its last
  byte and the output has fewer than \<open>2 ^ 31\<close> code units. Otherwise the second loop writes
  past the end of the buffer that the first loop sized: the first loop stops at a zero
  byte and the second does not, and the size in bytes is computed in 32 bits.\<close>

lemma clipLatin1ToWinTxt_iff:
  "clipLatin1ToWinTxt sg pcSrc =
     (if 0 \<notin> set (butlast pcSrc)
         \<and> length (lf_to_crlf sg (without_terminator pcSrc)) + 1 < 2 ^ 31
      then Some (VINF_SUCCESS, Some (lf_to_crlf sg (without_terminator pcSrc) @ [0]),
                 2 * (length (lf_to_crlf sg (without_terminator pcSrc)) + 1))
      else None)"
  using clipLatin1ToWinTxt_fits [of pcSrc sg] clipLatin1ToWinTxt_defined [of sg pcSrc]
  by (cases "clipLatin1ToWinTxt sg pcSrc") auto

lemma utf8_decode_props:
  "utf8_decode bs = Some cps \<Longrightarrow>
   (\<forall>cp\<in>set cps. cp < 0x110000) \<and> (0 \<notin> set bs \<longrightarrow> 0 \<notin> set cps)"
proof (induction "length bs" arbitrary: bs cps rule: less_induct)
  case less
  show ?case
  proof (cases bs)
    case Nil
    with less.prems show ?thesis by simp
  next
    case (Cons b r0)
    have step: "(\<forall>cp\<in>set cps'. cp < 0x110000) \<and> (0 \<notin> set r \<longrightarrow> 0 \<notin> set cps')"
      if "utf8_decode r = Some cps'" and "length r < length bs" for r cps'
      using less.hyps [OF that(2) that(1)] .
    consider (one) "b < 0x80" | (two) "0xC0 \<le> b" "b < 0xE0" | (three) "0xE0 \<le> b" "b < 0xF0"
      | (four) "0xF0 \<le> b" "b < 0xF8" | (bad) "0x80 \<le> b" "b < 0xC0" | (bad') "0xF8 \<le> b"
      by linarith
    then show ?thesis
    proof cases
      case one
      with less.prems Cons obtain cps' where d: "utf8_decode r0 = Some cps'" and c: "cps = b # cps'"
        by auto
      from step [OF d] Cons one show ?thesis by (auto simp: c)
    next
      case two
      with less.prems Cons obtain b1 r cps' where r0: "r0 = b1 # r"
        and ok: "utf8_cont b1" "0x80 \<le> (b - 0xC0) * 0x40 + (b1 - 0x80)"
        and d: "utf8_decode r = Some cps'"
        and c: "cps = ((b - 0xC0) * 0x40 + (b1 - 0x80)) # cps'"
        by (auto simp: Let_def split: list.splits if_splits)
      from step [OF d] Cons r0 two ok show ?thesis by (auto simp: c utf8_cont_def)
    next
      case three
      with less.prems Cons obtain b1 b2 r cps' where r0: "r0 = b1 # b2 # r"
        and ok: "utf8_cont b1" "utf8_cont b2"
          "0x800 \<le> (b - 0xE0) * 0x1000 + (b1 - 0x80) * 0x40 + (b2 - 0x80)"
        and d: "utf8_decode r = Some cps'"
        and c: "cps = ((b - 0xE0) * 0x1000 + (b1 - 0x80) * 0x40 + (b2 - 0x80)) # cps'"
        by (auto simp: Let_def split: list.splits if_splits)
      from step [OF d] Cons r0 three ok show ?thesis by (auto simp: c utf8_cont_def)
    next
      case four
      with less.prems Cons obtain b1 b2 b3 r cps' where r0: "r0 = b1 # b2 # b3 # r"
        and ok: "0x10000 \<le> (b - 0xF0) * 0x40000 + (b1 - 0x80) * 0x1000 + (b2 - 0x80) * 0x40
                          + (b3 - 0x80)"
           "(b - 0xF0) * 0x40000 + (b1 - 0x80) * 0x1000 + (b2 - 0x80) * 0x40 + (b3 - 0x80)
              < 0x110000"
        and d: "utf8_decode r = Some cps'"
        and c: "cps = ((b - 0xF0) * 0x40000 + (b1 - 0x80) * 0x1000 + (b2 - 0x80) * 0x40
                          + (b3 - 0x80)) # cps'"
        by (auto simp: Let_def split: list.splits if_splits)
      from step [OF d] Cons r0 four ok show ?thesis by (auto simp: c)
    next
      case bad
      with less.prems Cons show ?thesis by simp
    next
      case bad'
      with less.prems Cons show ?thesis by simp
    qed
  qed
qed

lemma utf16_encode_units:
  assumes "cp < 0x110000"
  shows "\<forall>u\<in>set (utf16_encode cp). u < 65536 \<and> (cp \<noteq> 0 \<longrightarrow> u \<noteq> 0)
           \<and> (cp \<noteq> LINEFEED \<longrightarrow> u \<noteq> LINEFEED)"
proof (cases "cp < 0x10000")
  case True
  then show ?thesis by (simp add: utf16_encode_def)
next
  case False
  define d where "d = (cp - 0x10000) div 0x400"
  define m where "m = (cp - 0x10000) mod 0x400"
  have "d < 0x400"
    unfolding d_def using assms by (intro less_mult_imp_div_less) simp
  moreover have "m < 0x400"
    unfolding m_def by simp
  moreover have "utf16_encode cp = [0xD800 + d, 0xDC00 + m]"
    using False by (simp add: utf16_encode_def d_def m_def)
  ultimately show ?thesis
    by (simp add: LINEFEED_def)
qed

lemma unit_of_nat:
  assumes "u < 65536"
  shows "((of_nat u :: 16 word) = 0) = (u = 0)"
    and "((of_nat u :: 16 word) = of_nat LINEFEED) = (u = LINEFEED)"
proof -
  have u: "unat (of_nat u :: 16 word) = u"
    using assms by (simp add: unat_of_nat)
  have l: "unat (of_nat LINEFEED :: 16 word) = LINEFEED"
    by (simp add: LINEFEED_def)
  show "((of_nat u :: 16 word) = 0) = (u = 0)"
  proof
    assume "(of_nat u :: 16 word) = 0"
    then have "unat (of_nat u :: 16 word) = 0" by (simp only: unat_0)
    with u show "u = 0" by (simp only:)
  next
    assume "u = 0"
    then show "(of_nat u :: 16 word) = 0" by simp
  qed
  show "((of_nat u :: 16 word) = of_nat LINEFEED) = (u = LINEFEED)"
  proof
    assume "(of_nat u :: 16 word) = of_nat LINEFEED"
    then have "unat (of_nat u :: 16 word) = unat (of_nat LINEFEED :: 16 word)" by (simp only:)
    then show "u = LINEFEED" unfolding u l .
  next
    assume "u = LINEFEED"
    then show "(of_nat u :: 16 word) = of_nat LINEFEED" by (simp only:)
  qed
qed

lemma lin_to_win_units:
  assumes "\<forall>u\<in>set us. u < 65536 \<and> u \<noteq> LINEFEED"
  shows "lin_to_win (map of_nat us) = map of_nat us"
  using assms by (induction us) (simp_all add: unit_of_nat)

lemma host_text_of_eq:
  assumes "\<forall>cp\<in>set cps. cp < 0x110000"
  shows "lin_to_win (map of_nat (concat (map utf16_encode cps))) = host_text_of cps"
  using assms
proof (induction cps)
  case Nil
  show ?case by (simp add: host_text_of_def)
next
  case (Cons cp cps)
  then have IH: "lin_to_win (map of_nat (concat (map utf16_encode cps))) = host_text_of cps"
    and cp: "cp < 0x110000" by simp_all
  have "lin_to_win (map of_nat (utf16_encode cp))
          = (if cp = LINEFEED then [of_nat CARRIAGERETURN, of_nat LINEFEED]
             else map of_nat (utf16_encode cp))"
  proof (cases "cp = LINEFEED")
    case True
    then show ?thesis by (simp add: utf16_encode_def LINEFEED_def)
  next
    case False
    with utf16_encode_units [OF cp] show ?thesis
      by (simp add: lin_to_win_units)
  qed
  moreover have "lin_to_win (a @ b) = lin_to_win a @ lin_to_win b" for a b
    by (simp add: lin_to_win_def)
  ultimately show ?case
    using IH by (simp add: host_text_of_def del: lin_to_win_simps)
qed

lemma host_units_nonzero:
  assumes "\<forall>cp\<in>set cps. cp < 0x110000" and "0 \<notin> set cps"
  shows "0 \<notin> set (map of_nat (concat (map utf16_encode cps)) :: 16 word list)"
proof -
  have "(of_nat u :: 16 word) \<noteq> 0" if "u \<in> set (utf16_encode cp)" "cp \<in> set cps" for u cp
  proof -
    from that(2) assms(1) have "cp < 0x110000" by simp
    moreover from that(2) assms(2) have "cp \<noteq> 0" by metis
    ultimately have "cp < 0x110000" "cp \<noteq> 0" .
    with utf16_encode_units [of cp] that(1) show ?thesis
      by (simp add: unit_of_nat)
  qed
  then show ?thesis by auto
qed

lemma text_at_zero_free: "0 \<notin> set (text_at p n)"
  unfolding text_at_def using set_takeWhileD by fastforce

lemma clipUtf8ToWinTxt_as_specified:
  assumes h: "converts_as_specified h"
    and dec: "utf8_decode (map unat (text_at pcSrc cbSrc)) = Some cps"
  shows "clipUtf8ToWinTxt h pcSrc cbSrc
           = (VINF_SUCCESS, Some (host_text_of cps @ [0]),
              (2 * (length (host_text_of cps) + 1)) mod 2 ^ 32)"
proof -
  from h have hs: "RTStrToUtf16Ex h = spec_RTStrToUtf16Ex"
    "vboxClipboardUtf16GetWinSize h = spec_vboxClipboardUtf16GetWinSize"
    "vboxClipboardUtf16LinToWin h = spec_vboxClipboardUtf16LinToWin"
    by (simp_all add: converts_as_specified_def)
  define W :: "16 word list" where "W = map of_nat (concat (map utf16_encode cps))"
  have "0 \<notin> set (map unat (text_at pcSrc cbSrc))"
    using text_at_zero_free [of pcSrc cbSrc] by (auto simp: unat_eq_0)
  with utf8_decode_props [OF dec]
  have lt: "\<forall>cp\<in>set cps. cp < 0x110000" and nz: "0 \<notin> set cps" by simp_all
  have nzW: "0 \<notin> set W"
    unfolding W_def by (rule host_units_nonzero [OF lt nz])
  have tmp: "text_at (W @ [0]) (Suc (length W)) = W"
    using text_at_text [OF nzW, of "[0]" "Suc (length W)"] by simp
  have lw: "lin_to_win W = host_text_of cps"
    unfolding W_def by (rule host_text_of_eq [OF lt])
  have r1: "spec_RTStrToUtf16Ex pcSrc cbSrc = (VINF_SUCCESS, W @ [0], length W)"
    unfolding spec_RTStrToUtf16Ex_def dec option.case Let_def W_def by simp
  have r2: "spec_vboxClipboardUtf16GetWinSize (W @ [0]) (length W + 1)
              = (VINF_SUCCESS, length (host_text_of cps) + 1)"
    unfolding spec_vboxClipboardUtf16GetWinSize_def by (simp add: tmp lw)
  have r3: "spec_vboxClipboardUtf16LinToWin (W @ [0]) (length W + 1)
              (length (host_text_of cps) + 1)
              = (VINF_SUCCESS, host_text_of cps @ [0])"
    unfolding spec_vboxClipboardUtf16LinToWin_def by (simp add: tmp lw)
  show ?thesis
    unfolding clipUtf8ToWinTxt_def clipUtf16ToWinTxt_def hs r1 prod.case
      RT_SUCCESS_def if_True r2 r3 Let_def simp_thms
    by (simp add: mult.commute)
qed

lemma clipCTextToWinTxt_as_specified:
  assumes h: "converts_as_specified h" and w: "wdg \<noteq> 0" and n: "cbSrc \<noteq> 0"
    and xmb: "XmbTextPropertyToTextList h (take cbSrc pcSrc) = (xrc, Some s)" and xrc: "0 \<le> xrc"
    and cp: "RTStrCurrentCPToUtf8 h s = (VINF_SUCCESS, u)"
    and dec: "utf8_decode (map unat (text_at u (length u))) = Some cps"
  shows "clipCTextToWinTxt h wdg pcSrc cbSrc
           = Some (VINF_SUCCESS, Some (host_text_of cps @ [0]),
                   (2 * (length (host_text_of cps) + 1)) mod 2 ^ 32)"
  using w n xrc
  unfolding clipCTextToWinTxt_def xmb prod.case Let_def
  by (simp add: RT_SUCCESS_def cp clipUtf8ToWinTxt_as_specified [OF h dec])

text \<open>
  Claim C3, as amended. In each of the three conversions of X11 text to host text every
  line feed of the input is expanded to carriage return and line feed, also one that
  already follows a carriage return (an existing CRLF pair becomes CR CR LF), and the
  output ends with one zero code unit, for every input that the conversion converts:
  \<^item> from Latin-1, whenever clipLatin1ToWinTxt returns, every other byte giving one code
    unit; it returns exactly when the source has no zero byte before its last byte and
    the output has fewer than \<open>2 ^ 31\<close> code units;
  \<^item> from UTF-8, for every valid UTF-8 text, every other code point giving its UTF-16
    code units;
  \<^item> from compound text, for the empty text and for every text that Xlib and the current
    code page turn into valid UTF-8.
  The size reported is that of the output in bytes. The conversions from UTF-8 and from
  compound text are taken on helpers that convert as modelled from the specification.
\<close>

theorem x11_text_to_host_expands_every_line_feed:
  assumes "converts_as_specified h"
  shows "clipLatin1ToWinTxt fCharSigned pcSrc =
           (if 0 \<notin> set (butlast pcSrc)
               \<and> length (lf_to_crlf fCharSigned (without_terminator pcSrc)) + 1 < 2 ^ 31
            then Some (VINF_SUCCESS,
                       Some (lf_to_crlf fCharSigned (without_terminator pcSrc) @ [0]),
                       2 * (length (lf_to_crlf fCharSigned (without_terminator pcSrc)) + 1))
            else None)
       \<and> (utf8_decode (map unat (text_at pcStr cbStr)) = Some cps \<longrightarrow>
            clipUtf8ToWinTxt h pcStr cbStr
              = (VINF_SUCCESS, Some (host_text_of cps @ [0]),
                 (2 * (length (host_text_of cps) + 1)) mod 2 ^ 32))
       \<and> (wdg \<noteq> 0 \<longrightarrow>
            clipCTextToWinTxt h wdg pcCText 0 = Some (VINF_SUCCESS, Some (host_text_of [] @ [0]), 2))
       \<and> (wdg \<noteq> 0 \<and> cbCText \<noteq> 0
            \<and> XmbTextPropertyToTextList h (take cbCText pcCText) = (xrc, Some s) \<and> 0 \<le> xrc
            \<and> RTStrCurrentCPToUtf8 h s = (VINF_SUCCESS, u)
            \<and> utf8_decode (map unat (text_at u (length u))) = Some cps' \<longrightarrow>
            clipCTextToWinTxt h wdg pcCText cbCText
              = Some (VINF_SUCCESS, Some (host_text_of cps' @ [0]),
                      (2 * (length (host_text_of cps') + 1)) mod 2 ^ 32))"
proof (intro conjI impI)
  show "clipLatin1ToWinTxt fCharSigned pcSrc =
           (if 0 \<notin> set (butlast pcSrc)
               \<and> length (lf_to_crlf fCharSigned (without_terminator pcSrc)) + 1 < 2 ^ 31
            then Some (VINF_SUCCESS,
                       Some (lf_to_crlf fCharSigned (without_terminator pcSrc) @ [0]),
                       2 * (length (lf_to_crlf fCharSigned (without_terminator pcSrc)) + 1))
            else None)"
    by (rule clipLatin1ToWinTxt_iff)
next
  assume "utf8_decode (map unat (text_at pcStr cbStr)) = Some cps"
  then show "clipUtf8ToWinTxt h pcStr cbStr
              = (VINF_SUCCESS, Some (host_text_of cps @ [0]),
                 (2 * (length (host_text_of cps) + 1)) mod 2 ^ 32)"
    by (rule clipUtf8ToWinTxt_as_specified [OF assms])
next
  assume "wdg \<noteq> 0"
  then show "clipCTextToWinTxt h wdg pcCText 0
               = Some (VINF_SUCCESS, Some (host_text_of [] @ [0]), 2)"
    by (simp add: clipCTextToWinTxt_def host_text_of_def)
next
  assume "wdg \<noteq> 0 \<and> cbCText \<noteq> 0
            \<and> XmbTextPropertyToTextList h (take cbCText pcCText) = (xrc, Some s) \<and> 0 \<le> xrc
            \<and> RTStrCurrentCPToUtf8 h s = (VINF_SUCCESS, u)
            \<and> utf8_decode (map unat (text_at u (length u))) = Some cps'"
  then show "clipCTextToWinTxt h wdg pcCText cbCText
              = Some (VINF_SUCCESS, Some (host_text_of cps' @ [0]),
                      (2 * (length (host_text_of cps') + 1)) mod 2 ^ 32)"
    using clipCTextToWinTxt_as_specified [OF assms, of wdg cbCText pcCText xrc s u cps']
    by blast
qed

theorem x11_text_to_host_expands_every_line_feed_witness:
  "converts_as_specified
     (spec_helpers\<lparr>XmbTextPropertyToTextList := (\<lambda>v. (0, Some (takeWhile (\<lambda>c. c \<noteq> 0) v))),
                  RTStrCurrentCPToUtf8 := (\<lambda>s. (VINF_SUCCESS, s))\<rparr>)
   \<and> clipLatin1ToWinTxt True
       [0x47, 0x65, 0x6F, 0x72, 0x67, 0x65, 0x73, 0x0A, 0x44, 0x75, 0x70, 0x72, 0xEA, 0]
     = Some (VINF_SUCCESS,
             Some [0x47, 0x65, 0x6F, 0x72, 0x67, 0x65, 0x73, 0x0D, 0x0A, 0x44, 0x75, 0x70, 0x72,
                   0xFFEA, 0], 30)
   \<and> clipLatin1ToWinTxt True [0xEA, 0, 0x0A] = None
   \<and> utf8_decode (map unat (text_at [0x68, 0x69, 0x0D, 0x0A, 0xE2, 0x82, 0xAC, 0 :: 8 word] 8))
     = Some [0x68, 0x69, 0x0D, 0x0A, 0x20AC]
   \<and> clipUtf8ToWinTxt
       (spec_helpers\<lparr>XmbTextPropertyToTextList := (\<lambda>v. (0, Some (takeWhile (\<lambda>c. c \<noteq> 0) v))),
                    RTStrCurrentCPToUtf8 := (\<lambda>s. (VINF_SUCCESS, s))\<rparr>)
       [0x68, 0x69, 0x0D, 0x0A, 0xE2, 0x82, 0xAC, 0] 8
     = (VINF_SUCCESS, Some [0x68, 0x69, 0x0D, 0x0D, 0x0A, 0x20AC, 0], 14)
   \<and> clipCTextToWinTxt
       (spec_helpers\<lparr>XmbTextPropertyToTextList := (\<lambda>v. (0, Some (takeWhile (\<lambda>c. c \<noteq> 0) v))),
                    RTStrCurrentCPToUtf8 := (\<lambda>s. (VINF_SUCCESS, s))\<rparr>)
       104 [0x68, 0x0A, 0x0D, 0x77, 0] 0
     = Some (VINF_SUCCESS, Some [0], 2)
   \<and> clipCTextToWinTxt
       (spec_helpers\<lparr>XmbTextPropertyToTextList := (\<lambda>v. (0, Some (takeWhile (\<lambda>c. c \<noteq> 0) v))),
                    RTStrCurrentCPToUtf8 := (\<lambda>s. (VINF_SUCCESS, s))\<rparr>)
       104 [0x68, 0x0A, 0x0D, 0x77, 0] 5
     = Some (VINF_SUCCESS, Some [0x68, 0x0D, 0x0A, 0x0D, 0x77, 0], 12)"
proof -
  let ?h = "spec_helpers\<lparr>XmbTextPropertyToTextList := (\<lambda>v. (0, Some (takeWhile (\<lambda>c. c \<noteq> 0) v))),
                        RTStrCurrentCPToUtf8 := (\<lambda>s. (VINF_SUCCESS, s))\<rparr>"
  let ?latin1 = "[0x47, 0x65, 0x6F, 0x72, 0x67, 0x65, 0x73, 0x0A, 0x44, 0x75, 0x70, 0x72, 0xEA, 0]
                   :: 8 word list"
  let ?utf8 = "[0x68, 0x69, 0x0D, 0x0A, 0xE2, 0x82, 0xAC, 0] :: 8 word list"
  let ?ctext = "[0x68, 0x0A, 0x0D, 0x77, 0] :: 8 word list"
  have h: "converts_as_specified ?h"
    by (simp add: converts_as_specified_def spec_helpers_def)
  have d: "utf8_decode (map unat (text_at ?utf8 8)) = Some [0x68, 0x69, 0x0D, 0x0A, 0x20AC]"
    by (simp add: text_at_def utf8_cont_def)
  have c: "(104 :: nat) \<noteq> 0 \<and> (5 :: nat) \<noteq> 0
           \<and> XmbTextPropertyToTextList ?h (take 5 ?ctext) = (0, Some [0x68, 0x0A, 0x0D, 0x77])
           \<and> (0 :: int) \<le> 0
           \<and> RTStrCurrentCPToUtf8 ?h [0x68, 0x0A, 0x0D, 0x77] = (VINF_SUCCESS, [0x68, 0x0A, 0x0D, 0x77])
           \<and> utf8_decode (map unat (text_at [0x68, 0x0A, 0x0D, 0x77 :: 8 word]
                                     (length [0x68, 0x0A, 0x0D, 0x77 :: 8 word])))
               = Some [0x68, 0x0A, 0x0D, 0x77]"
    by (simp add: text_at_def)
  from x11_text_to_host_expands_every_line_feed
         [where h = ?h and fCharSigned = True and pcSrc = ?latin1 and pcStr = ?utf8
            and cbStr = 8 and cps = "[0x68, 0x69, 0x0D, 0x0A, 0x20AC]" and wdg = 104
            and pcCText = ?ctext and cbCText = 5 and xrc = 0 and s = "[0x68, 0x0A, 0x0D, 0x77]"
            and u = "[0x68, 0x0A, 0x0D, 0x77]" and cps' = "[0x68, 0x0A, 0x0D, 0x77]", OF h]
    x11_text_to_host_expands_every_line_feed
         [where h = ?h and fCharSigned = True and pcSrc = "[0xEA, 0, 0x0A]", OF h]
    h d c
  show ?thesis
    by (simp add: host_text_of_def utf16_encode_def lf_to_crlf_def without_terminator_def
          RTUTF16_of_char_def LINEFEED_def CARRIAGERETURN_def)
qed

text \<open>
  Claim C3 as the specification states it fails: an existing CRLF pair is not left intact.
  The text of the test "reading Latin1 from X11", which is not valid UTF-8 and so goes
  through clipLatin1ToWinTxt, arrives with CR CR LF.
\<close>

theorem x11_text_to_host_crlf_counterexample:
  "clipLatin1ToWinTxt True
     [0x47, 0x65, 0x6F, 0x72, 0x67, 0x65, 0x73, 0x0D, 0x0A, 0x44, 0x75, 0x70, 0x72, 0xEA, 0]
   = Some (VINF_SUCCESS,
           Some [0x47, 0x65, 0x6F, 0x72, 0x67, 0x65, 0x73, 0x0D, 0x0D, 0x0A, 0x44, 0x75, 0x70,
                 0x72, 0xFFEA, 0], 32)
   \<and> clipLatin1ToWinTxt True
     [0x47, 0x65, 0x6F, 0x72, 0x67, 0x65, 0x73, 0x0D, 0x0A, 0x44, 0x75, 0x70, 0x72, 0xEA, 0]
   \<noteq> Some (VINF_SUCCESS,
           Some [0x47, 0x65, 0x6F, 0x72, 0x67, 0x65, 0x73, 0x0D, 0x0A, 0x44, 0x75, 0x70,
                 0x72, 0xFFEA, 0], 30)
   \<and> clipConvertX11CB spec_helpers True (started_ctx\<lparr>fBusy := True, X11TextFormat := 5\<rparr>)
       \<lparr>mFormat = VBOX_SHARED_CLIPBOARD_FMT_UNICODETEXT, mTextFormat = 5, mReq = 42\<rparr>
       XA_STRING
       (Some [0x47, 0x65, 0x6F, 0x72, 0x67, 0x65, 0x73, 0x0D, 0x0A, 0x44, 0x75, 0x70, 0x72, 0xEA, 0])
       15 8
     = Some (started_ctx\<lparr>X11TextFormat := 5\<rparr>,
             [ClipCompleteDataRequestFromX11 7 VINF_SUCCESS 42
                (Some [0x47, 0x65, 0x6F, 0x72, 0x67, 0x65, 0x73, 0x0D, 0x0D, 0x0A, 0x44, 0x75,
                       0x70, 0x72, 0xFFEA, 0]) 32])"
proof -
  let ?src = "[0x47, 0x65, 0x6F, 0x72, 0x67, 0x65, 0x73, 0x0D, 0x0A, 0x44, 0x75, 0x70, 0x72, 0xEA, 0]
                :: 8 word list"
  have conv: "clipLatin1ToWinTxt True ?src
     = Some (VINF_SUCCESS,
           Some [0x47, 0x65, 0x6F, 0x72, 0x67, 0x65, 0x73, 0x0D, 0x0D, 0x0A, 0x44, 0x75, 0x70,
                 0x72, 0xFFEA, 0], 32)"
    by code_simp
  have broken: "\<not> RT_SUCCESS (spec_RTStrValidateEncodingEx ?src 15)"
    by (simp add: spec_RTStrValidateEncodingEx_def text_at_def RT_SUCCESS_def utf8_cont_def)
  show ?thesis
    using conv broken
    by (simp add: clipConvertX11CB_def started_ctx_eq spec_helpers_def
          clipRealFormatForX11Format_def g_aFormats_def VBOX_SHARED_CLIPBOARD_FMT_UNICODETEXT_def
          XA_STRING_def)
qed

end
